(* ===== verification/Prelude.thy ===== *)
theory Prelude
  imports Main "HOL-Library.State_Monad" "HOL-Library.AList" "HOL-Library.Multiset"
    "HOL-Library.Sublist" "HOL-Library.Word" "HOL-Library.Char_ord"
begin

text \<open>
  Shared material of the LiteChat server development.

  \<^item> The effects of the C++ code are actions of the library's state monad; \<open>gets\<close>, \<open>modify\<close>,
    \<open>guarded\<close> and \<open>foreach\<close> are the remaining building blocks (field read, field write, one-armed
    \<open>if\<close>, range-based \<open>for\<close>).
  \<^item> A \<open>std::unordered_map\<close> is an association list with distinct keys (\<open>umap_*\<close>); the list order
    stands for the iteration order of the hash table, on which no lemma relies.  The laws the
    clients use are the locale \<open>assoc_store\<close>.
  \<^item> A \<open>std::queue\<close> is a list with its front first; the laws are the locale \<open>fifo\<close>.
\<close>

named_theorems act_simps \<open>equations that run an action\<close>
named_theorems umap_simps \<open>lookups in association lists after updates\<close>

section \<open>Actions\<close>

definition gets :: "('s \<Rightarrow> 'a) \<Rightarrow> ('s, 'a) state" where
  "gets f = State (\<lambda>s. (f s, s))"

definition modify :: "('s \<Rightarrow> 's) \<Rightarrow> ('s, unit) state" where
  "modify f = State (\<lambda>s. ((), f s))"

definition guarded :: "bool \<Rightarrow> ('s, unit) state \<Rightarrow> ('s, unit) state" where
  "guarded b m = (if b then m else State_Monad.return ())"

primrec foreach :: "'a list \<Rightarrow> ('a \<Rightarrow> ('s, unit) state) \<Rightarrow> ('s, unit) state" where
  "foreach [] f = State_Monad.return ()"
| "foreach (x # xs) f = State_Monad.bind (f x) (\<lambda>_. foreach xs f)"

abbreviation skip :: "('s, unit) state" where
  "skip \<equiv> State_Monad.return ()"

lemma run_state_gets [simp, act_simps]: "run_state (gets f) s = (f s, s)"
  by (simp add: gets_def)

lemma run_state_modify [simp, act_simps]: "run_state (modify f) s = ((), f s)"
  by (simp add: modify_def)

lemma run_state_guarded [simp, act_simps]:
  "run_state (guarded b m) s = (if b then run_state m s else ((), s))"
  by (simp add: guarded_def)

lemma run_state_foreach_Nil [act_simps]: "run_state (foreach [] f) s = ((), s)"
  by simp

lemma run_state_foreach_Cons [act_simps]:
  "run_state (foreach (x # xs) f) s = run_state (foreach xs f) (snd (run_state (f x) s))"
  by (simp add: case_prod_beta)

lemma run_state_foreach_append:
  "run_state (foreach (xs @ ys) f) s = run_state (foreach ys f) (snd (run_state (foreach xs f) s))"
  by (induction xs arbitrary: s) (auto simp: case_prod_beta)

section \<open>Hash maps\<close>

type_synonym ('k, 'v) umap = "('k \<times> 'v) list"

definition umap_find :: "('k, 'v) umap \<Rightarrow> 'k \<Rightarrow> 'v option" where
  "umap_find m k = map_of m k"

definition umap_set :: "'k \<Rightarrow> 'v \<Rightarrow> ('k, 'v) umap \<Rightarrow> ('k, 'v) umap" where
  "umap_set k v m = AList.update k v m"

definition umap_erase :: "'k \<Rightarrow> ('k, 'v) umap \<Rightarrow> ('k, 'v) umap" where
  "umap_erase k m = AList.delete k m"

definition umap_wf :: "('k, 'v) umap \<Rightarrow> bool" where
  "umap_wf m \<longleftrightarrow> distinct (map fst m)"

lemma umap_find_eq: "umap_find = map_of"
  by (intro ext) (simp add: umap_find_def)

locale assoc_store =
  fixes empty :: 'm
    and find :: "'m \<Rightarrow> 'k \<Rightarrow> 'v option"
    and put :: "'k \<Rightarrow> 'v \<Rightarrow> 'm \<Rightarrow> 'm"
    and erase :: "'k \<Rightarrow> 'm \<Rightarrow> 'm"
    and wf :: "'m \<Rightarrow> bool"
    and count :: "'m \<Rightarrow> nat"
  assumes find_empty: "find empty k = None"
    and find_put: "find (put k v m) k' = (if k' = k then Some v else find m k')"
    and find_erase: "find (erase k m) k' = (if k' = k then None else find m k')"
    and wf_empty: "wf empty"
    and wf_put: "wf m \<Longrightarrow> wf (put k v m)"
    and wf_erase: "wf m \<Longrightarrow> wf (erase k m)"
    and count_dom: "wf m \<Longrightarrow> finite (dom (find m)) \<and> count m = card (dom (find m))"
begin

lemma dom_put: "dom (find (put k v m)) = insert k (dom (find m))"
  by (auto simp: find_put dom_def)

lemma dom_erase: "dom (find (erase k m)) = dom (find m) - {k}"
  by (auto simp: find_erase dom_def)

lemma count_put: "wf m \<Longrightarrow> count (put k v m) = (if find m k = None then Suc (count m) else count m)"
  using count_dom[of m] count_dom[of "put k v m"]
  by (auto simp: wf_put dom_put card_insert_if)

lemma count_erase: "wf m \<Longrightarrow> count (erase k m) = (if find m k = None then count m else count m - 1)"
  using count_dom[of m] count_dom[of "erase k m"]
  by (auto simp: wf_erase dom_erase card_Diff_singleton_if)

lemma put_put: "find (put k v (put k v' m)) = find (put k v m)"
  by (auto simp: find_put)

lemma erase_put: "find (erase k (put k v m)) = find (erase k m)"
  by (auto simp: find_put find_erase)

lemma count_pos: "wf m \<Longrightarrow> find m k = Some v \<Longrightarrow> 0 < count m"
  using count_dom[of m] by (auto simp: card_gt_0_iff)

end

interpretation um: assoc_store "[]" umap_find umap_set umap_erase umap_wf length
proof unfold_locales
  fix m :: "('a, 'b) umap"
  assume "umap_wf m"
  then show "finite (dom (umap_find m)) \<and> length m = card (dom (umap_find m))"
    by (simp add: umap_wf_def umap_find_eq dom_map_of_conv_image_fst)
      (metis distinct_card length_map list.set_map)
qed (auto simp: umap_find_def umap_set_def umap_erase_def umap_wf_def update_conv' delete_conv'
      distinct_update distinct_delete)

lemmas um_simps [umap_simps] = um.find_empty um.find_put um.find_erase
lemmas um_wf_intros = um.wf_empty um.wf_put um.wf_erase

lemma umap_find_in_set: "umap_find m k = Some v \<Longrightarrow> (k, v) \<in> set m"
  by (simp add: umap_find_def map_of_SomeD)

lemma umap_find_iff: "umap_wf m \<Longrightarrow> umap_find m k = Some v \<longleftrightarrow> (k, v) \<in> set m"
  by (simp add: umap_find_def umap_wf_def)

section \<open>Queues\<close>

locale fifo =
  fixes enq :: "'a \<Rightarrow> 'q \<Rightarrow> 'q"
    and deq :: "'q \<Rightarrow> ('a \<times> 'q) option"
    and items :: "'q \<Rightarrow> 'a list"
  assumes items_enq: "items (enq x q) = items q @ [x]"
    and deq_None: "deq q = None \<longleftrightarrow> items q = []"
    and deq_Some: "deq q = Some (x, q') \<Longrightarrow> items q = x # items q'"
begin

lemma deq_enq_mset: "deq q = Some (x, q') \<Longrightarrow> mset (items (enq x q')) = mset (items q)"
  by (simp add: items_enq deq_Some)

lemma deq_progress: "items q \<noteq> [] \<Longrightarrow> \<exists>x q'. deq q = Some (x, q')"
  using deq_None[of q] by (cases "deq q") auto

lemma deq_length: "deq q = Some (x, q') \<Longrightarrow> length (items q') < length (items q)"
  by (simp add: deq_Some)

lemma rotate_nonempty: "deq q = Some (x, q') \<Longrightarrow> items (enq y q') \<noteq> []"
  by (simp add: items_enq)

end

definition queue_push :: "'a \<Rightarrow> 'a list \<Rightarrow> 'a list" where
  "queue_push x q = q @ [x]"

definition queue_pop :: "'a list \<Rightarrow> ('a \<times> 'a list) option" where
  "queue_pop q = (case q of [] \<Rightarrow> None | x # xs \<Rightarrow> Some (x, xs))"

interpretation qu: fifo queue_push queue_pop "\<lambda>q. q"
  by unfold_locales (auto simp: queue_push_def queue_pop_def split: list.splits)

section \<open>Lists\<close>

lemma filter_eq_Nil_iff: "filter P xs = [] \<longleftrightarrow> (\<forall>x\<in>set xs. \<not> P x)"
  by (simp add: filter_empty_conv)

lemma find_Some_in: "List.find P xs = Some x \<Longrightarrow> x \<in> set xs \<and> P x"
  by (auto simp: find_Some_iff)

lemma find_unique:
  assumes "x \<in> set xs" and "P x" and "\<And>y. y \<in> set xs \<Longrightarrow> P y \<Longrightarrow> y = x"
  shows "List.find P xs = Some x"
proof (cases "List.find P xs")
  case None
  with assms(1,2) show ?thesis by (auto simp: find_None_iff)
next
  case (Some y)
  with assms(3) show ?thesis by (auto dest: find_Some_in)
qed

lemma distinct_map_inj: "distinct (map f xs) \<Longrightarrow> x \<in> set xs \<Longrightarrow> y \<in> set xs \<Longrightarrow> f x = f y \<Longrightarrow> x = y"
  by (auto simp: distinct_map inj_on_def)

lemma find_by_key:
  assumes "distinct (map f xs)" and "x \<in> set xs"
  shows "List.find (\<lambda>y. f y = f x) xs = Some x"
  using assms(2) by (rule find_unique) (simp_all add: distinct_map_inj[OF assms(1) _ assms(2)])

lemma option_eqI_Some: "(\<And>y. a = Some y \<longleftrightarrow> b = Some y) \<Longrightarrow> a = b"
  by (metis not_None_eq)

lemma take_sorted_key: "sorted (map f xs) \<Longrightarrow> sorted (map f (take n xs))"
  by (simp add: sorted_wrt_take take_map[symmetric])

section \<open>Simulations\<close>

text \<open>
  A concrete step function that an abstraction maps to an abstract one, from every state of an
  invariant: whole runs correspond, and what the abstract steps keep holds of the concrete ones.
\<close>

locale simulation =
  fixes impl :: "'i \<Rightarrow> 'c \<Rightarrow> 'c" and spec :: "'i \<Rightarrow> 'a \<Rightarrow> 'a" and abstract :: "'c \<Rightarrow> 'a" and inv :: "'c \<Rightarrow> bool"
  assumes step: "inv c \<Longrightarrow> abstract (impl i c) = spec i (abstract c)"
    and kept: "inv c \<Longrightarrow> inv (impl i c)"
begin

lemma run: "inv c \<Longrightarrow> abstract (fold impl is c) = fold spec is (abstract c)"
  by (induction "is" arbitrary: c) (simp_all add: step kept)

lemma run_kept: "inv c \<Longrightarrow> inv (fold impl is c)"
  by (induction "is" arbitrary: c) (simp_all add: kept)

lemma run_preserves:
  assumes "inv c" and "P (abstract c)" and "\<And>i c. i \<in> set is \<Longrightarrow> inv c \<Longrightarrow> P (abstract c) \<Longrightarrow> P (spec i (abstract c))"
  shows "P (abstract (fold impl is c))"
  using assms by (induction "is" arbitrary: c) (simp_all add: step kept)

text \<open>What holds at the end of a run and did not hold at its start was established by one of its steps.\<close>

lemma established:
  assumes "inv c" and "\<not> P (abstract c)" and "P (abstract (fold impl is c))"
  obtains ys i zs where "is = ys @ i # zs" "inv (fold impl ys c)" "\<not> P (abstract (fold impl ys c))"
    "P (spec i (abstract (fold impl ys c)))"
  using assms
proof (induction "is" arbitrary: thesis rule: rev_induct)
  case Nil
  then show ?case by simp
next
  case (snoc i "is")
  note keep = run_kept[OF snoc.prems(2), of "is"]
  show ?case
  proof (cases "P (abstract (fold impl is c))")
    case True
    then show ?thesis
      by (elim snoc.IH[rotated 3]) (use snoc.prems in auto)
  next
    case False
    with snoc.prems(4) keep show ?thesis
      by (intro snoc.prems(1)[of "is" i "[]"]) (simp_all add: step)
  qed
qed

end

end
