(* ===== verification/Texts.thy ===== *)
theory Texts
  imports Prelude
begin

text \<open>
  The string literals of the server's replies.  A C++ string is a list of bytes, and the source
  files are UTF-8, so a literal is the UTF-8 encoding of its code points; \<open>utf8\<close> computes it.  A
  constant carries the English meaning of the literal in its name.
\<close>

fun utf8_char :: "nat \<Rightarrow> nat list" where
  "utf8_char c =
     (if c < 128 then [c]
      else if c < 2048 then [192 + c div 64, 128 + c mod 64]
      else if c < 65536 then [224 + c div 4096, 128 + c div 64 mod 64, 128 + c mod 64]
      else [240 + c div 262144, 128 + c div 4096 mod 64, 128 + c div 64 mod 64, 128 + c mod 64])"

definition utf8 :: "nat list \<Rightarrow> string" where
  "utf8 cs = map char_of (concat (map utf8_char cs))"

definition txt_not_friends :: string where
  "txt_not_friends = utf8 [19981, 26159, 22909, 21451, 20851, 31995]"

definition txt_no_self_friend :: string where
  "txt_no_self_friend = utf8 [19981, 33021, 28155, 21152, 33258, 24049, 20026, 22909, 21451]"

definition txt_update_ok :: string where
  "txt_update_ok = utf8 [20462, 25913, 25104, 21151]"

definition txt_del_friend_ok :: string where
  "txt_del_friend_ok = utf8 [21024, 38500, 22909, 21451, 25104, 21151]"

definition txt_send_ok :: string where
  "txt_send_ok = utf8 [21457, 36865, 25104, 21151]"

definition txt_sender_missing :: string where
  "txt_sender_missing = utf8 [21457, 36865, 32773, 19981, 23384, 22312]"

definition txt_bad_password_format :: string where
  "txt_bad_password_format = utf8 [23494, 30721, 26684, 24335, 19981, 21512, 27861]"

definition txt_wrong_password :: string where
  "txt_wrong_password = utf8 [23494, 30721, 38169, 35823]"

definition txt_already_friends :: string where
  "txt_already_friends = utf8 [24050, 32463, 26159, 22909, 21451, 20851, 31995]"

definition txt_heartbeat_ok :: string where
  "txt_heartbeat_ok = utf8 [24515, 36339, 27491, 24120]"

definition txt_receiver_missing :: string where
  "txt_receiver_missing = utf8 [25509, 25910, 26041, 19981, 23384, 22312]"

definition txt_db_op_failed :: string where
  "txt_db_op_failed = utf8 [25968, 25454, 24211, 25805, 20316, 22833, 36133]"

definition txt_db_query_failed :: string where
  "txt_db_query_failed = utf8 [25968, 25454, 24211, 26597, 35810, 22833, 36133]"

definition txt_bad_new_password_format :: string where
  "txt_bad_new_password_format = utf8 [26032, 23494, 30721, 26684, 24335, 19981, 21512, 27861]"

definition txt_new_username_exists :: string where
  "txt_new_username_exists = utf8 [26032, 29992, 25143, 21517, 24050, 23384, 22312]"

definition txt_bad_new_username_format :: string where
  "txt_bad_new_username_format = utf8 [26032, 29992, 25143, 21517, 26684, 24335, 19981, 21512, 27861]"

definition txt_internal_error :: string where
  "txt_internal_error = utf8 [26381, 21153, 22120, 20869, 37096, 38169, 35823]"

definition txt_nothing_updated :: string where
  "txt_nothing_updated = utf8 [26410, 20462, 25913, 20219, 20309, 20449, 24687]"

definition txt_unknown_request :: string where
  "txt_unknown_request = utf8 [26410, 30693, 30340, 35831, 27714, 31867, 22411]"

definition txt_query_ok :: string where
  "txt_query_ok = utf8 [26597, 35810, 25104, 21151]"

definition txt_register_ok :: string where
  "txt_register_ok = utf8 [27880, 20876, 25104, 21151]"

definition txt_content_empty :: string where
  "txt_content_empty = utf8 [28040, 24687, 20869, 23481, 19981, 33021, 20026, 31354]"

definition txt_content_too_long :: string where
  "txt_content_too_long = utf8 [28040, 24687, 20869, 23481, 36807, 38271]"

definition txt_add_friend_ok :: string where
  "txt_add_friend_ok = utf8 [28155, 21152, 22909, 21451, 25104, 21151]"

definition txt_user_missing :: string where
  "txt_user_missing = utf8 [29992, 25143, 19981, 23384, 22312]"

definition txt_username_exists :: string where
  "txt_username_exists = utf8 [29992, 25143, 21517, 24050, 23384, 22312]"

definition txt_bad_username_format :: string where
  "txt_bad_username_format = utf8 [29992, 25143, 21517, 26684, 24335, 19981, 21512, 27861]"

definition txt_login_ok :: string where
  "txt_login_ok = utf8 [30331, 24405, 25104, 21151]"

definition txt_target_missing :: string where
  "txt_target_missing = utf8 [30446, 26631, 29992, 25143, 19981, 23384, 22312]"

definition txt_target_empty :: string where
  "txt_target_empty = utf8 [30446, 26631, 29992, 25143, 21517, 19981, 33021, 20026, 31354]"

definition txt_verify_wrong :: string where
  "txt_verify_wrong = utf8 [39564, 35777, 23494, 30721, 38169, 35823]"

definition txt_online_zh :: string where
  "txt_online_zh = utf8 [22312, 32447]"

definition txt_offline_zh :: string where
  "txt_offline_zh = utf8 [31163, 32447]"

definition txt_kicked :: string where
  "txt_kicked = utf8 [36134, 21495, 24050, 22312, 20854, 20182, 22320, 26041, 30331, 24405]"

definition txt_server_busy :: string where
  "txt_server_busy = utf8 [26381, 21153, 22120, 32321, 24537]"

definition txt_json_failed :: string where
  "txt_json_failed = utf8 [74, 83, 79, 78, 35299, 26512, 22833, 36133]"

text \<open>
  A byte of a UTF-8 text either starts a character or continues one; a text can be cut before a
  byte that starts a character and nowhere else.
\<close>

definition continuation_byte :: "char \<Rightarrow> bool" where
  "continuation_byte c \<longleftrightarrow> of_char c div 64 = (2::nat)"

definition utf8_length :: "string \<Rightarrow> nat" where
  "utf8_length s = length (filter (\<lambda>c. \<not> continuation_byte c) s)"

lemma utf8_length_le: "utf8_length s \<le> length s"
  by (simp add: utf8_length_def)

lemma ascii_not_continuation: "of_char c < (128::nat) \<Longrightarrow> \<not> continuation_byte c"
  using less_mult_imp_div_less[of "of_char c" 2 "64::nat"] by (auto simp: continuation_byte_def)

lemma utf8_length_ascii: "\<forall>c\<in>set s. of_char c < (128::nat) \<Longrightarrow> utf8_length s = length s"
  by (simp add: utf8_length_def ascii_not_continuation)

end
