(* ===== verification/Database.thy ===== *)
theory Database
  imports Texts
begin

text \<open>
  The database of \<^verbatim>\<open>src/src/sql/init.sql\<close> and the meaning of the SQL statements the data access
  objects send to it.  A table is the list of its rows in primary key order; the columns are those
  that a statement of the server reads.  A statement is a function on the database; \<open>None\<close> is an
  \<open>SQLException\<close> that the constraints of the schema force (unique keys, foreign keys, column
  widths).

  What SQL leaves to the server is a parameter of the statements, collected in the record
  \<open>mysql\<close>: the collation (strings are compared by their collation keys), the order of rows that
  no \<open>ORDER BY\<close> fixes (a rank for every row), and the text of a \<open>DATETIME\<close>.  Exceptions that are not
  the schema's (a lost connection, a full disk) are decided by the environment, see the theory
  \<open>World\<close>.
\<close>

record mysql =
  collation_key :: "string \<Rightarrow> string"
  row_rank :: "int \<times> int \<Rightarrow> int"
  datetime_text :: "int \<Rightarrow> string"

section \<open>Tables\<close>

record user_row =
  u_id :: int
  u_name :: string
  u_hash :: string
  u_online :: bool
  u_last_login :: "int option"

record friend_row =
  f_id :: int
  f_user1 :: int
  f_user2 :: int

record message_row =
  m_id :: int
  m_sender :: int
  m_receiver :: int
  m_content :: string
  m_time :: int
  m_read :: bool

record database =
  users :: "user_row list"
  friends :: "friend_row list"
  messages :: "message_row list"
  next_user_id :: int
  next_friend_id :: int
  next_message_id :: int

definition empty_database :: database where
  "empty_database = \<lparr>users = [], friends = [], messages = [],
     next_user_id = 1, next_friend_id = 1, next_message_id = 1\<rparr>"

definition varchar_fits :: "nat \<Rightarrow> string \<Rightarrow> bool" where
  "varchar_fits n s \<longleftrightarrow> utf8_length s \<le> n"

definition text_fits :: "string \<Rightarrow> bool" where
  "text_fits s \<longleftrightarrow> length s \<le> 65535"

definition same_name :: "mysql \<Rightarrow> string \<Rightarrow> string \<Rightarrow> bool" where
  "same_name Q a b \<longleftrightarrow> collation_key Q a = collation_key Q b"

definition user_exists :: "int \<Rightarrow> database \<Rightarrow> bool" where
  "user_exists uid d \<longleftrightarrow> (\<exists>r\<in>set (users d). u_id r = uid)"

definition map_users :: "(user_row \<Rightarrow> bool) \<Rightarrow> (user_row \<Rightarrow> user_row) \<Rightarrow> database \<Rightarrow> database" where
  "map_users P f d = d\<lparr>users := map (\<lambda>r. if P r then f r else r) (users d)\<rparr>"

section \<open>Statements on \<open>users\<close>\<close>

definition sql_insert_user :: "mysql \<Rightarrow> string \<Rightarrow> string \<Rightarrow> database \<Rightarrow> database option" where
  "sql_insert_user Q name h d =
     (if \<not> varchar_fits 20 name \<or> \<not> varchar_fits 32 h
         \<or> (\<exists>r\<in>set (users d). same_name Q (u_name r) name)
      then None
      else Some (d\<lparr>users := users d @ [\<lparr>u_id = next_user_id d, u_name = name, u_hash = h,
                                        u_online = False, u_last_login = None\<rparr>],
                  next_user_id := next_user_id d + 1\<rparr>))"

definition sql_user_by_name :: "mysql \<Rightarrow> string \<Rightarrow> database \<Rightarrow> user_row option" where
  "sql_user_by_name Q name d = List.find (\<lambda>r. same_name Q (u_name r) name) (users d)"

definition sql_count_username :: "mysql \<Rightarrow> string \<Rightarrow> database \<Rightarrow> nat" where
  "sql_count_username Q name d = length (filter (\<lambda>r. same_name Q (u_name r) name) (users d))"

definition sql_user_by_id :: "int \<Rightarrow> database \<Rightarrow> user_row option" where
  "sql_user_by_id uid d = List.find (\<lambda>r. u_id r = uid) (users d)"

definition sql_update_username :: "mysql \<Rightarrow> int \<Rightarrow> string \<Rightarrow> database \<Rightarrow> database option" where
  "sql_update_username Q uid name d =
     (if user_exists uid d \<and>
         (\<not> varchar_fits 20 name \<or> (\<exists>r\<in>set (users d). u_id r \<noteq> uid \<and> same_name Q (u_name r) name))
      then None
      else Some (map_users (\<lambda>r. u_id r = uid) (\<lambda>r. r\<lparr>u_name := name\<rparr>) d))"

definition sql_update_password :: "int \<Rightarrow> string \<Rightarrow> database \<Rightarrow> database option" where
  "sql_update_password uid h d =
     (if user_exists uid d \<and> \<not> varchar_fits 32 h then None
      else Some (map_users (\<lambda>r. u_id r = uid) (\<lambda>r. r\<lparr>u_hash := h\<rparr>) d))"

definition sql_update_online :: "int \<Rightarrow> bool \<Rightarrow> database \<Rightarrow> database option" where
  "sql_update_online uid b d = Some (map_users (\<lambda>r. u_id r = uid) (\<lambda>r. r\<lparr>u_online := b\<rparr>) d)"

definition sql_update_online_by_name :: "mysql \<Rightarrow> string \<Rightarrow> bool \<Rightarrow> database \<Rightarrow> database option" where
  "sql_update_online_by_name Q name b d =
     Some (map_users (\<lambda>r. same_name Q (u_name r) name) (\<lambda>r. r\<lparr>u_online := b\<rparr>) d)"

definition sql_update_last_login :: "int \<Rightarrow> int \<Rightarrow> database \<Rightarrow> database option" where
  "sql_update_last_login uid t d =
     Some (map_users (\<lambda>r. u_id r = uid) (\<lambda>r. r\<lparr>u_last_login := Some t\<rparr>) d)"

section \<open>Statements on \<open>friends\<close>\<close>

definition sql_insert_friend :: "int \<Rightarrow> int \<Rightarrow> database \<Rightarrow> database option" where
  "sql_insert_friend uid1 uid2 d =
     (if \<not> user_exists uid1 d \<or> \<not> user_exists uid2 d
         \<or> (\<exists>f\<in>set (friends d). f_user1 f = uid1 \<and> f_user2 f = uid2)
      then None
      else Some (d\<lparr>friends := friends d @ [\<lparr>f_id = next_friend_id d, f_user1 = uid1, f_user2 = uid2\<rparr>],
                  next_friend_id := next_friend_id d + 1\<rparr>))"

definition sql_delete_friend :: "int \<Rightarrow> int \<Rightarrow> database \<Rightarrow> database option" where
  "sql_delete_friend uid1 uid2 d =
     Some (d\<lparr>friends := filter (\<lambda>f. \<not> (f_user1 f = uid1 \<and> f_user2 f = uid2)) (friends d)\<rparr>)"

definition sql_count_friends :: "int \<Rightarrow> int \<Rightarrow> database \<Rightarrow> nat" where
  "sql_count_friends uid1 uid2 d =
     length (filter (\<lambda>f. f_user1 f = uid1 \<and> f_user2 f = uid2) (friends d))"

text \<open>The join of the friend list: one row per pair of a user and a friendship that match.\<close>

definition friend_join :: "int \<Rightarrow> database \<Rightarrow> (user_row \<times> friend_row) list" where
  "friend_join uid d =
     [(u, f). u \<leftarrow> users d, f \<leftarrow> friends d,
        (f_user1 f = u_id u \<or> f_user2 f = u_id u) \<and> (f_user1 f = uid \<or> f_user2 f = uid) \<and> u_id u \<noteq> uid]"

definition sql_friend_list :: "mysql \<Rightarrow> int \<Rightarrow> database \<Rightarrow> (string \<times> bool) list" where
  "sql_friend_list Q uid d =
     map (\<lambda>(u, f). (u_name u, u_online u))
       (sort_key (\<lambda>(u, f). row_rank Q (u_id u, f_id f)) (friend_join uid d))"

section \<open>Statements on \<open>messages\<close>\<close>

definition sql_insert_message :: "int \<Rightarrow> int \<Rightarrow> int \<Rightarrow> string \<Rightarrow> database \<Rightarrow> database option" where
  "sql_insert_message t sender receiver content d =
     (if \<not> user_exists sender d \<or> \<not> user_exists receiver d \<or> \<not> text_fits content
      then None
      else Some (d\<lparr>messages := messages d @ [\<lparr>m_id = next_message_id d, m_sender = sender,
                     m_receiver = receiver, m_content = content, m_time = t, m_read = False\<rparr>],
                  next_message_id := next_message_id d + 1\<rparr>))"

definition sql_mark_read :: "int \<Rightarrow> int \<Rightarrow> database \<Rightarrow> database option" where
  "sql_mark_read sender receiver d =
     Some (d\<lparr>messages := map (\<lambda>m. if m_sender m = sender \<and> m_receiver m = receiver \<and> \<not> m_read m
                                  then m\<lparr>m_read := True\<rparr> else m) (messages d)\<rparr>)"

definition sql_delete_messages :: "int \<Rightarrow> int \<Rightarrow> database \<Rightarrow> database option" where
  "sql_delete_messages uid1 uid2 d =
     Some (d\<lparr>messages := filter (\<lambda>m. \<not> ((m_sender m = uid1 \<and> m_receiver m = uid2)
                                      \<or> (m_sender m = uid2 \<and> m_receiver m = uid1))) (messages d)\<rparr>)"

text \<open>\<open>ORDER BY m.send_time ASC\<close>; the order of messages of the same second is MySQL's choice.\<close>

definition by_send_time :: "mysql \<Rightarrow> message_row list \<Rightarrow> message_row list" where
  "by_send_time Q ms = sort_key m_time (sort_key (\<lambda>m. row_rank Q (m_id m, 0)) ms)"

text \<open>The two inner joins keep a message if both of its users exist and add their names.\<close>

definition join_names :: "database \<Rightarrow> message_row \<Rightarrow> (message_row \<times> string \<times> string) list" where
  "join_names d m = [(m, u_name u1, u_name u2). u1 \<leftarrow> users d, u_id u1 = m_sender m,
                                                u2 \<leftarrow> users d, u_id u2 = m_receiver m]"

definition sql_unread_messages :: "mysql \<Rightarrow> int \<Rightarrow> database \<Rightarrow> (message_row \<times> string \<times> string) list" where
  "sql_unread_messages Q uid d =
     concat (map (join_names d)
       (by_send_time Q (filter (\<lambda>m. m_receiver m = uid \<and> \<not> m_read m) (messages d))))"

definition between :: "int \<Rightarrow> int \<Rightarrow> message_row \<Rightarrow> bool" where
  "between uid1 uid2 m \<longleftrightarrow> (m_sender m = uid1 \<and> m_receiver m = uid2)
                          \<or> (m_sender m = uid2 \<and> m_receiver m = uid1)"

definition sql_history_messages ::
  "mysql \<Rightarrow> int \<Rightarrow> int \<Rightarrow> nat \<Rightarrow> database \<Rightarrow> (message_row \<times> string \<times> string) list" where
  "sql_history_messages Q uid1 uid2 limit d =
     take limit (concat (map (join_names d) (by_send_time Q (filter (between uid1 uid2) (messages d)))))"

section \<open>The schema's constraints as an invariant\<close>

definition users_ok :: "mysql \<Rightarrow> database \<Rightarrow> bool" where
  "users_ok Q d \<longleftrightarrow>
     distinct (map u_id (users d)) \<and> (\<forall>r\<in>set (users d). u_id r < next_user_id d)
     \<and> distinct (map (\<lambda>r. collation_key Q (u_name r)) (users d))
     \<and> (\<forall>r\<in>set (users d). varchar_fits 20 (u_name r) \<and> varchar_fits 32 (u_hash r))"

definition friends_ok :: "database \<Rightarrow> bool" where
  "friends_ok d \<longleftrightarrow>
     distinct (map f_id (friends d)) \<and> (\<forall>f\<in>set (friends d). f_id f < next_friend_id d)
     \<and> distinct (map (\<lambda>f. (f_user1 f, f_user2 f)) (friends d))
     \<and> (\<forall>f\<in>set (friends d). user_exists (f_user1 f) d \<and> user_exists (f_user2 f) d)"

definition messages_ok :: "database \<Rightarrow> bool" where
  "messages_ok d \<longleftrightarrow>
     distinct (map m_id (messages d)) \<and> (\<forall>m\<in>set (messages d). m_id m < next_message_id d)
     \<and> (\<forall>m\<in>set (messages d). user_exists (m_sender m) d \<and> user_exists (m_receiver m) d
          \<and> text_fits (m_content m))"

definition db_ok :: "mysql \<Rightarrow> database \<Rightarrow> bool" where
  "db_ok Q d \<longleftrightarrow> users_ok Q d \<and> friends_ok d \<and> messages_ok d"

lemma db_ok_empty: "db_ok Q empty_database"
  by (simp add: db_ok_def users_ok_def friends_ok_def messages_ok_def empty_database_def)

lemma map_users_simps [simp]:
  "friends (map_users P f d) = friends d" "messages (map_users P f d) = messages d"
  "next_user_id (map_users P f d) = next_user_id d"
  "next_friend_id (map_users P f d) = next_friend_id d"
  "next_message_id (map_users P f d) = next_message_id d"
  "users (map_users P f d) = map (\<lambda>r. if P r then f r else r) (users d)"
  by (simp_all add: map_users_def)

lemma user_exists_map_users [simp]:
  "(\<And>r. u_id (f r) = u_id r) \<Longrightarrow> user_exists uid (map_users P f d) = user_exists uid d"
  by (auto simp: user_exists_def)

lemma map_users_ids:
  "(\<And>r. u_id (f r) = u_id r) \<Longrightarrow> map u_id (users (map_users P f d)) = map u_id (users d)"
  by (simp add: comp_def if_distrib cong: if_cong)

text \<open>Updates that keep the identifiers and names of users keep the schema's constraints.\<close>

lemma db_ok_map_users:
  assumes "db_ok Q d" and "\<And>r. u_id (f r) = u_id r" and "\<And>r. u_name (f r) = u_name r"
    and "\<And>r. r \<in> set (users d) \<Longrightarrow> P r \<Longrightarrow> varchar_fits 32 (u_hash (f r))"
  shows "db_ok Q (map_users P f d)"
proof -
  have "map (\<lambda>r. collation_key Q (u_name r)) (users (map_users P f d))
      = map (\<lambda>r. collation_key Q (u_name r)) (users d)"
    using assms(3) by (simp add: comp_def if_distrib cong: if_cong)
  with assms map_users_ids[of f P d] show ?thesis
    by (auto simp: db_ok_def users_ok_def friends_ok_def messages_ok_def simp del: map_map)
qed

lemma db_ok_user_row:
  "db_ok Q d \<Longrightarrow> r \<in> set (users d) \<Longrightarrow> varchar_fits 20 (u_name r) \<and> varchar_fits 32 (u_hash r)"
  by (auto simp: db_ok_def users_ok_def)

text \<open>A row appended with the next key: keys stay distinct and below the next one.\<close>

lemma fresh_key:
  fixes n :: int
  assumes "distinct (map f xs)" and "\<forall>x\<in>set xs. f x < n" and "f y = n"
  shows "distinct (map f (xs @ [y]))" and "\<forall>x\<in>set (xs @ [y]). f x < n + 1"
  using assms by (auto simp: less_le)

lemma user_exists_update [simp]:
  "user_exists uid (d\<lparr>friends := fs\<rparr>) = user_exists uid d"
  "user_exists uid (d\<lparr>messages := ms\<rparr>) = user_exists uid d"
  "user_exists uid (d\<lparr>next_user_id := n\<rparr>) = user_exists uid d"
  "user_exists uid (d\<lparr>next_friend_id := n\<rparr>) = user_exists uid d"
  "user_exists uid (d\<lparr>next_message_id := n\<rparr>) = user_exists uid d"
  by (simp_all add: user_exists_def)

lemma user_exists_append: "users d' = users d @ rs \<Longrightarrow> user_exists uid d \<Longrightarrow> user_exists uid d'"
  by (auto simp: user_exists_def)

lemma db_ok_insert_user:
  assumes "db_ok Q d" and "sql_insert_user Q n h d = Some d'"
  shows "db_ok Q d'"
proof -
  let ?row = "\<lparr>u_id = next_user_id d, u_name = n, u_hash = h, u_online = False, u_last_login = None\<rparr>"
  have d': "d' = d\<lparr>users := users d @ [?row], next_user_id := next_user_id d + 1\<rparr>"
    and fresh: "\<forall>r\<in>set (users d). collation_key Q (u_name r) \<noteq> collation_key Q n"
    and fits: "varchar_fits 20 n" "varchar_fits 32 h"
    using assms(2) by (auto simp: sql_insert_user_def same_name_def split: if_splits)
  have ids: "distinct (map u_id (users d))" "\<forall>r\<in>set (users d). u_id r < next_user_id d"
    using assms(1) by (auto simp: db_ok_def users_ok_def)
  have "users_ok Q d'"
    using assms(1) d' fresh fits fresh_key[OF ids, of ?row]
    by (auto simp: db_ok_def users_ok_def)
  moreover have "\<And>uid. user_exists uid d \<Longrightarrow> user_exists uid d'"
    using d' by (auto intro: user_exists_append)
  ultimately show ?thesis
    using assms(1) d' by (auto simp: db_ok_def friends_ok_def messages_ok_def)
qed

lemma db_ok_insert_friend:
  assumes "db_ok Q d" and "sql_insert_friend a b d = Some d'"
  shows "db_ok Q d'"
proof -
  let ?row = "\<lparr>f_id = next_friend_id d, f_user1 = a, f_user2 = b\<rparr>"
  have d': "d' = d\<lparr>friends := friends d @ [?row], next_friend_id := next_friend_id d + 1\<rparr>"
    and fresh: "\<forall>f\<in>set (friends d). \<not> (f_user1 f = a \<and> f_user2 f = b)"
    and ex: "user_exists a d" "user_exists b d"
    using assms(2) by (auto simp: sql_insert_friend_def split: if_splits)
  have ids: "distinct (map f_id (friends d))" "\<forall>r\<in>set (friends d). f_id r < next_friend_id d"
    using assms(1) by (auto simp: db_ok_def friends_ok_def)
  have "friends_ok d'"
    using assms(1) d' fresh ex fresh_key[OF ids, of ?row]
    by (auto simp: db_ok_def friends_ok_def)
  with assms(1) d' show ?thesis
    by (auto simp: db_ok_def users_ok_def messages_ok_def)
qed

lemma db_ok_insert_message:
  assumes "db_ok Q d" and "sql_insert_message t a b c d = Some d'"
  shows "db_ok Q d'"
proof -
  let ?row = "\<lparr>m_id = next_message_id d, m_sender = a, m_receiver = b, m_content = c,
      m_time = t, m_read = False\<rparr>"
  have d': "d' = d\<lparr>messages := messages d @ [?row], next_message_id := next_message_id d + 1\<rparr>"
    and ex: "user_exists a d" "user_exists b d" "text_fits c"
    using assms(2) by (auto simp: sql_insert_message_def split: if_splits)
  have ids: "distinct (map m_id (messages d))" "\<forall>r\<in>set (messages d). m_id r < next_message_id d"
    using assms(1) by (auto simp: db_ok_def messages_ok_def)
  have "messages_ok d'"
    using assms(1) d' ex fresh_key[OF ids, of ?row]
    by (auto simp: db_ok_def messages_ok_def)
  with assms(1) d' show ?thesis
    by (auto simp: db_ok_def users_ok_def friends_ok_def)
qed

lemma db_ok_delete_friend: "db_ok Q d \<Longrightarrow> sql_delete_friend a b d = Some d' \<Longrightarrow> db_ok Q d'"
  by (auto simp: db_ok_def users_ok_def friends_ok_def messages_ok_def sql_delete_friend_def
      user_exists_def distinct_map_filter)

lemma db_ok_delete_messages: "db_ok Q d \<Longrightarrow> sql_delete_messages a b d = Some d' \<Longrightarrow> db_ok Q d'"
  by (auto simp: db_ok_def users_ok_def friends_ok_def messages_ok_def sql_delete_messages_def
      user_exists_def distinct_map_filter)

lemma db_ok_mark_read:
  assumes "db_ok Q d" and "sql_mark_read a b d = Some d'"
  shows "db_ok Q d'"
proof -
  have "map m_id (messages d') = map m_id (messages d)"
    using assms(2) by (auto simp: sql_mark_read_def)
  with assms show ?thesis
    by (auto simp: db_ok_def users_ok_def friends_ok_def messages_ok_def sql_mark_read_def
        user_exists_def)
qed

lemma db_ok_update_password: "db_ok Q d \<Longrightarrow> sql_update_password uid h d = Some d' \<Longrightarrow> db_ok Q d'"
  by (auto simp: sql_update_password_def user_exists_def split: if_splits intro!: db_ok_map_users)

lemma db_ok_update_online: "db_ok Q d \<Longrightarrow> sql_update_online uid b d = Some d' \<Longrightarrow> db_ok Q d'"
  by (auto simp: sql_update_online_def intro!: db_ok_map_users dest: db_ok_user_row)

lemma db_ok_update_online_by_name:
  "db_ok Q d \<Longrightarrow> sql_update_online_by_name Q n b d = Some d' \<Longrightarrow> db_ok Q d'"
  by (auto simp: sql_update_online_by_name_def intro!: db_ok_map_users dest: db_ok_user_row)

lemma db_ok_update_last_login: "db_ok Q d \<Longrightarrow> sql_update_last_login uid t d = Some d' \<Longrightarrow> db_ok Q d'"
  by (auto simp: sql_update_last_login_def intro!: db_ok_map_users dest: db_ok_user_row)

lemma db_ok_update_username:
  assumes "db_ok Q d" and "sql_update_username Q uid n d = Some d'"
  shows "db_ok Q d'"
proof (cases "user_exists uid d")
  case False
  then have "users d' = users d"
    using assms(2) by (auto simp: sql_update_username_def user_exists_def intro!: map_idI)
  with assms show ?thesis
    by (auto simp: sql_update_username_def db_ok_def users_ok_def friends_ok_def messages_ok_def
        user_exists_def split: if_splits)
next
  case True
  then have d': "d' = map_users (\<lambda>r. u_id r = uid) (\<lambda>r. r\<lparr>u_name := n\<rparr>) d"
    and fits: "varchar_fits 20 n"
    and fresh: "\<forall>r\<in>set (users d). u_id r \<noteq> uid \<longrightarrow> collation_key Q (u_name r) \<noteq> collation_key Q n"
    using assms(2) by (auto simp: sql_update_username_def same_name_def split: if_splits)
  have "distinct (map (\<lambda>r. collation_key Q (u_name r))
      (map (\<lambda>r. if u_id r = uid then r\<lparr>u_name := n\<rparr> else r) (users d)))"
    using assms(1) fresh by (auto simp: db_ok_def users_ok_def distinct_map inj_on_def)
  with assms(1) d' fits map_users_ids[of "\<lambda>r. r\<lparr>u_name := n\<rparr>" "\<lambda>r. u_id r = uid" d] show ?thesis
    by (auto simp: db_ok_def users_ok_def friends_ok_def messages_ok_def comp_def simp del: map_map)
qed

lemmas db_ok_statements = db_ok_insert_user db_ok_insert_friend db_ok_insert_message
  db_ok_delete_friend db_ok_delete_messages db_ok_mark_read db_ok_update_password
  db_ok_update_online db_ok_update_online_by_name db_ok_update_last_login db_ok_update_username

section \<open>The statements the server may execute\<close>

inductive is_update :: "mysql \<Rightarrow> (database \<Rightarrow> database option) \<Rightarrow> bool" for Q where
  "is_update Q (sql_insert_user Q name h)"
| "is_update Q (sql_update_username Q uid name)"
| "is_update Q (sql_update_password uid h)"
| "is_update Q (sql_update_online uid b)"
| "is_update Q (sql_update_online_by_name Q name b)"
| "is_update Q (sql_update_last_login uid t)"
| "is_update Q (sql_insert_friend uid1 uid2)"
| "is_update Q (sql_delete_friend uid1 uid2)"
| "is_update Q (sql_insert_message t sender receiver content)"
| "is_update Q (sql_mark_read sender receiver)"
| "is_update Q (sql_delete_messages uid1 uid2)"

lemma db_ok_is_update: "is_update Q stmt \<Longrightarrow> db_ok Q d \<Longrightarrow> stmt d = Some d' \<Longrightarrow> db_ok Q d'"
  by (induction rule: is_update.induct) (auto intro: db_ok_statements)

section \<open>Lookups in a database that obeys the schema\<close>

lemma user_by_name_iff:
  assumes "users_ok Q d"
  shows "sql_user_by_name Q name d = Some r \<longleftrightarrow> r \<in> set (users d) \<and> same_name Q (u_name r) name"
proof
  assume "sql_user_by_name Q name d = Some r"
  then show "r \<in> set (users d) \<and> same_name Q (u_name r) name"
    by (auto simp: sql_user_by_name_def dest: find_Some_in)
next
  assume r: "r \<in> set (users d) \<and> same_name Q (u_name r) name"
  have "distinct (map (\<lambda>r. collation_key Q (u_name r)) (users d))"
    using assms by (simp add: users_ok_def)
  with r show "sql_user_by_name Q name d = Some r"
    unfolding sql_user_by_name_def
    by (auto intro!: find_unique dest: distinct_map_inj simp: same_name_def)
qed

lemma user_by_name_None:
  "sql_user_by_name Q name d = None \<longleftrightarrow> (\<forall>r\<in>set (users d). \<not> same_name Q (u_name r) name)"
  by (auto simp: sql_user_by_name_def find_None_iff)

lemma user_by_id_iff:
  assumes "users_ok Q d"
  shows "sql_user_by_id uid d = Some r \<longleftrightarrow> r \<in> set (users d) \<and> u_id r = uid"
proof
  assume "sql_user_by_id uid d = Some r"
  then show "r \<in> set (users d) \<and> u_id r = uid"
    by (auto simp: sql_user_by_id_def dest: find_Some_in)
next
  assume r: "r \<in> set (users d) \<and> u_id r = uid"
  have "distinct (map u_id (users d))" using assms by (simp add: users_ok_def)
  with r show "sql_user_by_id uid d = Some r"
    unfolding sql_user_by_id_def by (auto intro!: find_unique dest: distinct_map_inj)
qed

lemma count_username_pos:
  "0 < sql_count_username Q name d \<longleftrightarrow> (\<exists>r\<in>set (users d). same_name Q (u_name r) name)"
  by (auto simp: sql_count_username_def filter_eq_Nil_iff)

lemma count_friends_pos:
  "0 < sql_count_friends a b d \<longleftrightarrow> (\<exists>f\<in>set (friends d). f_user1 f = a \<and> f_user2 f = b)"
  by (auto simp: sql_count_friends_def filter_eq_Nil_iff)

lemma user_exists_by_id: "users_ok Q d \<Longrightarrow> user_exists uid d \<longleftrightarrow> sql_user_by_id uid d \<noteq> None"
  using user_by_id_iff[of Q d uid] by (auto simp: user_exists_def)

definition are_friends :: "database \<Rightarrow> int \<Rightarrow> int \<Rightarrow> bool" where
  "are_friends d a b \<longleftrightarrow>
     (\<exists>f\<in>set (friends d). (f_user1 f = a \<and> f_user2 f = b) \<or> (f_user1 f = b \<and> f_user2 f = a))"

lemma friend_join_mem:
  "(v, f) \<in> set (friend_join uid d) \<longleftrightarrow> v \<in> set (users d) \<and> f \<in> set (friends d) \<and> u_id v \<noteq> uid
     \<and> (f_user1 f = uid \<and> f_user2 f = u_id v \<or> f_user1 f = u_id v \<and> f_user2 f = uid)"
  by (auto simp: friend_join_def)

lemma friend_list_mem:
  "(name, b) \<in> set (sql_friend_list Q uid d) \<longleftrightarrow>
     (\<exists>v\<in>set (users d). u_name v = name \<and> u_online v = b \<and> u_id v \<noteq> uid \<and> are_friends d uid (u_id v))"
proof -
  have "(name, b) \<in> set (sql_friend_list Q uid d) \<longleftrightarrow>
      (\<exists>v f. (v, f) \<in> set (friend_join uid d) \<and> u_name v = name \<and> u_online v = b)"
    by (force simp: sql_friend_list_def)
  then show ?thesis unfolding friend_join_mem are_friends_def by blast
qed

section \<open>The joins with the users table\<close>

definition name_of :: "database \<Rightarrow> int \<Rightarrow> string" where
  "name_of d uid = (case sql_user_by_id uid d of Some u \<Rightarrow> u_name u | None \<Rightarrow> [])"

lemma select_by_key:
  "distinct (map f xs) \<Longrightarrow> x \<in> set xs \<Longrightarrow> concat (map (\<lambda>y. if f y = f x then g y else []) xs) = g x"
proof (induction xs)
  case (Cons a xs)
  have "concat (map (\<lambda>y. if f y = f x then g y else []) xs) = []" if "x \<notin> set xs" "a = x"
    using Cons.prems that by (auto simp: image_iff)
  with Cons show ?case by (cases "a = x") (auto dest: distinct_map_inj)
qed simp

lemma join_names_single:
  assumes "users_ok Q d" and "user_exists (m_sender m) d" and "user_exists (m_receiver m) d"
  shows "join_names d m = [(m, name_of d (m_sender m), name_of d (m_receiver m))]"
proof -
  obtain u v where u: "u \<in> set (users d)" "u_id u = m_sender m" and v: "v \<in> set (users d)" "u_id v = m_receiver m"
    using assms(2,3) by (auto simp: user_exists_def)
  have ids: "distinct (map u_id (users d))" using assms(1) by (simp add: users_ok_def)
  have "sql_user_by_id (m_sender m) d = Some u" "sql_user_by_id (m_receiver m) d = Some v"
    using user_by_id_iff[OF assms(1)] u v by auto
  then have names: "name_of d (m_sender m) = u_name u" "name_of d (m_receiver m) = u_name v"
    by (simp_all add: name_of_def)
  have "join_names d m = concat (map (\<lambda>x. if u_id x = u_id u then
      concat (map (\<lambda>y. if u_id y = u_id v then [(m, u_name x, u_name y)] else []) (users d)) else []) (users d))"
    unfolding join_names_def u(2) v(2) by simp
  also have "\<dots> = concat (map (\<lambda>y. if u_id y = u_id v then [(m, u_name u, u_name y)] else []) (users d))"
    by (rule select_by_key[OF ids u(1)])
  also have "\<dots> = [(m, u_name u, u_name v)]"
    by (rule select_by_key[OF ids v(1)])
  finally show ?thesis using names by simp
qed

lemma joined_rows:
  assumes "db_ok Q d" and "set ms \<subseteq> set (messages d)"
  shows "concat (map (join_names d) ms) = map (\<lambda>m. (m, name_of d (m_sender m), name_of d (m_receiver m))) ms"
  using assms(2)
proof (induction ms)
  case (Cons m ms)
  then have "user_exists (m_sender m) d" "user_exists (m_receiver m) d"
    using assms(1) by (auto simp: db_ok_def messages_ok_def)
  with Cons assms(1) show ?case by (auto simp: join_names_single db_ok_def)
qed simp

lemma by_send_time_set [simp]: "set (by_send_time Q ms) = set ms"
  by (simp add: by_send_time_def)

lemma by_send_time_length [simp]: "length (by_send_time Q ms) = length ms"
  by (simp add: by_send_time_def)

lemma by_send_time_sorted: "sorted (map m_time (by_send_time Q ms))"
  by (simp add: by_send_time_def)

end
