(* ===== verification/Libraries.thy ===== *)
theory Libraries
  imports Complex_Main Database
begin

text \<open>
  The third-party libraries the server calls, as parameters of the model.

  \<^item> JsonCpp: a \<open>Json::Value\<close> is a \<open>json\<close>; parsing, writing and the accessors are functions of the
    record \<open>jsoncpp\<close>.  An accessor that throws \<open>Json::Exception\<close> (indexing or testing a value that
    is not an object, converting one that has no such conversion) returns \<open>None\<close>.  The members of a
    \<open>JObj\<close> that the server builds are listed in the order of the \<open>std::map\<close> behind a \<open>Json::Value\<close>.
  \<^item> OpenSSL: \<open>evp_md5\<close> is the digest of \<open>EVP_md5\<close>, \<open>None\<close> when \<open>EVP_MD_CTX_new\<close> fails.
  \<^item> MySQL: the record \<open>mysql\<close> of the theory \<open>Database\<close>.
\<close>

datatype json =
    JNull
  | JBool bool
  | JInt int
  | JReal rat
  | JStr string
  | JArr "json list"
  | JObj "(string \<times> json) list"

record jsoncpp =
  json_parse :: "string \<Rightarrow> json option"
  json_write :: "json \<Rightarrow> string"
  json_index :: "json \<Rightarrow> string \<Rightarrow> json option"
  json_member :: "json \<Rightarrow> string \<Rightarrow> bool option"
  json_string :: "json \<Rightarrow> string option"
  json_int :: "json \<Rightarrow> int option"

record libs =
  mysql_of :: mysql
  json_of :: jsoncpp
  evp_md5 :: "string \<Rightarrow> 8 word list option"

definition is_null :: "json \<Rightarrow> bool" where
  "is_null v \<longleftrightarrow> v = JNull"

section \<open>An instance\<close>

text \<open>
  A concrete instance of the parameters, for the witnesses: names are compared after turning
  \<open>A\<close>--\<open>Z\<close> into lower case, rows come in primary key order, and a JSON text is a list of
  tab-separated keys and values, which is enough to write down requests.
\<close>

definition lower_char :: "char \<Rightarrow> char" where
  "lower_char c = (let n = of_char c :: nat in if 65 \<le> n \<and> n \<le> 90 then char_of (n + 32) else c)"

definition demo_mysql :: mysql where
  "demo_mysql = \<lparr>collation_key = map lower_char, row_rank = fst, datetime_text = (\<lambda>t. ''t'')\<rparr>"

fun split_tabs :: "string \<Rightarrow> string \<Rightarrow> string list" where
  "split_tabs acc [] = [acc]"
| "split_tabs acc (c # cs) = (if c = CHR 0x09 then acc # split_tabs [] cs else split_tabs (acc @ [c]) cs)"

fun pair_up :: "string list \<Rightarrow> (string \<times> json) list option" where
  "pair_up [] = Some []"
| "pair_up [k] = None"
| "pair_up (k # v # rest) = map_option ((#) (k, JStr v)) (pair_up rest)"

fun demo_write :: "json \<Rightarrow> string" where
  "demo_write JNull = ''null''"
| "demo_write (JBool b) = (if b then ''true'' else ''false'')"
| "demo_write (JInt n) = ''int''"
| "demo_write (JReal r) = ''real''"
| "demo_write (JStr s) = s"
| "demo_write (JArr js) = concat (map demo_write js)"
| "demo_write (JObj kvs) = concat (map (\<lambda>(k, v). k @ [CHR 0x09] @ demo_write v) kvs)"

definition demo_jsoncpp :: jsoncpp where
  "demo_jsoncpp = \<lparr>
     json_parse = (\<lambda>s. map_option JObj (pair_up (split_tabs [] s))),
     json_write = demo_write,
     json_index = (\<lambda>v k. case v of JObj kvs \<Rightarrow> Some (case map_of kvs k of Some x \<Rightarrow> x | None \<Rightarrow> JNull)
                               | JNull \<Rightarrow> Some JNull | _ \<Rightarrow> None),
     json_member = (\<lambda>v k. case v of JObj kvs \<Rightarrow> Some (map_of kvs k \<noteq> None) | JNull \<Rightarrow> Some False | _ \<Rightarrow> None),
     json_string = (\<lambda>v. case v of JStr s \<Rightarrow> Some s | JNull \<Rightarrow> Some [] | _ \<Rightarrow> None),
     json_int = (\<lambda>v. case v of JInt n \<Rightarrow> Some n | JNull \<Rightarrow> Some 0 | _ \<Rightarrow> None)\<rparr>"

definition demo_libs :: libs where
  "demo_libs = \<lparr>mysql_of = demo_mysql, json_of = demo_jsoncpp,
     evp_md5 = (\<lambda>s. Some (take 16 (map (\<lambda>c. word_of_nat (of_char c)) s @ replicate 16 0)))\<rparr>"

lemma demo_digest: "\<exists>digest. evp_md5 demo_libs p = Some digest \<and> length digest = 16"
  by (simp add: demo_libs_def)

end
