(* ===== verification/Framing.thy ===== *)
theory Framing
  imports Texts
begin

unbundle bit_operations_syntax

text \<open>
  The wire protocol of \<^verbatim>\<open>src/src/connection/server.cpp\<close>: every message is a four byte big-endian
  length followed by the body.  The sockets are the operating system's: what \<open>recv\<close> will return
  on a connection is a list of byte segments (an empty segment, or the end of the list, is a call
  that returns a value \<open>\<le> 0\<close>), and how many bytes each \<open>send\<close> takes is a script of integers, all
  arbitrary.  The effects of the calls are a chronological list of network events.
\<close>

section \<open>The message header\<close>

definition header_byte :: "string \<Rightarrow> nat \<Rightarrow> 32 word" where
  "header_byte header i = ucast (word_of_nat (of_char (header ! i)) :: 8 word)"

definition ParseMessageHeader :: "string \<Rightarrow> 32 word" where
  "ParseMessageHeader header =
     (let l0 = 0 OR push_bit 24 (header_byte header 0);
          l1 = l0 OR push_bit 16 (header_byte header 1);
          l2 = l1 OR push_bit 8 (header_byte header 2)
      in l2 OR header_byte header 3)"

definition length_byte :: "32 word \<Rightarrow> nat \<Rightarrow> char" where
  "length_byte len n = char_of (unat (drop_bit n len AND 0xFF))"

definition message_header :: "32 word \<Rightarrow> string" where
  "message_header len =
     [length_byte len 24, length_byte len 16, length_byte len 8, length_byte len 0]"

definition PackageMessage :: "string \<Rightarrow> string" where
  "PackageMessage body = message_header (word_of_nat (length body)) @ body"

lemma length_message_header [simp]: "length (message_header len) = 4"
  by (simp add: message_header_def)

lemma message_header_not_Nil [simp]: "message_header len \<noteq> []"
  by (simp add: message_header_def)

lemma length_PackageMessage [simp]: "length (PackageMessage body) = 4 + length body"
  by (simp add: PackageMessage_def)

lemma length_byte_word: "(word_of_nat (of_char (length_byte len n)) :: 8 word) = ucast (drop_bit n len)"
proof -
  have "unat (drop_bit n len AND 0xFF) < 256"
    using word_and_le1[of "drop_bit n len" "0xFF"] by (simp add: word_le_nat_alt)
  then have "(of_char (length_byte len n) :: nat) = unat (drop_bit n len AND 0xFF)"
    by (simp add: length_byte_def)
  then have "(word_of_nat (of_char (length_byte len n)) :: 8 word)
      = ucast (drop_bit n len AND 0xFF)"
    by simp
  also have "\<dots> = ucast (drop_bit n len AND mask 8)"
    by (simp add: mask_eq_exp_minus_1)
  also have "\<dots> = ucast (drop_bit n len)"
    by (rule bit_word_eqI) (auto simp: bit_simps)
  finally show ?thesis .
qed

lemma parse_message_header: "ParseMessageHeader (message_header len) = len"
proof (rule bit_word_eqI)
  fix n :: nat
  assume n: "n < LENGTH(32)"
  consider "n < 8" | "8 \<le> n" "n < 16" | "16 \<le> n" "n < 24" | "24 \<le> n" by linarith
  then show "bit (ParseMessageHeader (message_header len)) n \<longleftrightarrow> bit len n"
    using n by cases (auto simp: ParseMessageHeader_def message_header_def header_byte_def
        length_byte_word bit_simps Let_def)
qed

lemma parse_message_header_append: "ParseMessageHeader (message_header len @ xs) = len"
  using parse_message_header[of len]
  by (simp add: ParseMessageHeader_def message_header_def header_byte_def)

section \<open>Receiving\<close>

type_synonym segments = "string list"

fun recv :: "nat \<Rightarrow> segments \<Rightarrow> string \<times> segments" where
  "recv n [] = ([], [])"
| "recv n (seg # segs) =
     (if length seg \<le> n then (seg, segs) else (take n seg, drop n seg # segs))"

lemma recv_length: "length (fst (recv n segs)) \<le> n"
  by (cases segs) auto

lemma recv_concat: "recv n segs = (got, segs') \<Longrightarrow> got @ concat segs' = concat segs"
  by (cases segs) (auto split: if_splits)

lemma recv_nonempty_segments:
  "recv n segs = (got, segs') \<Longrightarrow> [] \<notin> set segs \<Longrightarrow> [] \<notin> set segs'"
  by (cases segs) (auto split: if_splits)

lemma recv_progress:
  "recv n segs = (got, segs') \<Longrightarrow> [] \<notin> set segs \<Longrightarrow> concat segs \<noteq> [] \<Longrightarrow> 0 < n \<Longrightarrow> got \<noteq> []"
  by (cases segs) (auto split: if_splits)

text \<open>
  The loop that fills \<open>messageBody\<close>; \<open>got\<close> is its part below \<open>totalRead\<close>.  \<open>None\<close> is a failed
  call in the middle of a body.
\<close>

function receive_body :: "nat \<Rightarrow> string \<Rightarrow> segments \<Rightarrow> string option \<times> segments" where
  "receive_body messageLength got segs =
     (if length got < messageLength
      then (case recv (messageLength - length got) segs of
              (chunk, segs') \<Rightarrow>
                if chunk = [] then (None, segs')
                else receive_body messageLength (got @ chunk) segs')
      else (Some got, segs))"
  by pat_completeness auto
termination
  by (relation "measure (\<lambda>(n, got, segs). n - length got)")
    (auto simp flip: length_greater_0_conv)

declare receive_body.simps [simp del]

definition max_body :: nat where
  "max_body = 65536"

text \<open>
  \<open>junk\<close> is the content of the uninitialised array \<open>char header[4]\<close>: a first \<open>recv\<close> that returns
  fewer than four bytes overwrites only its beginning.  The empty string is the error result.
\<close>

definition ReceiveData :: "string \<Rightarrow> segments \<Rightarrow> string \<times> segments" where
  "ReceiveData junk segs =
     (case recv 4 segs of
        (h, segs1) \<Rightarrow>
          if h = [] then ([], segs1)
          else let messageLength = ParseMessageHeader (h @ drop (length h) junk)
               in if messageLength = 0 \<or> messageLength > 65536 then ([], segs1)
                  else (case receive_body (unat messageLength) [] segs1 of
                          (None, segs2) \<Rightarrow> ([], segs2)
                        | (Some body, segs2) \<Rightarrow> (body, segs2)))"

lemma receive_body_exact:
  assumes "concat segs = bs @ rest" and "length got + length bs = n" and "[] \<notin> set segs"
  shows "\<exists>segs'. receive_body n got segs = (Some (got @ bs), segs') \<and> concat segs' = rest
           \<and> [] \<notin> set segs'"
  using assms
proof (induction n got segs arbitrary: bs rule: receive_body.induct)
  case (1 n got segs)
  show ?case
  proof (cases "length got < n")
    case False
    with "1.prems" show ?thesis by (auto simp: receive_body.simps[of n got])
  next
    case True
    obtain chunk segs1 where rv: "recv (n - length got) segs = (chunk, segs1)" by fastforce
    have "chunk \<noteq> []"
      using recv_progress[OF rv] True "1.prems" by auto
    have len: "length chunk \<le> length bs"
      using recv_length[of "n - length got" segs] rv "1.prems"(2) by simp
    have cat: "chunk @ concat segs1 = bs @ rest"
      using recv_concat[OF rv] "1.prems"(1) by simp
    then obtain bs' where bs: "bs = chunk @ bs'" and rest: "concat segs1 = bs' @ rest"
      using len by (auto simp: append_eq_append_conv2)
    have "\<exists>segs'. receive_body n (got @ chunk) segs1 = (Some ((got @ chunk) @ bs'), segs')
            \<and> concat segs' = rest \<and> [] \<notin> set segs'"
      using "1.IH"[OF True rv[symmetric] \<open>chunk \<noteq> []\<close> rest] "1.prems"(2,3) bs
        recv_nonempty_segments[OF rv] by auto
    with True rv \<open>chunk \<noteq> []\<close> bs show ?thesis by (simp add: receive_body.simps[of n got])
  qed
qed

lemma receive_body_length:
  "receive_body n got segs = (Some body, segs') \<Longrightarrow> length got \<le> n \<Longrightarrow> length body = n"
proof (induction n got segs arbitrary: body rule: receive_body.induct)
  case (1 n got segs)
  obtain chunk segs1 where rv: "recv (n - length got) segs = (chunk, segs1)" by fastforce
  with recv_length[of "n - length got" segs] have "length chunk \<le> n - length got" by simp
  with 1 rv show ?case
    by (auto simp: receive_body.simps[of n got] split: if_splits)
qed

lemma receive_body_consumes:
  "receive_body n got segs = (r, segs') \<Longrightarrow>
    \<exists>used. concat segs = used @ concat segs' \<and> (\<forall>body. r = Some body \<longrightarrow> body = got @ used)"
proof (induction n got segs arbitrary: r rule: receive_body.induct)
  case (1 n got segs)
  obtain chunk segs1 where rv: "recv (n - length got) segs = (chunk, segs1)" by fastforce
  note cat = recv_concat[OF rv]
  show ?case
  proof (cases "length got < n \<and> chunk \<noteq> []")
    case True
    with "1.IH"[OF _ rv[symmetric], of r] "1.prems" rv obtain used where
      "concat segs1 = used @ concat segs'" and "\<forall>body. r = Some body \<longrightarrow> body = (got @ chunk) @ used"
      by (auto simp: receive_body.simps[of n got])
    with cat show ?thesis by (intro exI[of _ "chunk @ used"]) auto
  next
    case False
    with "1.prems" rv cat show ?thesis
      by (auto simp: receive_body.simps[of n got] split: if_splits)
  qed
qed

section \<open>Sending\<close>

datatype net_event = Sent int string | Shutdown int | Closed int

record net_state =
  send_script :: "int list"
  events :: "net_event list"

fun sent_to :: "int \<Rightarrow> net_event \<Rightarrow> string" where
  "sent_to sock (Sent s bytes) = (if s = sock then bytes else [])"
| "sent_to sock _ = []"

text \<open>The bytes that have been handed to the kernel for a socket, in order.\<close>

definition wire :: "int \<Rightarrow> net_state \<Rightarrow> string" where
  "wire sock ns = concat (map (sent_to sock) (events ns))"

text \<open>
  One \<open>send\<close> call: the next entry of the script is what the kernel is willing to take (all of
  the data when the script has run out), never more than it was given; \<open>\<le> 0\<close> is an error.
\<close>

definition sys_send :: "int \<Rightarrow> string \<Rightarrow> net_state \<Rightarrow> int \<times> net_state" where
  "sys_send sock data ns =
     (case send_script ns of
        [] \<Rightarrow> (int (length data), ns\<lparr>events := events ns @ [Sent sock data]\<rparr>)
      | r # rs \<Rightarrow>
          if r \<le> 0 then (r, ns\<lparr>send_script := rs\<rparr>)
          else (let n = min r (int (length data))
                in (n, ns\<lparr>send_script := rs,
                          events := events ns @ [Sent sock (take (nat n) data)]\<rparr>)))"

text \<open>
  The loop of \<open>SendData\<close>.  Both counters are of type \<open>int\<close>; \<open>totalLength\<close> is the \<open>size_t\<close> length
  narrowed to 32 bits.
\<close>

function send_loop :: "int \<Rightarrow> string \<Rightarrow> int \<Rightarrow> int \<Rightarrow> net_state \<Rightarrow> bool \<times> net_state" where
  "send_loop sock packaged totalLength totalSent ns =
     (if totalSent < totalLength
      then (case sys_send sock (take (nat (totalLength - totalSent)) (drop (nat totalSent) packaged)) ns of
              (bytesSent, ns') \<Rightarrow>
                if bytesSent \<le> 0 then (False, ns')
                else send_loop sock packaged totalLength (totalSent + bytesSent) ns')
      else (True, ns))"
  by pat_completeness auto
termination
  by (relation "measure (\<lambda>(sock, p, totalLength, totalSent, ns). nat (totalLength - totalSent))") auto

declare send_loop.simps [simp del]

definition int_of_size :: "nat \<Rightarrow> int" where
  "int_of_size n = sint (word_of_nat n :: 32 word)"

definition SendData :: "int \<Rightarrow> string \<Rightarrow> net_state \<Rightarrow> bool \<times> net_state" where
  "SendData sock data ns =
     (let packagedData = PackageMessage data
      in send_loop sock packagedData (int_of_size (length packagedData)) 0 ns)"

definition sys_shutdown :: "int \<Rightarrow> net_state \<Rightarrow> net_state" where
  "sys_shutdown sock ns = ns\<lparr>events := events ns @ [Shutdown sock]\<rparr>"

definition sys_close :: "int \<Rightarrow> net_state \<Rightarrow> net_state" where
  "sys_close sock ns = ns\<lparr>events := events ns @ [Closed sock]\<rparr>"

lemma int_of_size_small: "n < 2 ^ 31 \<Longrightarrow> int_of_size n = int n"
  by (simp add: int_of_size_def signed_of_nat signed_take_bit_int_eq_self)

lemma wire_append: "wire sock (ns\<lparr>events := events ns @ evs\<rparr>) = wire sock ns @ concat (map (sent_to sock) evs)"
  by (simp add: wire_def)

lemma sys_send_cases:
  assumes "sys_send sock data ns = (r, ns')"
  shows "(r \<le> 0 \<and> events ns' = events ns)
    \<or> (0 \<le> r \<and> r \<le> int (length data) \<and> events ns' = events ns @ [Sent sock (take (nat r) data)])"
  using assms by (auto simp: sys_send_def Let_def split: list.splits if_splits)

text \<open>What the loop appends to the event list: a sequence of \<open>Sent\<close> events for the one socket.\<close>

definition only_sent :: "int \<Rightarrow> net_state \<Rightarrow> net_state \<Rightarrow> string \<Rightarrow> bool" where
  "only_sent sock ns ns' bytes \<longleftrightarrow>
     (\<exists>chunks. events ns' = events ns @ map (Sent sock) chunks \<and> concat chunks = bytes)"

lemma only_sent_refl: "events ns' = events ns \<Longrightarrow> only_sent sock ns ns' []"
  unfolding only_sent_def by (rule exI[of _ "[]"]) simp

lemma only_sent_one: "events ns' = events ns @ [Sent sock b] \<Longrightarrow> only_sent sock ns ns' b"
  unfolding only_sent_def by (rule exI[of _ "[b]"]) simp

lemma only_sent_trans:
  "only_sent sock a b x \<Longrightarrow> only_sent sock b c y \<Longrightarrow> only_sent sock a c (x @ y)"
  unfolding only_sent_def by (metis append_assoc concat_append map_append)

lemma only_sent_wire:
  assumes "only_sent sock ns ns' bytes"
  shows "wire s ns' = (if s = sock then wire s ns @ bytes else wire s ns)"
proof -
  obtain chunks where ev: "events ns' = events ns @ map (Sent sock) chunks" and "concat chunks = bytes"
    using assms by (auto simp: only_sent_def)
  moreover have "concat (map (sent_to s) (map (Sent sock) chunks)) = (if s = sock then concat chunks else [])"
    by (induction chunks) auto
  ultimately show ?thesis by (simp add: wire_def)
qed

lemma send_loop_sends:
  assumes "send_loop sock p tot sent ns = (ok, ns')" and "0 \<le> sent" "sent \<le> tot" "tot = int (length p)"
  shows "\<exists>bytes. only_sent sock ns ns' bytes \<and>
           (if ok then bytes = drop (nat sent) p else strict_prefix bytes (drop (nat sent) p))"
  using assms
proof (induction sock p tot sent ns rule: send_loop.induct)
  case (1 sock p tot sent ns)
  show ?case
  proof (cases "sent < tot")
    case False
    with "1.prems"(1) have "ok" "ns' = ns"
      by (simp_all add: send_loop.simps[of sock p tot sent])
    with False "1.prems"(3,4) show ?thesis
      by (auto intro!: exI[of _ "[]"] only_sent_refl)
  next
    case True
    let ?data = "drop (nat sent) p"
    have take: "take (nat (tot - sent)) ?data = ?data"
      using "1.prems" by (simp add: nat_diff_distrib)
    obtain r ns1 where s: "sys_send sock ?data ns = (r, ns1)" by fastforce
    show ?thesis
    proof (cases "r \<le> 0")
      case True
      with \<open>sent < tot\<close> "1.prems"(1) s take have "ok = False" "ns' = ns1"
        by (simp_all add: send_loop.simps[of sock p tot sent])
      moreover have "only_sent sock ns ns1 []"
        using sys_send_cases[OF s] True by (auto intro: only_sent_refl only_sent_one)
      moreover have "?data \<noteq> []" using \<open>sent < tot\<close> "1.prems" by auto
      ultimately show ?thesis by (intro exI[of _ "[]"]) (auto simp: strict_prefix_def)
    next
      case False
      with sys_send_cases[OF s] have r: "0 < r" "r \<le> int (length ?data)"
        and ev: "events ns1 = events ns @ [Sent sock (take (nat r) ?data)]" by auto
      have le: "sent + r \<le> tot" using r "1.prems" by (simp add: le_diff_conv)
      have "send_loop sock p tot (sent + r) ns1 = (ok, ns')"
        using "1.prems"(1) True s take False by (simp add: send_loop.simps[of sock p tot sent])
      with "1.IH"[OF True, of r ns1] s take False le r "1.prems" obtain bytes where
        b: "only_sent sock ns1 ns' bytes"
          "if ok then bytes = drop (nat (sent + r)) p else strict_prefix bytes (drop (nat (sent + r)) p)"
        by auto
      have split: "?data = take (nat r) ?data @ drop (nat (sent + r)) p"
        using r "1.prems" by (simp add: nat_add_distrib add.commute flip: drop_drop)
      have "only_sent sock ns ns' (take (nat r) ?data @ bytes)"
        by (rule only_sent_trans[OF only_sent_one[OF ev] b(1)])
      moreover have "if ok then take (nat r) ?data @ bytes = ?data
          else strict_prefix (take (nat r) ?data @ bytes) ?data"
        using b(2) by (subst (2 4) split) (auto simp: strict_prefix_def)
      ultimately show ?thesis by blast
    qed
  qed
qed

lemma SendData_prefix: "\<exists>evs. events (snd (SendData sock data ns)) = events ns @ map (Sent sock) evs"
proof -
  have "\<exists>evs. events (snd (send_loop sock p n k ns)) = events ns @ map (Sent sock) evs" for p n k
  proof (induction sock p n k ns rule: send_loop.induct)
    case (1 sock p n k ns)
    let ?data = "take (nat (n - k)) (drop (nat k) p)"
    obtain r ns1 where s: "sys_send sock ?data ns = (r, ns1)" by fastforce
    from sys_send_cases[OF s] have ev: "\<exists>evs. events ns1 = events ns @ map (Sent sock) evs"
      by (metis append_Nil2 list.map(1) list.map(2))
    show ?case
    proof (cases "k < n \<and> \<not> r \<le> 0")
      case True
      with "1"[of r ns1] s obtain evs' where
        "events (snd (send_loop sock p n (k + r) ns1)) = events ns1 @ map (Sent sock) evs'" by auto
      with ev True s show ?thesis
        by (auto simp: send_loop.simps[of sock p n k] simp flip: map_append)
    next
      case False
      with ev s show ?thesis
        by (auto simp: send_loop.simps[of sock p n k] intro: exI[of _ "[]"])
    qed
  qed
  then show ?thesis by (simp add: SendData_def Let_def)
qed

lemma SendData_script: "send_script ns = [] \<Longrightarrow> send_script (snd (SendData sock data ns)) = []"
proof -
  have "send_script ns = [] \<Longrightarrow> send_script (snd (send_loop sock p n k ns)) = []" for p n k
  proof (induction sock p n k ns rule: send_loop.induct)
    case (1 sock p n k ns)
    then show ?case
      by (auto simp: send_loop.simps[of sock p n k] sys_send_def)
  qed
  then show "send_script ns = [] \<Longrightarrow> send_script (snd (SendData sock data ns)) = []"
    by (simp add: SendData_def Let_def)
qed

text \<open>A kernel that takes everything: one event per message.\<close>

lemma SendData_whole:
  assumes "send_script ns = []" and "length data < 2 ^ 30"
  shows "SendData sock data ns = (True, ns\<lparr>events := events ns @ [Sent sock (PackageMessage data)]\<rparr>)"
proof -
  have len: "length (PackageMessage data) = 4 + length data"
    by (simp add: PackageMessage_def message_header_def)
  have "int_of_size (4 + length data) = int (4 + length data)"
    by (rule int_of_size_small) (use assms(2) in simp)
  then show ?thesis
    using len assms(1)
    by (simp add: SendData_def Let_def sys_send_def send_loop.simps[of sock "PackageMessage data" "4 + int (length data)"])
qed

section \<open>Length-prefixed streams\<close>

text \<open>
  What a receiver relies on: headers of one fixed length that say how long the body is.  The client
  lemmas are the parsing of one frame off a stream and the unique decodability of a stream.
\<close>

locale length_prefixed =
  fixes hdr :: "nat \<Rightarrow> 'b list" and len_of :: "'b list \<Rightarrow> nat" and hlen maxlen :: nat
  assumes hdr_length: "length (hdr n) = hlen"
    and len_of_hdr: "n \<le> maxlen \<Longrightarrow> len_of (hdr n) = n"
    and hlen_pos: "0 < hlen"
begin

lemma frame_split:
  assumes "hdr (length b) @ b @ r = hdr (length b') @ b' @ r'"
    and "length b \<le> maxlen" and "length b' \<le> maxlen"
  shows "b = b' \<and> r = r'"
proof -
  have "hdr (length b) = hdr (length b')" and tail: "b @ r = b' @ r'"
    using assms(1) by (auto simp: append_eq_append_conv hdr_length)
  then have "length b = length b'" by (metis assms(2,3) len_of_hdr)
  with tail show ?thesis by (simp add: append_eq_append_conv)
qed

lemma stream_inj:
  assumes "concat (map (\<lambda>b. hdr (length b) @ b) xs) = concat (map (\<lambda>b. hdr (length b) @ b) ys)"
    and "\<forall>b\<in>set xs. length b \<le> maxlen" and "\<forall>b\<in>set ys. length b \<le> maxlen"
  shows "xs = ys"
  using assms
proof (induction xs arbitrary: ys)
  case Nil
  then show ?case using hlen_pos by (cases ys) (auto simp flip: length_0_conv simp: hdr_length)
next
  case (Cons b xs)
  show ?case
  proof (cases ys)
    case Nil
    with Cons.prems(1) hlen_pos have False by (auto simp flip: length_0_conv simp: hdr_length)
    then show ?thesis ..
  next
    case (Cons b' ys')
    let ?cat = "\<lambda>zs. concat (map (\<lambda>b. hdr (length b) @ b) zs)"
    have "b = b' \<and> ?cat xs = ?cat ys'"
      by (rule frame_split) (use Cons Cons.prems in auto)
    with Cons Cons.prems Cons.IH[of ys'] show ?thesis by simp
  qed
qed

end

interpretation frame: length_prefixed
  "\<lambda>n. message_header (word_of_nat n)" "\<lambda>h. unat (ParseMessageHeader h)" 4 "2 ^ 32 - 1"
  by unfold_locales (simp_all add: parse_message_header unat_of_nat take_bit_nat_eq_self)

fun drop_bytes :: "nat \<Rightarrow> segments \<Rightarrow> segments" where
  "drop_bytes n [] = []"
| "drop_bytes n (seg # segs) =
     (if n = 0 then seg # segs
      else if length seg \<le> n then drop_bytes (n - length seg) segs
      else drop n seg # segs)"

lemma drop_bytes_0 [simp]: "drop_bytes 0 segs = segs"
  by (cases segs) auto

lemma drop_bytes_add: "drop_bytes a (drop_bytes b segs) = drop_bytes (b + a) segs"
  by (induction b segs rule: drop_bytes.induct) (auto simp: not_le add.commute less_diff_conv)

lemma recv_drop: "recv n segs = (got, segs') \<Longrightarrow> got \<noteq> [] \<Longrightarrow> segs' = drop_bytes (length got) segs"
  by (cases segs) (auto split: if_splits)

lemma receive_body_drop:
  "receive_body n got segs = (Some body, segs') \<Longrightarrow> segs' = drop_bytes (length body - length got) segs
     \<and> length got \<le> length body"
proof (induction n got segs arbitrary: body rule: receive_body.induct)
  case (1 n got segs)
  obtain chunk segs1 where rv: "recv (n - length got) segs = (chunk, segs1)" by fastforce
  show ?case
  proof (cases "length got < n")
    case True
    with "1.prems" rv have "chunk \<noteq> []" and "receive_body n (got @ chunk) segs1 = (Some body, segs')"
      by (auto simp: receive_body.simps[of n got] split: if_splits)
    with "1.IH"[OF True rv[symmetric]] recv_drop[OF rv] show ?thesis
      by (auto simp: drop_bytes_add)
  qed (use "1.prems" in \<open>auto simp: receive_body.simps[of n got]\<close>)
qed

lemma header_word_small:
  "length body \<le> 65536 \<Longrightarrow> unat (word_of_nat (length body) :: 32 word) = length body"
  by (simp add: unat_of_nat take_bit_nat_eq_self)

lemma receive_frame:
  assumes stream: "concat segs = PackageMessage body @ rest"
    and "[] \<notin> set segs" and "segs \<noteq> []" and "4 \<le> length (hd segs)"
    and body: "body \<noteq> []" "length body \<le> 65536"
  shows "ReceiveData junk segs = (body, drop_bytes (4 + length body) segs)
    \<and> concat (drop_bytes (4 + length body) segs) = rest \<and> [] \<notin> set (drop_bytes (4 + length body) segs)"
proof -
  let ?n = "word_of_nat (length body) :: 32 word"
  obtain seg segs0 where segs: "segs = seg # segs0" using assms(3) by (cases segs) auto
  obtain h segs1 where rv: "recv 4 segs = (h, segs1)" by fastforce
  have h4: "length h = 4" using rv segs assms(4) by (auto split: if_splits)
  have cat: "h @ concat segs1 = message_header ?n @ (body @ rest)"
    using recv_concat[OF rv] stream by (simp add: PackageMessage_def)
  then have h: "h = message_header ?n" and r1: "concat segs1 = body @ rest"
    using h4 by (auto simp: append_eq_append_conv)
  have n: "unat ?n = length body" by (rule header_word_small[OF body(2)])
  have ok: "?n \<noteq> 0" "\<not> ?n > 65536"
    using n body by (auto simp: word_less_nat_alt unat_eq_zero[symmetric] simp del: unat_eq_zero)
  obtain segs2 where rb: "receive_body (length body) [] segs1 = (Some body, segs2)"
      "concat segs2 = rest" "[] \<notin> set segs2"
    using receive_body_exact[OF r1, of "[]" "length body"] recv_nonempty_segments[OF rv assms(2)]
    by auto
  have "h \<noteq> []" using h4 by auto
  with receive_body_drop[OF rb(1)] recv_drop[OF rv] h4
  have "segs2 = drop_bytes (4 + length body) segs" by (simp add: drop_bytes_add)
  with rb rv h h4 n ok show ?thesis
    by (auto simp: ReceiveData_def parse_message_header_append Let_def)
qed

text \<open>
  The loop of \<open>HandleClient\<close> seen from the protocol: frames are read until an error or the end.
  \<open>headers_whole\<close> says that no segment boundary falls inside a header.
\<close>

fun receive_all :: "nat \<Rightarrow> string \<Rightarrow> segments \<Rightarrow> string list" where
  "receive_all 0 junk segs = []"
| "receive_all (Suc fuel) junk segs =
     (case ReceiveData junk segs of
        (d, segs') \<Rightarrow> if d = [] then [] else d # receive_all fuel junk segs')"

fun headers_whole :: "string list \<Rightarrow> segments \<Rightarrow> bool" where
  "headers_whole [] segs \<longleftrightarrow> True"
| "headers_whole (b # bs) segs \<longleftrightarrow>
     segs \<noteq> [] \<and> 4 \<le> length (hd segs) \<and> headers_whole bs (drop_bytes (4 + length b) segs)"

definition valid_body :: "string \<Rightarrow> bool" where
  "valid_body b \<longleftrightarrow> b \<noteq> [] \<and> length b \<le> max_body"

section \<open>Properties\<close>

text \<open>The four header bytes that PackageMessage writes are read back by ParseMessageHeader as the
  body's length modulo \<open>2 ^ 32\<close>, whatever the body.\<close>

lemma header_roundtrip:
  "unat (ParseMessageHeader (take 4 (PackageMessage body))) = length body mod 2 ^ 32"
  by (simp add: PackageMessage_def parse_message_header unat_of_nat)

text \<open>A stream of packaged messages determines the messages: no two different sequences of bodies
  shorter than \<open>2 ^ 32\<close> bytes have the same bytes on the wire.\<close>

lemma stream_uniquely_decodable:
  assumes "concat (map PackageMessage xs) = concat (map PackageMessage ys)"
    and "\<forall>b\<in>set xs. length b < 2 ^ 32" and "\<forall>b\<in>set ys. length b < 2 ^ 32"
  shows "xs = ys"
proof (rule frame.stream_inj)
  show "concat (map (\<lambda>b. message_header (word_of_nat (length b)) @ b) xs)
      = concat (map (\<lambda>b. message_header (word_of_nat (length b)) @ b) ys)"
    using assms(1) by (simp add: PackageMessage_def[abs_def])
qed (use assms(2,3) in force)+

lemma stream_uniquely_decodable_witness:
  "concat (map PackageMessage [''ab'', ''c'']) = concat (map PackageMessage [''ab'', ''c''])
    \<and> [''ab'', ''c''] = [''ab'', ''c'']"
  using stream_uniquely_decodable[of "[''ab'', ''c'']" "[''ab'', ''c'']"] by simp

text \<open>C15: However the kernel cuts and joins the byte stream of a sequence of packaged bodies (of 1 to
  65536 bytes), the receive loop returns exactly the bodies, in order, and stops when the client has closed,
  as long as no header is cut.\<close>

theorem receive_all_frames:
  assumes "concat segs = concat (map PackageMessage bodies)" and "[] \<notin> set segs"
    and "\<forall>b\<in>set bodies. valid_body b" and "headers_whole bodies segs"
    and "length bodies < fuel"
  shows "receive_all fuel junk segs = bodies"
  using assms
proof (induction bodies arbitrary: segs fuel)
  case Nil
  then have "segs = []" by (cases segs) auto
  with Nil show ?case by (cases fuel) (auto simp: ReceiveData_def)
next
  case (Cons b bodies)
  then obtain k where fuel: "fuel = Suc k" by (cases fuel) auto
  have "ReceiveData junk segs = (b, drop_bytes (4 + length b) segs)
      \<and> concat (drop_bytes (4 + length b) segs) = concat (map PackageMessage bodies)
      \<and> [] \<notin> set (drop_bytes (4 + length b) segs)"
    by (rule receive_frame) (use Cons.prems in \<open>auto simp: valid_body_def max_body_def\<close>)
  with Cons.IH[of "drop_bytes (4 + length b) segs" k] Cons.prems fuel show ?case
    by (simp add: valid_body_def)
qed

theorem receive_all_frames_witness:
  "receive_all 3 [] [message_header 2 @ ''a'', ''b'' @ message_header 1 @ ''c''] = [''ab'', ''c'']"
  using receive_all_frames[of "[message_header 2 @ ''a'', ''b'' @ message_header 1 @ ''c'']"
      "[''ab'', ''c'']" 3 "[]"]
  by (simp add: PackageMessage_def valid_body_def max_body_def)

text \<open>Whatever bytes arrive, a body that ReceiveData returns has at most 65536 bytes, and it is a
  piece of the incoming stream that starts at most four bytes in and was consumed from it.\<close>

lemma receive_bounded:
  assumes "ReceiveData junk segs = (body, segs')"
  shows "length body \<le> 65536 \<and> (\<exists>h used. concat segs = h @ used @ concat segs' \<and> length h \<le> 4
     \<and> (body \<noteq> [] \<longrightarrow> used = body))"
proof -
  obtain h segs1 where rv: "recv 4 segs = (h, segs1)" by fastforce
  have h4: "length h \<le> 4" using recv_length[of 4 segs] rv by simp
  note cat = recv_concat[OF rv, symmetric]
  let ?n = "ParseMessageHeader (h @ drop (length h) junk)"
  obtain r segs2 where rb: "receive_body (unat ?n) [] segs1 = (r, segs2)" by fastforce
  show ?thesis
  proof (cases "h = [] \<or> ?n = 0 \<or> ?n > 65536 \<or> r = None")
    case True
    with assms rv rb receive_body_consumes[OF rb] have "body = []"
      and "\<exists>used. concat segs1 = used @ concat segs'"
      by (auto simp: ReceiveData_def Let_def split: if_splits)
    with h4 cat show ?thesis by (auto intro: exI[of _ h])
  next
    case False
    then obtain b where b: "r = Some b" by auto
    with False assms rv rb have eq: "body = b" "segs' = segs2"
      by (auto simp: ReceiveData_def Let_def)
    have "unat ?n \<le> 65536" using False by (simp add: word_less_nat_alt not_less)
    moreover have "length b = unat ?n" using receive_body_length[of _ "[]"] rb b by auto
    ultimately show ?thesis
      using receive_body_consumes[OF rb] b eq h4 cat by (auto intro: exI[of _ h])
  qed
qed

lemma receive_bounded_witness:
  "length ''hi'' \<le> 65536 \<and> (\<exists>h used. concat [message_header 2 @ ''hi''] = h @ used @ concat []
     \<and> length h \<le> 4 \<and> (''hi'' \<noteq> [] \<longrightarrow> used = ''hi''))"
proof -
  have "ReceiveData [] [message_header 2 @ ''hi''] = (''hi'', [])"
    using receive_frame[of "[message_header 2 @ ''hi'']" "''hi''" "[]" "[]"]
    by (simp add: PackageMessage_def)
  then show ?thesis by (rule receive_bounded)
qed

text \<open>A first recv that returns fewer than four header bytes is not completed: with a stack whose
  header array holds zeroes, a well-formed message whose first segment is one byte long is
  refused although all of its bytes arrive.\<close>

lemma short_header_read:
  "concat [[CHR 0x00], [CHR 0x00, CHR 0x00, CHR 0x02] @ ''hi''] = PackageMessage ''hi''
   \<and> ReceiveData (replicate 4 (CHR 0x00)) [[CHR 0x00], [CHR 0x00, CHR 0x00, CHR 0x02] @ ''hi'']
     = ([], [[CHR 0x00, CHR 0x00, CHR 0x02] @ ''hi''])"
  by code_simp

text \<open>C16: SendData is all or a strict prefix: whatever the kernel takes per call, a result of true means that
  exactly the packaged message was appended to the socket's bytes, a result of false that a strict
  prefix of it was, and no other socket is written.\<close>

theorem send_data_wire:
  assumes "SendData sock data ns = (ok, ns')" and "length data < 2 ^ 31 - 4"
  shows "\<exists>bytes. (if ok then bytes = PackageMessage data else strict_prefix bytes (PackageMessage data))
     \<and> (\<forall>s. wire s ns' = (if s = sock then wire s ns @ bytes else wire s ns))"
proof -
  have "send_loop sock (PackageMessage data) (int (4 + length data)) 0 ns = (ok, ns')"
    using assms by (simp add: SendData_def int_of_size_small)
  from send_loop_sends[OF this] only_sent_wire show ?thesis by fastforce
qed

theorem send_data_wire_witness:
  "\<exists>bytes. (if False then bytes = PackageMessage ''hi'' else strict_prefix bytes (PackageMessage ''hi''))
     \<and> (\<forall>s. wire s \<lparr>send_script = [], events = [Sent 7 (take 3 (PackageMessage ''hi''))]\<rparr>
          = (if s = 7 then wire s \<lparr>send_script = [3, -1], events = []\<rparr> @ bytes
             else wire s \<lparr>send_script = [3, -1], events = []\<rparr>))"
proof -
  have "SendData 7 ''hi'' \<lparr>send_script = [3, -1], events = []\<rparr>
      = (False, \<lparr>send_script = [], events = [Sent 7 (take 3 (PackageMessage ''hi''))]\<rparr>)"
    by (simp add: SendData_def int_of_size_small send_loop.simps sys_send_def)
  then show ?thesis by (rule send_data_wire) simp
qed

end
