(* ===== verification/Client_Session.thy ===== *)
theory Client_Session
  imports Prelude
begin

text \<open>
  The session object of one connection, \<^verbatim>\<open>src/src/connection/client_session.cpp\<close>: its private members,
  its two constructors, getters and setters.  \<open>now\<close> is the value of \<open>time(nullptr)\<close>.
\<close>

record ClientSession =
  socket :: int
  ip :: string
  port :: int
  username :: string
  lastHeartbeat :: int
  isConnected :: bool

definition ClientSession_default :: ClientSession where
  "ClientSession_default = \<lparr>socket = -1, ip = [], port = 0, username = [],
     lastHeartbeat = 0, isConnected = False\<rparr>"

definition ClientSession_new :: "int \<Rightarrow> int \<Rightarrow> string \<Rightarrow> int \<Rightarrow> ClientSession" where
  "ClientSession_new now sock addr prt = \<lparr>socket = sock, ip = addr, port = prt, username = [],
     lastHeartbeat = now, isConnected = True\<rparr>"

definition GetSocket :: "ClientSession \<Rightarrow> int" where
  [simp]: "GetSocket c = socket c"

definition GetIP :: "ClientSession \<Rightarrow> string" where
  [simp]: "GetIP c = ip c"

definition GetPort :: "ClientSession \<Rightarrow> int" where
  [simp]: "GetPort c = port c"

definition GetUsername :: "ClientSession \<Rightarrow> string" where
  [simp]: "GetUsername c = username c"

definition GetLastHeartbeat :: "ClientSession \<Rightarrow> int" where
  [simp]: "GetLastHeartbeat c = lastHeartbeat c"

definition GetIsConnected :: "ClientSession \<Rightarrow> bool" where
  [simp]: "GetIsConnected c = isConnected c"

definition SetUsername :: "string \<Rightarrow> ClientSession \<Rightarrow> ClientSession" where
  "SetUsername name c = c\<lparr>username := name\<rparr>"

definition UpdateHeartbeat :: "int \<Rightarrow> ClientSession \<Rightarrow> ClientSession" where
  "UpdateHeartbeat now c = c\<lparr>lastHeartbeat := now\<rparr>"

definition SetIsConnected :: "bool \<Rightarrow> ClientSession \<Rightarrow> ClientSession" where
  "SetIsConnected b c = c\<lparr>isConnected := b\<rparr>"

lemma setters_socket [simp]:
  "socket (SetUsername n c) = socket c" "socket (UpdateHeartbeat t c) = socket c"
  "socket (SetIsConnected b c) = socket c"
  by (simp_all add: SetUsername_def UpdateHeartbeat_def SetIsConnected_def)

lemma setters_username [simp]:
  "username (SetUsername n c) = n" "username (UpdateHeartbeat t c) = username c"
  "username (SetIsConnected b c) = username c"
  by (simp_all add: SetUsername_def UpdateHeartbeat_def SetIsConnected_def)

end
