(* ===== verification/Session_Manager.thy ===== *)
theory Session_Manager
  imports Client_Session
begin

text \<open>
  The session manager, \<^verbatim>\<open>src/src/system/session_manager.cpp\<close>.  Sessions are reached through raw
  pointers, so the state has an explicit heap: \<open>heap\<close> maps an address to the live session there,
  \<open>next_ptr\<close> is the next fresh address, and \<open>ub\<close> records that a pointer to a deleted session was used
  (undefined behaviour in C++).  The two \<open>unordered_map\<close>s are association lists.
\<close>

record sessions =
  heap :: "nat \<Rightarrow> ClientSession option"
  next_ptr :: nat
  ub :: bool
  cliSessionMap :: "(int, nat) umap"
  usernameToSocket :: "(string, int) umap"

definition SessionManager_new :: sessions where
  "SessionManager_new = \<lparr>heap = (\<lambda>_. None), next_ptr = 0, ub = False,
     cliSessionMap = [], usernameToSocket = []\<rparr>"

section \<open>Pointers\<close>

definition alloc :: "ClientSession \<Rightarrow> sessions \<Rightarrow> nat \<times> sessions" where
  "alloc c st = (next_ptr st, st\<lparr>heap := (heap st)(next_ptr st := Some c), next_ptr := Suc (next_ptr st)\<rparr>)"

text \<open>Any use of a pointer: a dangling one is undefined behaviour.\<close>

definition touch :: "nat \<Rightarrow> sessions \<Rightarrow> sessions" where
  "touch p st = (if heap st p = None then st\<lparr>ub := True\<rparr> else st)"

definition deref :: "sessions \<Rightarrow> nat \<Rightarrow> ClientSession" where
  "deref st p = (case heap st p of Some c \<Rightarrow> c | None \<Rightarrow> ClientSession_default)"

definition update_at :: "nat \<Rightarrow> (ClientSession \<Rightarrow> ClientSession) \<Rightarrow> sessions \<Rightarrow> sessions" where
  "update_at p f st = (case heap st p of
     Some c \<Rightarrow> st\<lparr>heap := (heap st)(p := Some (f c))\<rparr> | None \<Rightarrow> st\<lparr>ub := True\<rparr>)"

definition delete_at :: "nat \<Rightarrow> sessions \<Rightarrow> sessions" where
  "delete_at p st = (touch p st)\<lparr>heap := (heap st)(p := None)\<rparr>"

section \<open>Operations\<close>

definition AddSession :: "int \<Rightarrow> nat \<Rightarrow> sessions \<Rightarrow> sessions" where
  "AddSession sock p st =
     (let st1 = touch p (st\<lparr>cliSessionMap := umap_set sock p (cliSessionMap st)\<rparr>);
          name = GetUsername (deref st1 p)
      in if name \<noteq> []
         then st1\<lparr>usernameToSocket := umap_set name sock (usernameToSocket st1)\<rparr>
         else st1)"

definition RemoveSession :: "int \<Rightarrow> sessions \<Rightarrow> sessions" where
  "RemoveSession sock st =
     (case umap_find (cliSessionMap st) sock of
        None \<Rightarrow> st
      | Some p \<Rightarrow>
          let st1 = touch p st;
              name = GetUsername (deref st1 p);
              st2 = (if name \<noteq> [] \<and> umap_find (usernameToSocket st1) name = Some sock
                     then st1\<lparr>usernameToSocket := umap_erase name (usernameToSocket st1)\<rparr>
                     else st1);
              st3 = delete_at p st2
          in st3\<lparr>cliSessionMap := umap_erase sock (cliSessionMap st3)\<rparr>)"

definition GetSession :: "int \<Rightarrow> sessions \<Rightarrow> nat option" where
  "GetSession sock st = umap_find (cliSessionMap st) sock"

definition GetSessionByUsername :: "string \<Rightarrow> sessions \<Rightarrow> nat option" where
  "GetSessionByUsername name st =
     (case umap_find (usernameToSocket st) name of
        None \<Rightarrow> None
      | Some sock \<Rightarrow> umap_find (cliSessionMap st) sock)"

definition GetAllSessions :: "sessions \<Rightarrow> (int, nat) umap" where
  "GetAllSessions st = cliSessionMap st"

definition GetOnlineUserCount :: "sessions \<Rightarrow> nat" where
  "GetOnlineUserCount st = length (usernameToSocket st)"

definition BindUsername :: "int \<Rightarrow> string \<Rightarrow> sessions \<Rightarrow> sessions" where
  "BindUsername sock name st = st\<lparr>usernameToSocket := umap_set name sock (usernameToSocket st)\<rparr>"

text \<open>The destructor deletes every session and clears both maps.\<close>

definition SessionManager_destroy :: "sessions \<Rightarrow> sessions" where
  "SessionManager_destroy st =
     (fold (\<lambda>(sock, p). delete_at p) (cliSessionMap st) st)\<lparr>cliSessionMap := [], usernameToSocket := []\<rparr>"

section \<open>Well-formed session tables\<close>

text \<open>
  Every entry of the session map points to a live session that knows its own socket, fresh
  addresses are free, and no dangling pointer has been used.
\<close>

definition sessions_ok :: "sessions \<Rightarrow> bool" where
  "sessions_ok st \<longleftrightarrow>
     umap_wf (cliSessionMap st) \<and> umap_wf (usernameToSocket st) \<and> \<not> ub st
     \<and> (\<forall>p. next_ptr st \<le> p \<longrightarrow> heap st p = None)
     \<and> (\<forall>sock p. umap_find (cliSessionMap st) sock = Some p \<longrightarrow>
          (\<exists>c. heap st p = Some c \<and> socket c = sock))"

text \<open>The user logged in on a socket: the empty string for none.\<close>

definition session_user :: "sessions \<Rightarrow> int \<Rightarrow> string" where
  "session_user st sock =
     (case umap_find (cliSessionMap st) sock of None \<Rightarrow> [] | Some p \<Rightarrow> username (deref st p))"

lemma sessions_ok_new: "sessions_ok SessionManager_new"
  by (simp add: sessions_ok_def SessionManager_new_def umap_simps um_wf_intros)

lemma sessions_okD:
  assumes "sessions_ok st" and "umap_find (cliSessionMap st) sock = Some p"
  shows "\<exists>c. heap st p = Some c \<and> socket c = sock \<and> deref st p = c"
  using assms by (fastforce simp: sessions_ok_def deref_def)

lemma sessions_ok_ptr_inj:
  "sessions_ok st \<Longrightarrow> umap_find (cliSessionMap st) s1 = Some p
    \<Longrightarrow> umap_find (cliSessionMap st) s2 = Some p \<Longrightarrow> s1 = s2"
  using sessions_okD[of st s1 p] sessions_okD[of st s2 p] by auto

lemma sessions_ok_fresh:
  "sessions_ok st \<Longrightarrow> umap_find (cliSessionMap st) sock \<noteq> Some (next_ptr st)"
  using sessions_okD[of st sock "next_ptr st"] by (auto simp: sessions_ok_def)

lemma GetSessionByUsername_mem:
  "GetSessionByUsername name st = Some p \<Longrightarrow>
    \<exists>sock. umap_find (usernameToSocket st) name = Some sock \<and> umap_find (cliSessionMap st) sock = Some p"
  by (auto simp: GetSessionByUsername_def split: option.splits)

lemma alloc_simps [simp]:
  "fst (alloc c st) = next_ptr st" "cliSessionMap (snd (alloc c st)) = cliSessionMap st"
  "usernameToSocket (snd (alloc c st)) = usernameToSocket st" "ub (snd (alloc c st)) = ub st"
  "heap (snd (alloc c st)) = (heap st)(next_ptr st := Some c)"
  "next_ptr (snd (alloc c st)) = Suc (next_ptr st)"
  by (simp_all add: alloc_def)

lemma update_at_simps [simp]:
  "cliSessionMap (update_at p f st) = cliSessionMap st"
  "usernameToSocket (update_at p f st) = usernameToSocket st"
  "next_ptr (update_at p f st) = next_ptr st"
  by (simp_all add: update_at_def split: option.splits)

lemma touch_simps [simp]:
  "cliSessionMap (touch p st) = cliSessionMap st" "usernameToSocket (touch p st) = usernameToSocket st"
  "heap (touch p st) = heap st" "next_ptr (touch p st) = next_ptr st"
  by (simp_all add: touch_def)

lemma sessions_ok_touch:
  "sessions_ok st \<Longrightarrow> umap_find (cliSessionMap st) sock = Some p \<Longrightarrow> touch p st = st"
  using sessions_okD[of st sock p] by (auto simp: touch_def)

lemma touch_by_username:
  "sessions_ok st \<Longrightarrow> GetSessionByUsername name st = Some p \<Longrightarrow> touch p st = st"
  by (auto dest!: GetSessionByUsername_mem sessions_ok_touch)

lemma sessions_ok_update_at:
  assumes "sessions_ok st" and "umap_find (cliSessionMap st) sock = Some p" and "\<And>c. socket (f c) = socket c"
  shows "sessions_ok (update_at p f st)"
  using assms sessions_okD[OF assms(1,2)] by (fastforce simp: sessions_ok_def update_at_def)

lemma sessions_ok_AddSession:
  assumes "sessions_ok st"
  shows "sessions_ok (AddSession sock (next_ptr st) (snd (alloc (ClientSession_new t sock a q) st)))"
  using assms sessions_ok_fresh[OF assms]
  by (auto simp: sessions_ok_def AddSession_def Let_def touch_def deref_def ClientSession_new_def
      um_simps um.wf_put)

lemma sessions_ok_BindUsername: "sessions_ok st \<Longrightarrow> sessions_ok (BindUsername sock name st)"
  by (simp add: sessions_ok_def BindUsername_def um.wf_put)

lemma sessions_ok_RemoveSession:
  assumes "sessions_ok st"
  shows "sessions_ok (RemoveSession sock st)"
proof (cases "umap_find (cliSessionMap st) sock")
  case None
  with assms show ?thesis by (simp add: RemoveSession_def)
next
  case (Some p)
  from sessions_okD[OF assms Some] have "heap st p \<noteq> None" by auto
  moreover have "\<And>s. s \<noteq> sock \<Longrightarrow> umap_find (cliSessionMap st) s \<noteq> Some p"
    using sessions_ok_ptr_inj[OF assms Some] by auto
  ultimately show ?thesis
    using assms Some
    by (auto simp: sessions_ok_def RemoveSession_def Let_def touch_def delete_at_def um_simps um.wf_erase)
qed

lemma RemoveSession_maps:
  "cliSessionMap (RemoveSession sock st) = (if umap_find (cliSessionMap st) sock = None
     then cliSessionMap st else umap_erase sock (cliSessionMap st))"
  by (auto simp: RemoveSession_def Let_def delete_at_def split: option.splits)

end
