(* ===== verification/Db_Manager.thy ===== *)
theory Db_Manager
  imports Prelude
begin

text \<open>
  The MySQL connection pool, \<^verbatim>\<open>src/src/system/db_manager.cpp\<close>.  A connection is an identifier;
  \<open>next_conn\<close> is the one the driver hands out next.  The driver and the MySQL server are outside:
  \<open>driver_ok\<close> says whether \<open>get_mysql_driver_instance\<close> succeeds, \<open>connect_script\<close> gives the outcome
  of each attempt to connect and \<open>select_script\<close> of each \<open>SELECT 1\<close> (an exhausted script means success).
  \<open>slept\<close> counts the seconds spent in \<open>sleep_for\<close>.

  \<open>GetConnection\<close> blocks on the condition variable while the pool is empty; in the model that is
  \<open>None\<close>, and an operation that would block for ever returns \<open>None\<close> too.
\<close>

record db_manager =
  connectionPool :: "nat list"
  poolSize :: int
  driver_ok :: bool
  next_conn :: nat
  connect_script :: "bool list"
  select_script :: "bool list"
  slept :: int

definition GetConnection :: "db_manager \<Rightarrow> (nat \<times> db_manager) option" where
  "GetConnection m =
     (case queue_pop (connectionPool m) of
        None \<Rightarrow> None
      | Some (conn, q) \<Rightarrow> Some (conn, m\<lparr>connectionPool := q\<rparr>))"

definition ReleaseConnection :: "nat \<Rightarrow> db_manager \<Rightarrow> db_manager" where
  "ReleaseConnection conn m = m\<lparr>connectionPool := queue_push conn (connectionPool m)\<rparr>"

definition CreateConnection :: "db_manager \<Rightarrow> nat option \<times> db_manager" where
  "CreateConnection m =
     (case connect_script m of
        [] \<Rightarrow> (Some (next_conn m), m\<lparr>next_conn := Suc (next_conn m)\<rparr>)
      | ok # rest \<Rightarrow>
          if ok then (Some (next_conn m), m\<lparr>connect_script := rest, next_conn := Suc (next_conn m)\<rparr>)
          else (None, m\<lparr>connect_script := rest\<rparr>))"

definition select_one :: "db_manager \<Rightarrow> bool \<times> db_manager" where
  "select_one m = (case select_script m of [] \<Rightarrow> (True, m) | ok # rest \<Rightarrow> (ok, m\<lparr>select_script := rest\<rparr>))"

definition ValidateConnection :: "db_manager \<Rightarrow> (bool \<times> db_manager) option" where
  "ValidateConnection m =
     (case GetConnection m of
        None \<Rightarrow> None
      | Some (conn, m1) \<Rightarrow> (case select_one m1 of (valid, m2) \<Rightarrow> Some (valid, ReleaseConnection conn m2)))"

fun create_loop :: "nat \<Rightarrow> db_manager \<Rightarrow> bool \<times> db_manager" where
  "create_loop 0 m = (True, m)"
| "create_loop (Suc k) m =
     (case CreateConnection m of
        (None, m1) \<Rightarrow> (False, m1)
      | (Some conn, m1) \<Rightarrow> create_loop k (m1\<lparr>connectionPool := queue_push conn (connectionPool m1)\<rparr>))"

definition InitConnectionPool :: "int \<Rightarrow> db_manager \<Rightarrow> (bool \<times> db_manager) option" where
  "InitConnectionPool n m =
     (let m1 = m\<lparr>poolSize := n\<rparr>
      in if \<not> driver_ok m1 then Some (False, m1)
         else (case create_loop (nat n) m1 of
                 (False, m2) \<Rightarrow> Some (False, m2)
               | (True, m2) \<Rightarrow> ValidateConnection m2))"

fun reconnect_loop :: "nat \<Rightarrow> db_manager \<Rightarrow> (bool \<times> db_manager) option" where
  "reconnect_loop 0 m = Some (False, m)"
| "reconnect_loop (Suc k) m =
     (case InitConnectionPool (poolSize m) m of
        None \<Rightarrow> None
      | Some (True, m1) \<Rightarrow> Some (True, m1)
      | Some (False, m1) \<Rightarrow> reconnect_loop k (m1\<lparr>slept := slept m1 + 5\<rparr>))"

definition Reconnect :: "db_manager \<Rightarrow> (bool \<times> db_manager) option" where
  "Reconnect m = reconnect_loop 3 m"

definition DBManager_new :: db_manager where
  "DBManager_new = \<lparr>connectionPool = [], poolSize = 0, driver_ok = True, next_conn = 0,
     connect_script = [], select_script = [], slept = 0\<rparr>"

text \<open>The destructor empties the pool and returns how many connections it closed.\<close>

definition DBManager_destroy :: "db_manager \<Rightarrow> nat \<times> db_manager" where
  "DBManager_destroy m = (length (connectionPool m), m\<lparr>connectionPool := []\<rparr>)"

section \<open>Lemmas\<close>

lemma GetConnection_Some:
  "GetConnection m = Some (c, m') \<Longrightarrow> connectionPool m = c # connectionPool m'
     \<and> m' = m\<lparr>connectionPool := connectionPool m'\<rparr>"
  by (auto simp: GetConnection_def dest: qu.deq_Some split: option.splits)

lemma GetConnection_fields:
  "GetConnection m = Some (c, m') \<Longrightarrow> connectionPool m = c # connectionPool m'
     \<and> poolSize m' = poolSize m \<and> next_conn m' = next_conn m"
  by (auto simp: GetConnection_def dest: qu.deq_Some split: option.splits)

lemma GetConnection_None: "GetConnection m = None \<longleftrightarrow> connectionPool m = []"
  using qu.deq_None[of "connectionPool m"] by (auto simp: GetConnection_def split: option.splits)

text \<open>Taking and giving back a connection keeps the multiset of connections and a non-empty pool.\<close>

lemma get_release:
  assumes "GetConnection m = Some (c, m')"
  shows "mset (connectionPool (ReleaseConnection c m')) = mset (connectionPool m)"
    and "connectionPool (ReleaseConnection c m') \<noteq> []"
  using GetConnection_Some[OF assms] by (auto simp: ReleaseConnection_def queue_push_def)

lemma select_one_pool [simp]:
  "connectionPool (snd (select_one m)) = connectionPool m" "poolSize (snd (select_one m)) = poolSize m"
  "next_conn (snd (select_one m)) = next_conn m" "connect_script (snd (select_one m)) = connect_script m"
  by (simp_all add: select_one_def split: list.splits)

lemma ValidateConnection_pool:
  assumes "ValidateConnection m = Some (v, m')"
  shows "mset (connectionPool m') = mset (connectionPool m) \<and> poolSize m' = poolSize m
    \<and> next_conn m' = next_conn m \<and> length (connectionPool m') = length (connectionPool m)"
proof -
  obtain c m1 where g: "GetConnection m = Some (c, m1)"
    and m': "m' = ReleaseConnection c (snd (select_one m1))"
    using assms by (auto simp: ValidateConnection_def split: option.splits prod.splits)
  from GetConnection_fields[OF g] m' show ?thesis
    by (simp add: ReleaseConnection_def queue_push_def)
qed

lemma create_loop_pool:
  "create_loop k m = (ok, m') \<Longrightarrow> poolSize m' = poolSize m \<and> next_conn m \<le> next_conn m'
     \<and> connectionPool m' = connectionPool m @ [next_conn m ..< next_conn m']
     \<and> (ok \<longrightarrow> next_conn m' = next_conn m + k)"
proof (induction k arbitrary: m)
  case 0
  then show ?case by simp
next
  case (Suc k)
  obtain r m1 where c: "CreateConnection m = (r, m1)" by fastforce
  have m1: "poolSize m1 = poolSize m" "connectionPool m1 = connectionPool m"
    "next_conn m1 = (if r = None then next_conn m else Suc (next_conn m))"
    "r = None \<or> r = Some (next_conn m)"
    using c by (auto simp: CreateConnection_def split: list.splits if_splits)
  show ?case
  proof (cases r)
    case None
    with Suc.prems c m1 show ?thesis by auto
  next
    case (Some conn)
    let ?m2 = "m1\<lparr>connectionPool := queue_push conn (connectionPool m1)\<rparr>"
    from Suc.prems c Some have "create_loop k ?m2 = (ok, m')" by simp
    from Suc.IH[OF this] m1 Some show ?thesis
      by (auto simp: queue_push_def upt_conv_Cons)
  qed
qed

section \<open>Threads that share the pool\<close>

text \<open>
  The state of the pool with the threads that use it: a thread holds at most one connection at a
  time (each data access function takes one and gives it back).  A thread that finds the pool empty
  makes no step until another one releases.
\<close>

record pool_sys =
  manager :: db_manager
  held :: "(nat, nat) umap"

inductive pool_step :: "pool_sys \<Rightarrow> pool_sys \<Rightarrow> bool" where
  acquire: "umap_find (held s) t = None \<Longrightarrow> GetConnection (manager s) = Some (c, m) \<Longrightarrow>
     pool_step s (s\<lparr>manager := m, held := umap_set t c (held s)\<rparr>)"
| release: "umap_find (held s) t = Some c \<Longrightarrow>
     pool_step s (s\<lparr>manager := ReleaseConnection c (manager s), held := umap_erase t (held s)\<rparr>)"

inductive pool_reachable :: "db_manager \<Rightarrow> pool_sys \<Rightarrow> bool" for m where
  pool_start: "pool_reachable m \<lparr>manager = m, held = []\<rparr>"
| pool_next: "pool_reachable m s \<Longrightarrow> pool_step s s' \<Longrightarrow> pool_reachable m s'"

lemma umap_set_fresh: "umap_find h t = None \<Longrightarrow> umap_set t c h = h @ [(t, c)]"
  by (induction h) (auto simp: umap_find_def umap_set_def)

lemma umap_erase_mset:
  "umap_wf h \<Longrightarrow> umap_find h t = Some c \<Longrightarrow>
     add_mset c (mset (map snd (umap_erase t h))) = mset (map snd h)"
proof (induction h)
  case Nil
  then show ?case by (simp add: umap_find_def)
next
  case (Cons kv h)
  obtain k v where kv: "kv = (k, v)" by fastforce
  show ?case
  proof (cases "k = t")
    case True
    with Cons.prems kv have "umap_erase t h = h"
      by (auto simp: umap_wf_def umap_erase_def)
    with True Cons.prems kv show ?thesis
      by (simp add: umap_find_def umap_erase_def)
  next
    case False
    with Cons kv show ?thesis by (auto simp: umap_find_def umap_wf_def umap_erase_def)
  qed
qed

definition pool_inv :: "db_manager \<Rightarrow> pool_sys \<Rightarrow> bool" where
  "pool_inv m s \<longleftrightarrow> umap_wf (held s)
     \<and> mset (connectionPool (manager s)) + mset (map snd (held s)) = mset (connectionPool m)"

lemma pool_step_inv:
  assumes "pool_step s s'" and inv: "pool_inv m s"
  shows "pool_inv m s'"
  using assms(1)
proof (cases rule: pool_step.cases)
  case (acquire t c m1)
  with inv GetConnection_Some[OF acquire(3)] show ?thesis
    by (auto simp: pool_inv_def umap_set_fresh umap_wf_def umap_find_def map_of_eq_None_iff)
next
  case (release t c)
  have wf: "umap_wf (held s)" using inv by (simp add: pool_inv_def)
  have "mset (connectionPool (manager s')) + mset (map snd (held s'))
      = mset (connectionPool (manager s)) + add_mset c (mset (map snd (umap_erase t (held s))))"
    using release(1) by (simp add: ReleaseConnection_def queue_push_def)
  also have "\<dots> = mset (connectionPool m)"
    unfolding umap_erase_mset[OF wf release(2)] using inv by (simp add: pool_inv_def)
  finally show ?thesis using release(1) wf by (simp add: pool_inv_def um.wf_erase)
qed

lemma pool_reachable_inv: "pool_reachable m s \<Longrightarrow> pool_inv m s"
proof (induction rule: pool_reachable.induct)
  case pool_start
  show ?case by (simp add: pool_inv_def um_wf_intros)
next
  case (pool_next s s')
  from pool_step_inv[OF pool_next.hyps(2) pool_next.IH] show ?case .
qed

section \<open>Properties\<close>

text \<open>A pool that InitConnectionPool reports as ready, on a new manager, holds exactly \<open>n\<close> different
  connections and none of them is lost by the validation.\<close>

lemma init_pool_size:
  assumes "InitConnectionPool n (DBManager_new\<lparr>connect_script := cs, select_script := ss\<rparr>) = Some (True, m)"
  shows "length (connectionPool m) = nat n \<and> distinct (connectionPool m)
    \<and> set (connectionPool m) = {..< nat n} \<and> poolSize m = n"
proof -
  let ?m0 = "DBManager_new\<lparr>connect_script := cs, select_script := ss, poolSize := n\<rparr>"
  obtain m2 where c: "create_loop (nat n) ?m0 = (True, m2)" and v: "ValidateConnection m2 = Some (True, m)"
    using assms by (auto simp: InitConnectionPool_def DBManager_new_def Let_def split: prod.splits bool.splits)
  have "connectionPool m2 = [0 ..< nat n]" and "poolSize m2 = n"
    using create_loop_pool[OF c] by (auto simp: DBManager_new_def)
  moreover from ValidateConnection_pool[OF v]
  have "mset (connectionPool m) = mset (connectionPool m2)" and "poolSize m = poolSize m2" by auto
  moreover from this(1) have "length (connectionPool m) = length (connectionPool m2)"
    and "set (connectionPool m) = set (connectionPool m2)"
    and "distinct (connectionPool m) = distinct (connectionPool m2)"
    by (auto dest: mset_eq_length mset_eq_setD mset_eq_imp_distinct_iff)
  ultimately show ?thesis by (auto simp: atLeast0LessThan)
qed

lemma init_pool_size_witness:
  "length (connectionPool (DBManager_new\<lparr>poolSize := 2, next_conn := 2, connectionPool := [1, 0]\<rparr>)) = nat 2
    \<and> distinct (connectionPool (DBManager_new\<lparr>poolSize := 2, next_conn := 2, connectionPool := [1, 0]\<rparr>))
    \<and> set (connectionPool (DBManager_new\<lparr>poolSize := 2, next_conn := 2, connectionPool := [1, 0]\<rparr>)) = {..< nat 2}
    \<and> poolSize (DBManager_new\<lparr>poolSize := 2, next_conn := 2, connectionPool := [1, 0]\<rparr>) = 2"
proof (rule init_pool_size)
  show "InitConnectionPool 2 (DBManager_new\<lparr>connect_script := [], select_script := []\<rparr>)
      = Some (True, DBManager_new\<lparr>poolSize := 2, next_conn := 2, connectionPool := [1, 0]\<rparr>)"
    by (simp add: InitConnectionPool_def DBManager_new_def Let_def CreateConnection_def queue_push_def
        queue_pop_def ValidateConnection_def GetConnection_def ReleaseConnection_def select_one_def
        numeral_2_eq_2)
qed

text \<open>C37: No interleaving of threads that take and give back connections lets two threads hold the same
  connection, or a held connection be in the pool, and none is ever lost or invented.\<close>

theorem pool_mutual_exclusion:
  assumes "pool_reachable m s" and "distinct (connectionPool m)"
  shows "distinct (connectionPool (manager s) @ map snd (held s))
    \<and> mset (connectionPool (manager s) @ map snd (held s)) = mset (connectionPool m)"
proof -
  have eq: "mset (connectionPool (manager s) @ map snd (held s)) = mset (connectionPool m)"
    using pool_reachable_inv[OF assms(1)] by (simp add: pool_inv_def)
  with assms(2) show ?thesis by (metis mset_eq_imp_distinct_iff)
qed

theorem pool_mutual_exclusion_witness:
  "distinct (connectionPool (DBManager_new\<lparr>connectionPool := [6]\<rparr>) @ map snd [(1, 5)])
    \<and> mset (connectionPool (DBManager_new\<lparr>connectionPool := [6]\<rparr>) @ map snd [(1, 5)])
      = mset (connectionPool (DBManager_new\<lparr>connectionPool := [5, 6]\<rparr>))"
proof -
  let ?m = "DBManager_new\<lparr>connectionPool := [5, 6]\<rparr>"
  let ?s = "\<lparr>manager = ?m, held = []\<rparr>"
  let ?s' = "\<lparr>manager = DBManager_new\<lparr>connectionPool := [6]\<rparr>, held = [(1, 5)]\<rparr>"
  have "pool_step ?s (?s\<lparr>manager := DBManager_new\<lparr>connectionPool := [6]\<rparr>, held := umap_set 1 5 (held ?s)\<rparr>)"
    by (rule pool_step.acquire) (simp_all add: GetConnection_def queue_pop_def um_simps)
  then have "pool_reachable ?m ?s'"
    using pool_next[OF pool_start] by (simp add: umap_set_def)
  from pool_mutual_exclusion[OF this] show ?thesis by simp
qed

text \<open>A successful Reconnect does not replace the pool but adds to it: all connections the pool held are
  still there, and \<open>poolSize\<close> new ones (or more, after failed attempts) come on top.\<close>

lemma reconnect_grows_pool:
  assumes "Reconnect m = Some (True, m')"
  shows "mset (connectionPool m) \<subseteq># mset (connectionPool m')
    \<and> length (connectionPool m) + nat (poolSize m) \<le> length (connectionPool m')"
proof -
  have init: "mset (connectionPool m) \<subseteq># mset (connectionPool m') \<and> poolSize m' = poolSize m
      \<and> (ok \<longrightarrow> length (connectionPool m) + nat (poolSize m) \<le> length (connectionPool m'))"
    if i: "InitConnectionPool (poolSize m) m = Some (ok, m')" for m m' ok
  proof (cases "driver_ok m")
    case False
    with i show ?thesis by (auto simp: InitConnectionPool_def Let_def)
  next
    case True
    obtain b m2 where c: "create_loop (nat (poolSize m)) (m\<lparr>poolSize := poolSize m\<rparr>) = (b, m2)" by fastforce
    with True i have "(b = False \<and> ok = False \<and> m' = m2) \<or> (b = True \<and> ValidateConnection m2 = Some (ok, m'))"
      by (auto simp: InitConnectionPool_def Let_def split: bool.splits)
    moreover note create_loop_pool[OF c]
    ultimately show ?thesis
      using ValidateConnection_pool[of m2 ok m'] by (auto dest!: mset_eq_length)
  qed
  have "mset (connectionPool m) \<subseteq># mset (connectionPool m')
      \<and> length (connectionPool m) + nat (poolSize m) \<le> length (connectionPool m')"
    if "reconnect_loop k m = Some (True, m')" for k
    using that
  proof (induction k arbitrary: m)
    case 0
    then show ?case by simp
  next
    case (Suc k)
    obtain ok m1 where i: "InitConnectionPool (poolSize m) m = Some (ok, m1)"
      using Suc.prems by (auto split: option.splits)
    show ?case
    proof (cases ok)
      case True
      with Suc.prems i init[OF i] show ?thesis by auto
    next
      case False
      with Suc.prems i have "reconnect_loop k (m1\<lparr>slept := slept m1 + 5\<rparr>) = Some (True, m')" by simp
      from Suc.IH[OF this] init[OF i] show ?thesis
        using size_mset_mono[of "mset (connectionPool m)" "mset (connectionPool m1)"]
        by (auto intro: subset_mset.order_trans)
    qed
  qed
  with assms show ?thesis by (simp add: Reconnect_def)
qed

lemma reconnect_grows_pool_witness:
  "mset (connectionPool (DBManager_new\<lparr>poolSize := 1, connectionPool := [7]\<rparr>))
     \<subseteq># mset (connectionPool (DBManager_new\<lparr>poolSize := 1, next_conn := 1, connectionPool := [0, 7]\<rparr>))
   \<and> length (connectionPool (DBManager_new\<lparr>poolSize := 1, connectionPool := [7]\<rparr>))
       + nat (poolSize (DBManager_new\<lparr>poolSize := 1, connectionPool := [7]\<rparr>))
     \<le> length (connectionPool (DBManager_new\<lparr>poolSize := 1, next_conn := 1, connectionPool := [0, 7]\<rparr>))"
proof (rule reconnect_grows_pool)
  show "Reconnect (DBManager_new\<lparr>poolSize := 1, connectionPool := [7]\<rparr>)
      = Some (True, DBManager_new\<lparr>poolSize := 1, next_conn := 1, connectionPool := [0, 7]\<rparr>)"
    by (simp add: Reconnect_def InitConnectionPool_def DBManager_new_def Let_def CreateConnection_def
        queue_push_def queue_pop_def ValidateConnection_def GetConnection_def ReleaseConnection_def
        select_one_def numeral_3_eq_3)
qed

end
