(* ===== verification/World.thy ===== *)
theory World
  imports Libraries Framing Session_Manager Db_Manager
begin

text \<open>
  The state of the running server, as one record of the states of its components, and the actions by
  which the managers reach them: statements on the database through a pooled connection, the send
  callback, and the session table.

  Each executed statement consumes one entry of \<open>db_script\<close>: \<open>DbOk\<close>, or an \<open>SQLException\<close> that the
  schema does not force, before or after the statement took effect (a lost acknowledgement).  An
  exhausted script means \<open>DbOk\<close>.

  Log output and \<open>std::cout\<close> are left out of the handlers: the logger is a singleton with its own lock
  and no handler reads its state (its own operations are the theory \<open>Server_Logger\<close>).
\<close>

datatype db_outcome = DbOk | DbThrow bool

record server_state =
  serverSocket :: int
  serverPort :: int
  maxConnections :: int
  currentConnections :: int
  running :: bool
  has_dbManager :: bool
  has_threadPool :: bool
  has_sessionManager :: bool
  has_userManager :: bool
  has_friendManager :: bool
  has_messageManager :: bool
  has_monitor :: bool
  has_exceptionHandler :: bool
  um_userDAO :: bool
  um_sendCallback :: bool
  mm_sendCallback :: bool
  sessionMap :: "(int, nat) umap"

record world =
  smgr :: sessions
  cachedFriendLists :: "(string, string list) umap"
  dbase :: database
  dbm :: db_manager
  db_script :: "db_outcome list"
  network :: net_state
  inbox :: "int \<Rightarrow> segments"
  now :: int
  server :: server_state

type_synonym 'a act = "(world, 'a) state"

lemma world_same [simp]:
  "w\<lparr>smgr := smgr w\<rparr> = w" "w\<lparr>network := network w\<rparr> = w" "w\<lparr>dbase := dbase w\<rparr> = w"
  "w\<lparr>dbm := dbm w\<rparr> = w" "w\<lparr>db_script := db_script w\<rparr> = w"
  "w\<lparr>cachedFriendLists := cachedFriendLists w\<rparr> = w" "w\<lparr>server := server w\<rparr> = w"
  by (cases w; simp)+

section \<open>Statements\<close>

definition next_outcome :: "db_outcome act" where
  "next_outcome = State (\<lambda>w. case db_script w of
     [] \<Rightarrow> (DbOk, w) | r # rest \<Rightarrow> (r, w\<lparr>db_script := rest\<rparr>))"

text \<open>\<open>executeUpdate\<close> inside its \<open>try\<close>: false for an exception.\<close>

definition exec_update :: "(database \<Rightarrow> database option) \<Rightarrow> bool act" where
  "exec_update stmt = do {
     r \<leftarrow> next_outcome;
     State (\<lambda>w. case stmt (dbase w) of
         None \<Rightarrow> (False, w)
       | Some d \<Rightarrow> (case r of
             DbOk \<Rightarrow> (True, w\<lparr>dbase := d\<rparr>)
           | DbThrow applied \<Rightarrow> (False, if applied then w\<lparr>dbase := d\<rparr> else w)))
   }"

text \<open>\<open>executeQuery\<close> and the reading of its rows inside its \<open>try\<close>: \<open>None\<close> for an exception.\<close>

definition exec_query :: "(database \<Rightarrow> 'a) \<Rightarrow> 'a option act" where
  "exec_query q = do {
     r \<leftarrow> next_outcome;
     State (\<lambda>w. (case r of DbOk \<Rightarrow> Some (q (dbase w)) | DbThrow _ \<Rightarrow> None, w))
   }"

text \<open>
  The frame that every data access function has: get a connection, give up without one, run the
  statement, release the connection.  (\<open>GetConnection\<close> waits while the pool is empty; a handler
  that is alone never finds it empty: \<open>dispatch_safe\<close> in the theory \<open>Dispatch\<close> shows that the pool is
  whole again after every request.)
\<close>

definition with_connection :: "'a \<Rightarrow> 'a act \<Rightarrow> 'a act" where
  "with_connection fallback body = do {
     conn \<leftarrow> State (\<lambda>w. case GetConnection (dbm w) of
        None \<Rightarrow> (None, w) | Some (c, m) \<Rightarrow> (Some c, w\<lparr>dbm := m\<rparr>));
     case conn of
       None \<Rightarrow> State_Monad.return fallback
     | Some c \<Rightarrow> do {
         r \<leftarrow> body;
         _ \<leftarrow> modify (\<lambda>w. w\<lparr>dbm := ReleaseConnection c (dbm w)\<rparr>);
         State_Monad.return r
       }
   }"

definition dao_update :: "(database \<Rightarrow> database option) \<Rightarrow> bool act" where
  "dao_update stmt = with_connection False (exec_update stmt)"

definition dao_query :: "(database \<Rightarrow> 'a) \<Rightarrow> 'a option act" where
  "dao_query q = with_connection None (exec_query q)"

section \<open>Sockets, sessions and the cache\<close>

definition send_data :: "int \<Rightarrow> string \<Rightarrow> bool act" where
  "send_data sock data = State (\<lambda>w. case SendData sock data (network w) of
     (ok, ns) \<Rightarrow> (ok, w\<lparr>network := ns\<rparr>))"

definition shutdown_socket :: "int \<Rightarrow> unit act" where
  "shutdown_socket sock = modify (\<lambda>w. w\<lparr>network := sys_shutdown sock (network w)\<rparr>)"

definition close_socket :: "int \<Rightarrow> unit act" where
  "close_socket sock = modify (\<lambda>w. w\<lparr>network := sys_close sock (network w)\<rparr>)"

definition get_session :: "int \<Rightarrow> nat option act" where
  "get_session sock = gets (\<lambda>w. GetSession sock (smgr w))"

definition get_session_by_username :: "string \<Rightarrow> nat option act" where
  "get_session_by_username name = gets (\<lambda>w. GetSessionByUsername name (smgr w))"

definition bind_username :: "int \<Rightarrow> string \<Rightarrow> unit act" where
  "bind_username sock name = modify (\<lambda>w. w\<lparr>smgr := BindUsername sock name (smgr w)\<rparr>)"

definition remove_session :: "int \<Rightarrow> unit act" where
  "remove_session sock = modify (\<lambda>w. w\<lparr>smgr := RemoveSession sock (smgr w)\<rparr>)"

text \<open>A getter called through a session pointer, and a setter.\<close>

definition session_get :: "nat \<Rightarrow> (ClientSession \<Rightarrow> 'a) \<Rightarrow> 'a act" where
  "session_get p f = State (\<lambda>w. (f (deref (smgr w) p), w\<lparr>smgr := touch p (smgr w)\<rparr>))"

definition session_set :: "nat \<Rightarrow> (ClientSession \<Rightarrow> ClientSession) \<Rightarrow> unit act" where
  "session_set p f = modify (\<lambda>w. w\<lparr>smgr := update_at p f (smgr w)\<rparr>)"

definition session_touch_heartbeat :: "nat \<Rightarrow> unit act" where
  "session_touch_heartbeat p = do { t \<leftarrow> gets now; session_set p (UpdateHeartbeat t) }"

section \<open>Hoare triples\<close>

definition hoare :: "(world \<Rightarrow> bool) \<Rightarrow> 'a act \<Rightarrow> ('a \<Rightarrow> world \<Rightarrow> bool) \<Rightarrow> bool" where
  "hoare P m Q \<longleftrightarrow> (\<forall>w. P w \<longrightarrow> Q (fst (run_state m w)) (snd (run_state m w)))"

lemma hoareI: "(\<And>w. P w \<Longrightarrow> Q (fst (run_state m w)) (snd (run_state m w))) \<Longrightarrow> hoare P m Q"
  by (simp add: hoare_def)

lemma hoareD: "hoare P m Q \<Longrightarrow> P w \<Longrightarrow> Q (fst (run_state m w)) (snd (run_state m w))"
  by (simp add: hoare_def)

lemma hoare_return: "hoare (Q x) (State_Monad.return x) Q"
  by (simp add: hoare_def)

lemma hoare_bind: "hoare P m Q \<Longrightarrow> (\<And>x. hoare (Q x) (f x) R) \<Longrightarrow> hoare P (State_Monad.bind m f) R"
  by (fastforce simp: hoare_def case_prod_beta)

lemma hoare_pre: "hoare P m Q \<Longrightarrow> (\<And>w. P' w \<Longrightarrow> P w) \<Longrightarrow> hoare P' m Q"
  by (simp add: hoare_def)

lemma hoare_post: "hoare P m Q \<Longrightarrow> (\<And>x w. Q x w \<Longrightarrow> Q' x w) \<Longrightarrow> hoare P m Q'"
  by (simp add: hoare_def)

lemma hoare_modify: "hoare (\<lambda>w. Q () (f w)) (modify f) Q"
  by (simp add: hoare_def)

text \<open>An action that keeps an invariant, whatever it returns.\<close>

definition keeps :: "(world \<Rightarrow> bool) \<Rightarrow> 'a act \<Rightarrow> bool" where
  "keeps I m \<longleftrightarrow> hoare I m (\<lambda>_. I)"

lemma keepsD: "keeps I m \<Longrightarrow> I w \<Longrightarrow> I (snd (run_state m w))"
  by (simp add: keeps_def hoare_def)

lemma keepsI: "(\<And>w. I w \<Longrightarrow> I (snd (run_state m w))) \<Longrightarrow> keeps I m"
  by (simp add: keeps_def hoare_def)

lemma keeps_return: "keeps I (State_Monad.return x)"
  by (simp add: keepsI)

lemma keeps_gets: "keeps I (gets f)"
  by (simp add: keepsI)

lemma keeps_bind: "keeps I m \<Longrightarrow> (\<And>x. keeps I (f x)) \<Longrightarrow> keeps I (State_Monad.bind m f)"
  unfolding keeps_def by (rule hoare_bind)

lemma keeps_bind_fact:
  "hoare I m (\<lambda>x w. I w \<and> F x) \<Longrightarrow> (\<And>x. F x \<Longrightarrow> keeps I (f x)) \<Longrightarrow> keeps I (State_Monad.bind m f)"
  unfolding keeps_def by (rule hoare_bind) (auto simp: hoare_def)

lemma keeps_guarded: "(b \<Longrightarrow> keeps I m) \<Longrightarrow> keeps I (guarded b m)"
  by (auto simp: guarded_def keeps_return)

lemma keeps_if: "(b \<Longrightarrow> keeps I m) \<Longrightarrow> (\<not> b \<Longrightarrow> keeps I n) \<Longrightarrow> keeps I (if b then m else n)"
  by simp

lemma keeps_option:
  "(x = None \<Longrightarrow> keeps I m) \<Longrightarrow> (\<And>y. x = Some y \<Longrightarrow> keeps I (f y))
    \<Longrightarrow> keeps I (case x of None \<Rightarrow> m | Some y \<Rightarrow> f y)"
  by (cases x) auto

lemma keeps_prod: "(\<And>a b. x = (a, b) \<Longrightarrow> keeps I (f a b)) \<Longrightarrow> keeps I (case x of (a, b) \<Rightarrow> f a b)"
  by (cases x) auto

lemma keeps_foreach: "(\<And>x. x \<in> set xs \<Longrightarrow> keeps I (f x)) \<Longrightarrow> keeps I (foreach xs f)"
  by (induction xs) (auto intro!: keeps_bind keeps_return)

lemmas keeps_intros = keeps_return keeps_gets keeps_guarded keeps_if keeps_option keeps_prod
  keeps_foreach

section \<open>Weakest preconditions under arbitrary faults\<close>

text \<open>
  \<open>wp m Q w\<close>: the action \<open>m\<close> started in \<open>w\<close> ends with a result and a state that satisfy \<open>Q\<close>.  For
  a database statement the rules leave the pool, the fault script and the outcome open, so what they
  prove holds for every sequence of database faults.
\<close>

definition wp :: "'a act \<Rightarrow> ('a \<Rightarrow> world \<Rightarrow> bool) \<Rightarrow> world \<Rightarrow> bool" where
  "wp m Q w \<longleftrightarrow> Q (fst (run_state m w)) (snd (run_state m w))"

named_theorems wp_simps \<open>weakest preconditions of deterministic actions\<close>
named_theorems wp_intros \<open>weakest preconditions of statements with an open outcome\<close>

lemma wp_run: "wp m Q w \<Longrightarrow> run_state m w = (r, w') \<Longrightarrow> Q r w'"
  by (simp add: wp_def)

lemma wp_mono: "wp m Q w \<Longrightarrow> (\<And>x w'. Q x w' \<Longrightarrow> Q' x w') \<Longrightarrow> wp m Q' w"
  by (simp add: wp_def)

text \<open>As equations between predicates, so that they apply under a \<open>\<lambda>\<close> too.\<close>

lemma wp_return [wp_simps]: "wp (State_Monad.return x) Q = Q x"
  by (simp add: wp_def fun_eq_iff)

lemma wp_bind [wp_simps]: "wp (State_Monad.bind m f) Q = wp m (\<lambda>x. wp (f x) Q)"
  by (simp add: wp_def case_prod_beta fun_eq_iff)

lemma wp_gets [wp_simps]: "wp (gets f) Q = (\<lambda>w. Q (f w) w)"
  by (simp add: wp_def fun_eq_iff)

lemma wp_modify [wp_simps]: "wp (modify f) Q = (\<lambda>w. Q () (f w))"
  by (simp add: wp_def fun_eq_iff)

lemma wp_guarded [wp_simps]: "wp (guarded b m) Q = (if b then wp m Q else Q ())"
  by (simp add: wp_def fun_eq_iff)

lemma wp_if [wp_simps]: "wp (if b then m else n) Q = (if b then wp m Q else wp n Q)"
  by simp

lemma wp_option [wp_simps]:
  "wp (case x of None \<Rightarrow> m | Some y \<Rightarrow> f y) Q = (case x of None \<Rightarrow> wp m Q | Some y \<Rightarrow> wp (f y) Q)"
  by (simp split: option.splits)

lemma wp_sum [wp_simps]:
  "wp (case z of Inl a \<Rightarrow> f a | Inr b \<Rightarrow> g b) Q = (case z of Inl a \<Rightarrow> wp (f a) Q | Inr b \<Rightarrow> wp (g b) Q)"
  by (simp split: sum.splits)

lemma wp_prod [wp_simps]: "wp (case x of (a, b) \<Rightarrow> f a b) Q = (case x of (a, b) \<Rightarrow> wp (f a b) Q)"
  by (simp split: prod.splits)

lemma dao_query_outcome:
  "\<exists>m s r. run_state (dao_query q) w = (r, w\<lparr>dbm := m, db_script := s\<rparr>) \<and> (r = None \<or> r = Some (q (dbase w)))"
  by (cases w) (auto simp: dao_query_def with_connection_def exec_query_def next_outcome_def
      split: option.splits list.splits db_outcome.splits)

lemma dao_update_outcome:
  "(\<exists>m s. run_state (dao_update stmt) w = (False, w\<lparr>dbm := m, db_script := s\<rparr>))
    \<or> (\<exists>m s d ok. stmt (dbase w) = Some d
         \<and> run_state (dao_update stmt) w = (ok, w\<lparr>dbase := d, dbm := m, db_script := s\<rparr>))"
  by (cases w) (auto simp: dao_update_def with_connection_def exec_update_def next_outcome_def
      split: option.splits list.splits db_outcome.splits)

lemma world_smgr_same [wp_simps]: "smgr w = st \<Longrightarrow> w\<lparr>smgr := st\<rparr> = w"
  by (cases w) simp

lemma wp_dao_query [wp_intros]:
  "(\<And>m s. Q None (w\<lparr>dbm := m, db_script := s\<rparr>))
    \<Longrightarrow> (\<And>m s. Q (Some (q (dbase w))) (w\<lparr>dbm := m, db_script := s\<rparr>)) \<Longrightarrow> wp (dao_query q) Q w"
  using dao_query_outcome[of q w] by (auto simp: wp_def)

lemma wp_dao_update [wp_intros]:
  "(\<And>m s. Q False (w\<lparr>dbm := m, db_script := s\<rparr>))
    \<Longrightarrow> (\<And>m s d ok. stmt (dbase w) = Some d \<Longrightarrow> Q ok (w\<lparr>dbase := d, dbm := m, db_script := s\<rparr>))
    \<Longrightarrow> wp (dao_update stmt) Q w"
  using dao_update_outcome[of stmt w] by (auto simp: wp_def)

lemma wp_send_data [wp_intros]:
  "(\<And>ok ns chunks. events ns = events (network w) @ map (Sent sock) chunks \<Longrightarrow> Q ok (w\<lparr>network := ns\<rparr>))
    \<Longrightarrow> wp (send_data sock data) Q w"
  using SendData_prefix[of sock data "network w"] by (auto simp: wp_def send_data_def split: prod.splits)

lemma wp_session_access [wp_simps]:
  "wp (get_session sock) Q = (\<lambda>w. Q (GetSession sock (smgr w)) w)"
  "wp (get_session_by_username name) Q = (\<lambda>w. Q (GetSessionByUsername name (smgr w)) w)"
  "wp (bind_username sock name) R = (\<lambda>w. R () (w\<lparr>smgr := BindUsername sock name (smgr w)\<rparr>))"
  "wp (remove_session sock) R = (\<lambda>w. R () (w\<lparr>smgr := RemoveSession sock (smgr w)\<rparr>))"
  "wp (session_get p f) S = (\<lambda>w. S (f (deref (smgr w) p)) (w\<lparr>smgr := touch p (smgr w)\<rparr>))"
  "wp (session_set p g) R = (\<lambda>w. R () (w\<lparr>smgr := update_at p g (smgr w)\<rparr>))"
  "wp (session_touch_heartbeat p) R = (\<lambda>w. R () (w\<lparr>smgr := update_at p (UpdateHeartbeat (now w)) (smgr w)\<rparr>))"
  "wp (shutdown_socket sock) R = (\<lambda>w. R () (w\<lparr>network := sys_shutdown sock (network w)\<rparr>))"
  "wp (close_socket sock) R = (\<lambda>w. R () (w\<lparr>network := sys_close sock (network w)\<rparr>))"
  by (simp_all add: wp_def fun_eq_iff get_session_def get_session_by_username_def bind_username_def
      remove_session_def session_get_def session_set_def session_touch_heartbeat_def
      shutdown_socket_def close_socket_def)

text \<open>A loop keeps what each round keeps.\<close>

lemma wp_foreach:
  assumes "I w" and "\<And>x w. x \<in> set xs \<Longrightarrow> I w \<Longrightarrow> wp (f x) (\<lambda>_. I) w" and "\<And>w. I w \<Longrightarrow> Q () w"
  shows "wp (foreach xs f) Q w"
  using assms(1,2)
proof (induction xs arbitrary: w)
  case Nil
  then show ?case using assms(3) by (simp add: wp_return)
next
  case (Cons x xs)
  from Cons.prems have "wp (f x) (\<lambda>_. I) w" by simp
  then show ?case unfolding foreach.simps wp_bind
    by (rule wp_mono) (use Cons in auto)
qed

text \<open>A loop with an invariant that speaks about the elements it has visited.\<close>

lemma wp_foreach_prefix:
  assumes "I [] w"
    and "\<And>ys x w. prefix (ys @ [x]) xs \<Longrightarrow> I ys w \<Longrightarrow> wp (f x) (\<lambda>_. I (ys @ [x])) w"
    and "\<And>w. I xs w \<Longrightarrow> Q () w"
  shows "wp (foreach xs f) Q w"
proof -
  have "wp (foreach zs f) Q w" if "ys @ zs = xs" "I ys w" for ys zs w
    using that
  proof (induction zs arbitrary: ys w)
    case Nil
    then show ?case using assms(3) by (simp add: wp_return)
  next
    case (Cons z zs)
    have "prefix (ys @ [z]) xs" using Cons.prems(1) by (auto simp: prefix_def)
    from assms(2)[OF this Cons.prems(2)] have "wp (f z) (\<lambda>_. I (ys @ [z])) w" .
    then show ?case unfolding foreach.simps wp_bind
      by (rule wp_mono) (use Cons.IH[of "ys @ [z]"] Cons.prems(1) in simp)
  qed
  from this[of "[]" xs w] assms(1) show ?thesis by simp
qed

section \<open>Runs without faults\<close>

text \<open>
  \<open>calm\<close> worlds have a non-empty pool and empty fault scripts.  There a statement is just its
  function; the pool is rotated by one.
\<close>

definition rotate_pool :: "world \<Rightarrow> world" where
  "rotate_pool w = (case GetConnection (dbm w) of
     None \<Rightarrow> w | Some (c, m) \<Rightarrow> w\<lparr>dbm := ReleaseConnection c m\<rparr>)"

definition calm :: "world \<Rightarrow> bool" where
  "calm w \<longleftrightarrow> connectionPool (dbm w) \<noteq> [] \<and> db_script w = [] \<and> send_script (network w) = []"

lemma rotate_pool_simps [simp]:
  "dbase (rotate_pool w) = dbase w" "smgr (rotate_pool w) = smgr w"
  "cachedFriendLists (rotate_pool w) = cachedFriendLists w" "network (rotate_pool w) = network w"
  "inbox (rotate_pool w) = inbox w" "now (rotate_pool w) = now w" "server (rotate_pool w) = server w"
  "db_script (rotate_pool w) = db_script w"
  by (simp_all add: rotate_pool_def split: option.splits)

lemma rotate_pool_pool:
  "mset (connectionPool (dbm (rotate_pool w))) = mset (connectionPool (dbm w))"
  "connectionPool (dbm (rotate_pool w)) = [] \<longleftrightarrow> connectionPool (dbm w) = []"
  using get_release(1)[of "dbm w"] GetConnection_None[of "dbm w"]
  by (auto simp: rotate_pool_def ReleaseConnection_def queue_push_def split: option.splits)

lemma calm_rotate [simp]: "calm (rotate_pool w) = calm w"
  by (simp add: calm_def rotate_pool_pool)

lemma calm_updates [simp]:
  "calm (w\<lparr>dbase := d\<rparr>) = calm w" "calm (w\<lparr>smgr := s\<rparr>) = calm w"
  "calm (w\<lparr>cachedFriendLists := c\<rparr>) = calm w" "calm (w\<lparr>server := sv\<rparr>) = calm w"
  by (simp_all add: calm_def)

lemma run_send_data_calm:
  "calm w \<Longrightarrow> length data < 2 ^ 30 \<Longrightarrow> run_state (send_data sock data) w
    = (True, w\<lparr>network := (network w)\<lparr>events := events (network w) @ [Sent sock (PackageMessage data)]\<rparr>\<rparr>)"
  by (simp add: send_data_def calm_def SendData_whole)

lemma calm_network [simp]: "calm w \<Longrightarrow> send_script ns = [] \<Longrightarrow> calm (w\<lparr>network := ns\<rparr>)"
  by (simp add: calm_def)

lemma calm_send_script: "calm w \<Longrightarrow> send_script (network w) = []"
  by (simp add: calm_def)

lemma close_send_script [simp]:
  "send_script (sys_shutdown sock ns) = send_script ns" "send_script (sys_close sock ns) = send_script ns"
  by (simp_all add: sys_shutdown_def sys_close_def)

lemma run_dao_update_calm:
  "calm w \<Longrightarrow> run_state (dao_update stmt) w =
     (case stmt (dbase w) of None \<Rightarrow> (False, rotate_pool w) | Some d \<Rightarrow> (True, (rotate_pool w)\<lparr>dbase := d\<rparr>))"
  using GetConnection_None[of "dbm w"]
  by (auto simp: calm_def dao_update_def with_connection_def exec_update_def next_outcome_def
      rotate_pool_def split: option.splits)

lemma run_dao_query_calm:
  "calm w \<Longrightarrow> run_state (dao_query q) w = (Some (q (dbase w)), rotate_pool w)"
  using GetConnection_None[of "dbm w"]
  by (auto simp: calm_def dao_query_def with_connection_def exec_query_def next_outcome_def
      rotate_pool_def split: option.splits)

lemma run_dao_query_world:
  "dbase (snd (run_state (dao_query q) w)) = dbase w"
  "smgr (snd (run_state (dao_query q) w)) = smgr w"
  "network (snd (run_state (dao_query q) w)) = network w"
  "cachedFriendLists (snd (run_state (dao_query q) w)) = cachedFriendLists w"
  "server (snd (run_state (dao_query q) w)) = server w" "now (snd (run_state (dao_query q) w)) = now w"
  "inbox (snd (run_state (dao_query q) w)) = inbox w"
  by (auto simp: dao_query_def with_connection_def exec_query_def next_outcome_def
      split: option.splits list.splits db_outcome.splits)

lemma run_dao_query_result:
  "fst (run_state (dao_query q) w) = None \<or> fst (run_state (dao_query q) w) = Some (q (dbase w))"
  by (auto simp: dao_query_def with_connection_def exec_query_def next_outcome_def
      split: option.splits list.splits db_outcome.splits)

text \<open>What a data access update can do under any fault: nothing, or the statement.\<close>

lemma run_dao_update_cases:
  "(\<exists>d. stmt (dbase w) = Some d \<and> dbase (snd (run_state (dao_update stmt) w)) = d)
    \<or> (fst (run_state (dao_update stmt) w) = False \<and> dbase (snd (run_state (dao_update stmt) w)) = dbase w)"
  by (auto simp: dao_update_def with_connection_def exec_update_def next_outcome_def
      split: option.splits list.splits db_outcome.splits)

lemma run_dao_update_world:
  "smgr (snd (run_state (dao_update stmt) w)) = smgr w"
  "network (snd (run_state (dao_update stmt) w)) = network w"
  "cachedFriendLists (snd (run_state (dao_update stmt) w)) = cachedFriendLists w"
  "server (snd (run_state (dao_update stmt) w)) = server w" "now (snd (run_state (dao_update stmt) w)) = now w"
  "inbox (snd (run_state (dao_update stmt) w)) = inbox w"
  by (auto simp: dao_update_def with_connection_def exec_update_def next_outcome_def
      split: option.splits list.splits db_outcome.splits)

lemma dao_pool_kept:
  "mset (connectionPool (dbm (snd (run_state (dao_update stmt) w)))) = mset (connectionPool (dbm w))"
  "mset (connectionPool (dbm (snd (run_state (dao_query q) w)))) = mset (connectionPool (dbm w))"
  using get_release(1)[of "dbm w"]
  by (auto simp: dao_update_def dao_query_def with_connection_def exec_update_def exec_query_def
      next_outcome_def split: option.splits list.splits db_outcome.splits)

named_theorems calm_wp \<open>weakest preconditions in calm worlds\<close>

lemmas [calm_wp] = calm_send_script

lemma wp_dao_query_calm [calm_wp]: "calm w \<Longrightarrow> wp (dao_query q) Q w \<longleftrightarrow> Q (Some (q (dbase w))) (rotate_pool w)"
  by (simp add: wp_def run_dao_query_calm)

lemma wp_dao_update_calm [calm_wp]:
  "calm w \<Longrightarrow> wp (dao_update stmt) Q w \<longleftrightarrow> (case stmt (dbase w) of
     None \<Rightarrow> Q False (rotate_pool w) | Some d \<Rightarrow> Q True ((rotate_pool w)\<lparr>dbase := d\<rparr>))"
  by (simp add: wp_def run_dao_update_calm split: option.splits)

lemma wp_send_data_calm [calm_wp]:
  "calm w \<Longrightarrow> length data < 2 ^ 30 \<Longrightarrow> wp (send_data sock data) Q w
    \<longleftrightarrow> Q True (w\<lparr>network := (network w)\<lparr>events := events (network w) @ [Sent sock (PackageMessage data)]\<rparr>\<rparr>)"
  by (simp add: wp_def run_send_data_calm)

end
