(* ===== verification/User_Dao.thy ===== *)
theory User_Dao
  imports World
begin

text \<open>
  The data access object for users, \<^verbatim>\<open>src/src/system/user_dao.cpp\<close>.  Output parameters that are set
  only when the function returns true are the payload of an \<open>option\<close>.
\<close>

definition row_found :: "'a option option \<Rightarrow> 'a option" where
  "row_found r = (case r of Some (Some x) \<Rightarrow> Some x | _ \<Rightarrow> None)"

lemma row_found_simps [simp]:
  "row_found None = None" "row_found (Some x) = x"
  by (auto simp: row_found_def split: option.splits)

definition InsertUser :: "libs \<Rightarrow> string \<Rightarrow> string \<Rightarrow> bool act" where
  "InsertUser L name passwordHash = dao_update (sql_insert_user (mysql_of L) name passwordHash)"

definition GetUserByUsername :: "libs \<Rightarrow> string \<Rightarrow> (int \<times> string) option act" where
  "GetUserByUsername L name = do {
     r \<leftarrow> dao_query (sql_user_by_name (mysql_of L) name);
     State_Monad.return (map_option (\<lambda>row. (u_id row, u_hash row)) (row_found r))
   }"

definition UpdateUsername :: "libs \<Rightarrow> int \<Rightarrow> string \<Rightarrow> bool act" where
  "UpdateUsername L userId newUsername = dao_update (sql_update_username (mysql_of L) userId newUsername)"

definition UpdatePassword :: "int \<Rightarrow> string \<Rightarrow> bool act" where
  "UpdatePassword userId newPasswordHash = dao_update (sql_update_password userId newPasswordHash)"

definition UpdateOnlineStatus :: "int \<Rightarrow> bool \<Rightarrow> bool act" where
  "UpdateOnlineStatus userId isOnline = dao_update (sql_update_online userId isOnline)"

definition UpdateLastLoginTime :: "int \<Rightarrow> bool act" where
  "UpdateLastLoginTime userId = do {
     t \<leftarrow> gets now;
     dao_update (sql_update_last_login userId t)
   }"

definition CheckUsernameExists :: "libs \<Rightarrow> string \<Rightarrow> bool act" where
  "CheckUsernameExists L name = do {
     r \<leftarrow> dao_query (sql_count_username (mysql_of L) name);
     State_Monad.return (case r of Some n \<Rightarrow> 0 < n | None \<Rightarrow> False)
   }"

definition GetUserOnlineStatus :: "int \<Rightarrow> bool option act" where
  "GetUserOnlineStatus userId = do {
     r \<leftarrow> dao_query (sql_user_by_id userId);
     State_Monad.return (map_option u_online (row_found r))
   }"

definition UpdateOnlineStatusByUsername :: "libs \<Rightarrow> string \<Rightarrow> bool \<Rightarrow> bool act" where
  "UpdateOnlineStatusByUsername L name isOnline =
     dao_update (sql_update_online_by_name (mysql_of L) name isOnline)"

definition GetUserIdByUsername :: "libs \<Rightarrow> string \<Rightarrow> int option act" where
  "GetUserIdByUsername L name = do {
     r \<leftarrow> dao_query (sql_user_by_name (mysql_of L) name);
     State_Monad.return (map_option u_id (row_found r))
   }"

definition GetFriendsOfUser :: "libs \<Rightarrow> int \<Rightarrow> (string \<times> bool) list option act" where
  "GetFriendsOfUser L userId = dao_query (sql_friend_list (mysql_of L) userId)"

end
