(* ===== verification/Friend_Dao.thy ===== *)
theory Friend_Dao
  imports World
begin

text \<open>The data access object for friendships, \<^verbatim>\<open>src/src/system/friend_dao.cpp\<close>.\<close>

definition InsertFriend :: "int \<Rightarrow> int \<Rightarrow> bool act" where
  "InsertFriend userId1 userId2 = dao_update (sql_insert_friend userId1 userId2)"

definition DeleteFriend :: "int \<Rightarrow> int \<Rightarrow> bool act" where
  "DeleteFriend userId1 userId2 = dao_update (sql_delete_friend userId1 userId2)"

definition DeleteMessagesBetweenUsers :: "int \<Rightarrow> int \<Rightarrow> bool act" where
  "DeleteMessagesBetweenUsers userId1 userId2 = dao_update (sql_delete_messages userId1 userId2)"

definition CheckFriendship_dao :: "int \<Rightarrow> int \<Rightarrow> bool act" where
  "CheckFriendship_dao userId1 userId2 = do {
     r \<leftarrow> dao_query (sql_count_friends userId1 userId2);
     State_Monad.return (case r of Some n \<Rightarrow> 0 < n | None \<Rightarrow> False)
   }"

definition GetFriendList :: "libs \<Rightarrow> int \<Rightarrow> (string \<times> bool) list option act" where
  "GetFriendList L userId = dao_query (sql_friend_list (mysql_of L) userId)"

end
