(* ===== verification/Message_Dao.thy ===== *)
theory Message_Dao
  imports World
begin

text \<open>
  The data access object for messages, \<^verbatim>\<open>src/src/system/message_dao.cpp\<close>, with the \<open>Message\<close> structure
  of its header.
\<close>

record message =
  messageId :: int
  senderId :: int
  receiverId :: int
  senderUsername :: string
  receiverUsername :: string
  content_of :: string
  sendTime :: string
  isRead :: bool

definition to_message :: "libs \<Rightarrow> message_row \<times> string \<times> string \<Rightarrow> message" where
  "to_message L row = (case row of (m, sender, receiver) \<Rightarrow>
     \<lparr>messageId = m_id m, senderId = m_sender m, receiverId = m_receiver m,
      senderUsername = sender, receiverUsername = receiver, content_of = m_content m,
      sendTime = datetime_text (mysql_of L) (m_time m), isRead = m_read m\<rparr>)"

definition InsertMessage :: "int \<Rightarrow> int \<Rightarrow> string \<Rightarrow> bool act" where
  "InsertMessage sender receiver content = do {
     t \<leftarrow> gets now;
     dao_update (sql_insert_message t sender receiver content)
   }"

definition GetUnreadMessages :: "libs \<Rightarrow> int \<Rightarrow> message list option act" where
  "GetUnreadMessages L userId = do {
     r \<leftarrow> dao_query (sql_unread_messages (mysql_of L) userId);
     State_Monad.return (map_option (map (to_message L)) r)
   }"

definition MarkMessagesAsRead :: "int \<Rightarrow> int \<Rightarrow> bool act" where
  "MarkMessagesAsRead sender receiver = dao_update (sql_mark_read sender receiver)"

definition GetHistoryMessages :: "libs \<Rightarrow> int \<Rightarrow> int \<Rightarrow> int \<Rightarrow> message list option act" where
  "GetHistoryMessages L userId1 userId2 n = do {
     r \<leftarrow> dao_query (sql_history_messages (mysql_of L) userId1 userId2 (nat n));
     State_Monad.return (map_option (map (to_message L)) r)
   }"

end
