(* ===== verification/Handler_Logic.thy ===== *)
theory Handler_Logic
  imports User_Dao Friend_Dao Message_Dao
begin

text \<open>
  The interface between the managers and everything they call.  A manager reaches the rest of the
  server only through database statements of the schema, the send callback, \<open>shutdown\<close>, the session
  table and the friend cache.  The locale \<open>handler_inv\<close> says that an invariant survives each of these;
  the managers' theories extend it with one lemma per handler, so each handler is analysed once.  It
  is interpreted below on the invariants of the model: the schema's constraints, memory safety of
  the session pointers, conservation of the connection pool, and growth of the event list.

  \<open>Ptrs\<close> is the set of session pointers that are live while the handler runs.
\<close>

definition cache_put :: "string \<Rightarrow> string list \<Rightarrow> unit act" where
  "cache_put name names = modify (\<lambda>w. w\<lparr>cachedFriendLists := umap_set name names (cachedFriendLists w)\<rparr>)"

definition cache_erase :: "string \<Rightarrow> unit act" where
  "cache_erase name = modify (\<lambda>w. w\<lparr>cachedFriendLists := umap_erase name (cachedFriendLists w)\<rparr>)"

lemma run_dao_query_same:
  "snd (run_state (dao_query q) w) = snd (run_state (dao_query q') w)"
  by (auto simp: dao_query_def with_connection_def exec_query_def next_outcome_def
      split: option.splits list.splits)

locale handler_inv =
  fixes Q :: mysql and I :: "world \<Rightarrow> bool" and Ptrs :: "nat set"
  assumes keeps_update: "is_update Q stmt \<Longrightarrow> keeps I (dao_update stmt)"
    and keeps_query_unit: "keeps I (dao_query (\<lambda>_. ()))"
    and keeps_send: "keeps I (send_data sock data)"
    and keeps_shutdown: "keeps I (shutdown_socket sock)"
    and live_session: "hoare I (get_session sock) (\<lambda>r w. I w \<and> (\<forall>p. r = Some p \<longrightarrow> p \<in> Ptrs))"
    and live_session_by_username:
      "hoare I (get_session_by_username name) (\<lambda>r w. I w \<and> (\<forall>p. r = Some p \<longrightarrow> p \<in> Ptrs))"
    and keeps_session_get_unit: "p \<in> Ptrs \<Longrightarrow> keeps I (session_get p (\<lambda>_. ()))"
    and keeps_set_username: "p \<in> Ptrs \<Longrightarrow> keeps I (session_set p (SetUsername n))"
    and keeps_set_heartbeat: "p \<in> Ptrs \<Longrightarrow> keeps I (session_set p (UpdateHeartbeat t))"
    and keeps_bind_username: "keeps I (bind_username sock name)"
    and keeps_cache_put: "keeps I (cache_put name names)"
    and keeps_cache_erase: "keeps I (cache_erase name)"
begin

text \<open>What a query or a getter returns has no influence on the state it leaves.\<close>

lemma keeps_query: "keeps I (dao_query q)"
  using keeps_query_unit run_dao_query_same[of q _ "\<lambda>_. ()"] by (simp add: keeps_def hoare_def)

lemma keeps_session_get: "p \<in> Ptrs \<Longrightarrow> keeps I (session_get p f)"
  using keeps_session_get_unit by (simp add: keeps_def hoare_def session_get_def)

lemma keeps_get_session:
  "(\<And>r. (\<And>p. r = Some p \<Longrightarrow> p \<in> Ptrs) \<Longrightarrow> keeps I (f r)) \<Longrightarrow> keeps I (State_Monad.bind (get_session sock) f)"
  by (rule keeps_bind_fact[OF live_session]) auto

lemma keeps_get_session_by_username:
  "(\<And>r. (\<And>p. r = Some p \<Longrightarrow> p \<in> Ptrs) \<Longrightarrow> keeps I (f r))
    \<Longrightarrow> keeps I (State_Monad.bind (get_session_by_username name) f)"
  by (rule keeps_bind_fact[OF live_session_by_username]) auto

lemma keeps_heartbeat: "p \<in> Ptrs \<Longrightarrow> keeps I (session_touch_heartbeat p)"
  by (auto simp: session_touch_heartbeat_def intro!: keeps_bind keeps_gets keeps_set_heartbeat)

lemmas handler_intros = keeps_get_session keeps_get_session_by_username keeps_intros
  keeps_query keeps_send keeps_shutdown keeps_session_get keeps_set_username keeps_heartbeat
  keeps_bind_username keeps_cache_put keeps_cache_erase

lemmas update_intros = keeps_update is_update.intros

end

text \<open>The data access functions in terms of the interface.\<close>

context handler_inv begin

lemma keeps_user_dao:
  assumes "mysql_of L = Q"
  shows "keeps I (InsertUser L n h)" "keeps I (GetUserByUsername L n)" "keeps I (UpdateUsername L uid n)"
    "keeps I (CheckUsernameExists L n)" "keeps I (UpdateOnlineStatusByUsername L n b)"
    "keeps I (GetUserIdByUsername L n)" "keeps I (GetFriendsOfUser L uid)"
  unfolding InsertUser_def GetUserByUsername_def UpdateUsername_def CheckUsernameExists_def
    UpdateOnlineStatusByUsername_def GetUserIdByUsername_def GetFriendsOfUser_def assms
  by (auto intro!: keeps_bind keeps_intros keeps_query update_intros)

lemma keeps_user_dao_by_id:
  "keeps I (UpdatePassword uid h)" "keeps I (UpdateOnlineStatus uid b)" "keeps I (UpdateLastLoginTime uid)"
  "keeps I (GetUserOnlineStatus uid)"
  unfolding UpdatePassword_def UpdateOnlineStatus_def UpdateLastLoginTime_def GetUserOnlineStatus_def
  by (auto intro!: keeps_bind keeps_intros keeps_query update_intros)

lemma keeps_friend_dao:
  "keeps I (InsertFriend a b)" "keeps I (DeleteFriend a b)" "keeps I (DeleteMessagesBetweenUsers a b)"
  "keeps I (CheckFriendship_dao a b)" "keeps I (GetFriendList L uid)"
  unfolding InsertFriend_def DeleteFriend_def DeleteMessagesBetweenUsers_def CheckFriendship_dao_def
    GetFriendList_def
  by (auto intro!: keeps_bind keeps_intros keeps_query update_intros)

lemma keeps_message_dao:
  "keeps I (InsertMessage a b c)" "keeps I (GetUnreadMessages L uid)" "keeps I (MarkMessagesAsRead a b)"
  "keeps I (GetHistoryMessages L a b n)"
  unfolding InsertMessage_def GetUnreadMessages_def MarkMessagesAsRead_def GetHistoryMessages_def
  by (auto intro!: keeps_bind keeps_intros keeps_query update_intros)

lemmas keeps_dao = keeps_user_dao keeps_user_dao_by_id keeps_friend_dao keeps_message_dao

end

section \<open>Interpretations\<close>

lemma run_get_session [simp]: "run_state (get_session sock) w = (GetSession sock (smgr w), w)"
  by (simp add: get_session_def)

lemma run_get_session_by_username [simp]:
  "run_state (get_session_by_username name) w = (GetSessionByUsername name (smgr w), w)"
  by (simp add: get_session_by_username_def)

lemma run_session_get [simp]:
  "run_state (session_get p f) w = (f (deref (smgr w) p), w\<lparr>smgr := touch p (smgr w)\<rparr>)"
  by (simp add: session_get_def)

lemma run_session_set [simp]:
  "run_state (session_set p f) w = ((), w\<lparr>smgr := update_at p f (smgr w)\<rparr>)"
  by (simp add: session_set_def)

lemma run_bind_username [simp]:
  "run_state (bind_username sock name) w = ((), w\<lparr>smgr := BindUsername sock name (smgr w)\<rparr>)"
  by (simp add: bind_username_def)

lemma run_shutdown_socket [simp]:
  "run_state (shutdown_socket sock) w = ((), w\<lparr>network := sys_shutdown sock (network w)\<rparr>)"
  by (simp add: shutdown_socket_def)

lemma run_cache_put [simp]:
  "run_state (cache_put name names) w
    = ((), w\<lparr>cachedFriendLists := umap_set name names (cachedFriendLists w)\<rparr>)"
  by (simp add: cache_put_def)

lemma run_cache_erase [simp]:
  "run_state (cache_erase name) w = ((), w\<lparr>cachedFriendLists := umap_erase name (cachedFriendLists w)\<rparr>)"
  by (simp add: cache_erase_def)

lemma run_send_data_world [simp]:
  "dbase (snd (run_state (send_data sock data) w)) = dbase w"
  "smgr (snd (run_state (send_data sock data) w)) = smgr w"
  "cachedFriendLists (snd (run_state (send_data sock data) w)) = cachedFriendLists w"
  "dbm (snd (run_state (send_data sock data) w)) = dbm w"
  "db_script (snd (run_state (send_data sock data) w)) = db_script w"
  "server (snd (run_state (send_data sock data) w)) = server w"
  "now (snd (run_state (send_data sock data) w)) = now w"
  "inbox (snd (run_state (send_data sock data) w)) = inbox w"
  by (simp_all add: send_data_def split: prod.splits)

lemma run_send_data_network:
  "network (snd (run_state (send_data sock data) w)) = snd (SendData sock data (network w))"
  "fst (run_state (send_data sock data) w) = fst (SendData sock data (network w))"
  by (simp_all add: send_data_def split: prod.splits)

lemma hoare_simpleI:
  "(\<And>w. I w \<Longrightarrow> Q (fst (run_state m w)) (snd (run_state m w))) \<Longrightarrow> hoare I m Q"
  by (rule hoareI)

lemma keeps_db_update:
  assumes "is_update Q stmt"
  shows "keeps (\<lambda>w. db_ok Q (dbase w)) (dao_update stmt)"
  using run_dao_update_cases[of stmt] db_ok_is_update[OF assms] by (fastforce intro!: keepsI)

interpretation schema: handler_inv Q "\<lambda>w. db_ok Q (dbase w)" UNIV for Q
  by unfold_locales
    (auto intro!: keepsI hoareI keepsD[OF keeps_db_update] simp: run_dao_query_world)

definition live_ptrs :: "(int, nat) umap \<Rightarrow> nat set" where
  "live_ptrs m = {p. \<exists>sock. umap_find m sock = Some p}"

definition safe_sessions :: "(int, nat) umap \<Rightarrow> world \<Rightarrow> bool" where
  "safe_sessions m w \<longleftrightarrow> sessions_ok (smgr w) \<and> cliSessionMap (smgr w) = m"

lemma safe_touch: "safe_sessions m w \<Longrightarrow> p \<in> live_ptrs m \<Longrightarrow> touch p (smgr w) = smgr w"
  by (auto simp: safe_sessions_def live_ptrs_def dest: sessions_ok_touch)

lemma safe_set:
  "safe_sessions m w \<Longrightarrow> p \<in> live_ptrs m \<Longrightarrow> (\<And>c. socket (f c) = socket c)
    \<Longrightarrow> safe_sessions m (w\<lparr>smgr := update_at p f (smgr w)\<rparr>)"
  by (auto simp: safe_sessions_def live_ptrs_def intro!: sessions_ok_update_at)

lemma safe_sessions_fields:
  "smgr w' = smgr w \<Longrightarrow> safe_sessions m w' = safe_sessions m w"
  by (simp add: safe_sessions_def)

lemma safe_sessions_bind:
  "safe_sessions m w \<Longrightarrow> safe_sessions m (w\<lparr>smgr := BindUsername sock name (smgr w)\<rparr>)"
  by (simp add: safe_sessions_def sessions_ok_BindUsername) (simp add: BindUsername_def)

interpretation memory: handler_inv Q "safe_sessions m" "live_ptrs m" for Q m
proof unfold_locales
  show "hoare (safe_sessions m) (get_session_by_username name)
      (\<lambda>r w. safe_sessions m w \<and> (\<forall>p. r = Some p \<longrightarrow> p \<in> live_ptrs m))" for name
    by (rule hoareI) (auto simp: safe_sessions_def live_ptrs_def dest: GetSessionByUsername_mem)
  show "hoare (safe_sessions m) (get_session sock)
      (\<lambda>r w. safe_sessions m w \<and> (\<forall>p. r = Some p \<longrightarrow> p \<in> live_ptrs m))" for sock
    by (rule hoareI) (auto simp: safe_sessions_def live_ptrs_def GetSession_def)
  show "keeps (safe_sessions m) (session_set p (SetUsername n))" if "p \<in> live_ptrs m" for p n
    by (rule keepsI) (simp add: safe_set that)
  show "keeps (safe_sessions m) (session_set p (UpdateHeartbeat t))" if "p \<in> live_ptrs m" for p t
    by (rule keepsI) (simp add: safe_set that)
qed (auto intro!: keepsI intro: safe_sessions_bind safe_sessions_fields[THEN iffD2]
      simp: safe_touch run_dao_update_world run_dao_query_world)

interpretation pool: handler_inv Q "\<lambda>w. mset (connectionPool (dbm w)) = M" UNIV for Q M
  by unfold_locales (auto intro!: keepsI hoareI simp: dao_pool_kept)

interpretation trace: handler_inv Q "\<lambda>w. prefix evs (events (network w))" UNIV for Q evs
proof unfold_locales
  show "keeps (\<lambda>w. prefix evs (events (network w))) (send_data sock data)" for sock data
  proof (rule keepsI)
    fix w :: world assume "prefix evs (events (network w))"
    with SendData_prefix[of sock data "network w"]
    show "prefix evs (events (network (snd (run_state (send_data sock data) w))))"
      by (auto simp: run_send_data_network prefix_def)
  qed
qed (auto intro!: keepsI hoareI simp: run_dao_update_world run_dao_query_world sys_shutdown_def)

text \<open>A world without faults stays one.\<close>

interpretation quiet: handler_inv Q calm UNIV for Q
proof unfold_locales
  show "keeps calm (dao_update stmt)" if "is_update Q stmt" for stmt
    by (rule keepsI) (simp add: run_dao_update_calm split: option.splits)
  show "keeps calm (send_data sock data)" for sock data
  proof (rule keepsI)
    fix w :: world
    assume "calm w"
    then have "send_script (snd (SendData sock data (network w))) = []"
      by (simp add: SendData_script calm_def)
    with \<open>calm w\<close> show "calm (snd (run_state (send_data sock data) w))"
      by (simp add: send_data_def case_prod_beta)
  qed
qed (auto intro!: keepsI hoareI simp: run_dao_query_calm calm_send_script)

section \<open>Verification conditions of the data access functions\<close>

lemmas dao_defs = InsertUser_def GetUserByUsername_def UpdateUsername_def UpdatePassword_def
  UpdateOnlineStatus_def UpdateLastLoginTime_def CheckUsernameExists_def GetUserOnlineStatus_def
  UpdateOnlineStatusByUsername_def GetUserIdByUsername_def GetFriendsOfUser_def InsertFriend_def
  DeleteFriend_def DeleteMessagesBetweenUsers_def CheckFriendship_dao_def GetFriendList_def
  InsertMessage_def GetUnreadMessages_def MarkMessagesAsRead_def GetHistoryMessages_def

lemmas [wp_simps] = dao_defs cache_put_def cache_erase_def

section \<open>The data access functions without faults\<close>

named_theorems calm_simps \<open>data access functions in calm worlds\<close>

lemma run_queries_calm [calm_simps]:
  assumes "calm w"
  shows "run_state (GetUserByUsername L n) w
      = (map_option (\<lambda>r. (u_id r, u_hash r)) (sql_user_by_name (mysql_of L) n (dbase w)), rotate_pool w)"
    and "run_state (GetUserIdByUsername L n) w
      = (map_option u_id (sql_user_by_name (mysql_of L) n (dbase w)), rotate_pool w)"
    and "run_state (GetUserOnlineStatus uid) w
      = (map_option u_online (sql_user_by_id uid (dbase w)), rotate_pool w)"
    and "run_state (CheckUsernameExists L n) w = (0 < sql_count_username (mysql_of L) n (dbase w), rotate_pool w)"
    and "run_state (GetFriendsOfUser L uid) w = (Some (sql_friend_list (mysql_of L) uid (dbase w)), rotate_pool w)"
    and "run_state (GetFriendList L uid) w = (Some (sql_friend_list (mysql_of L) uid (dbase w)), rotate_pool w)"
    and "run_state (CheckFriendship_dao a b) w = (0 < sql_count_friends a b (dbase w), rotate_pool w)"
    and "run_state (GetUnreadMessages L uid) w
      = (Some (map (to_message L) (sql_unread_messages (mysql_of L) uid (dbase w))), rotate_pool w)"
    and "run_state (GetHistoryMessages L a b k) w
      = (Some (map (to_message L) (sql_history_messages (mysql_of L) a b (nat k) (dbase w))), rotate_pool w)"
  using assms by (simp_all add: dao_defs run_dao_query_calm)

lemma run_updates_calm [calm_simps]:
  assumes "calm w"
  shows "run_state (UpdateOnlineStatus uid b) w
      = (True, (rotate_pool w)\<lparr>dbase := map_users (\<lambda>r. u_id r = uid) (\<lambda>r. r\<lparr>u_online := b\<rparr>) (dbase w)\<rparr>)"
    and "run_state (UpdateLastLoginTime uid) w
      = (True, (rotate_pool w)\<lparr>dbase := map_users (\<lambda>r. u_id r = uid) (\<lambda>r. r\<lparr>u_last_login := Some (now w)\<rparr>) (dbase w)\<rparr>)"
    and "run_state (UpdateOnlineStatusByUsername L n b) w
      = (True, (rotate_pool w)\<lparr>dbase := map_users (\<lambda>r. same_name (mysql_of L) (u_name r) n) (\<lambda>r. r\<lparr>u_online := b\<rparr>) (dbase w)\<rparr>)"
  using assms
  by (simp_all add: dao_defs run_dao_update_calm sql_update_online_def sql_update_last_login_def
      sql_update_online_by_name_def)

text \<open>The statements that the schema can refuse.\<close>

lemma run_checked_updates_calm:
  assumes "calm w"
  shows "run_state (InsertUser L n h) w = (case sql_insert_user (mysql_of L) n h (dbase w) of
       None \<Rightarrow> (False, rotate_pool w) | Some d \<Rightarrow> (True, (rotate_pool w)\<lparr>dbase := d\<rparr>))"
    and "run_state (UpdateUsername L uid n) w = (case sql_update_username (mysql_of L) uid n (dbase w) of
       None \<Rightarrow> (False, rotate_pool w) | Some d \<Rightarrow> (True, (rotate_pool w)\<lparr>dbase := d\<rparr>))"
    and "run_state (UpdatePassword uid h) w = (case sql_update_password uid h (dbase w) of
       None \<Rightarrow> (False, rotate_pool w) | Some d \<Rightarrow> (True, (rotate_pool w)\<lparr>dbase := d\<rparr>))"
    and "run_state (InsertFriend a b) w = (case sql_insert_friend a b (dbase w) of
       None \<Rightarrow> (False, rotate_pool w) | Some d \<Rightarrow> (True, (rotate_pool w)\<lparr>dbase := d\<rparr>))"
    and "run_state (InsertMessage a b c) w = (case sql_insert_message (now w) a b c (dbase w) of
       None \<Rightarrow> (False, rotate_pool w) | Some d \<Rightarrow> (True, (rotate_pool w)\<lparr>dbase := d\<rparr>))"
  using assms by (simp_all add: dao_defs run_dao_update_calm)

end
