(* ===== verification/Demo_World.thy ===== *)
theory Demo_World
  imports Handler_Logic
begin

text \<open>
  A small world for the witnesses: three registered users (the first two online and friends), a
  message from the second to the third, three connections, of which the last is not logged in, and a pool of
  one database connection.  The passwords are \<open>secret1\<close>, \<open>secret2\<close> and \<open>secret3\<close>.
\<close>

definition demo_hash :: "string \<Rightarrow> string" where
  "demo_hash digits = digits @ replicate (32 - length digits) CHR ''0''"

definition demo_user :: "int \<Rightarrow> string \<Rightarrow> string \<Rightarrow> bool \<Rightarrow> user_row" where
  "demo_user uid name digits b =
     \<lparr>u_id = uid, u_name = name, u_hash = demo_hash digits, u_online = b, u_last_login = None\<rparr>"

definition alice :: user_row where
  "alice = demo_user 1 ''alice'' ''73656372657431'' True"

definition bob :: user_row where
  "bob = demo_user 2 ''bob'' ''73656372657432'' True"

definition carol :: user_row where
  "carol = demo_user 3 ''carol'' ''73656372657433'' False"

definition demo_db :: database where
  "demo_db = \<lparr>
     users = [alice, bob, carol],
     friends = [\<lparr>f_id = 1, f_user1 = 1, f_user2 = 2\<rparr>],
     messages = [\<lparr>m_id = 1, m_sender = 2, m_receiver = 3, m_content = ''hi'', m_time = 5, m_read = False\<rparr>],
     next_user_id = 4, next_friend_id = 2, next_message_id = 2\<rparr>"

definition demo_session :: "int \<Rightarrow> string \<Rightarrow> ClientSession" where
  "demo_session sock name = SetUsername name (ClientSession_new 0 sock ''10.0.0.1'' 5000)"

definition demo_sessions :: sessions where
  "demo_sessions = \<lparr>
     heap = (\<lambda>_. None)(0 := Some (demo_session 4 ''alice''), 1 := Some (demo_session 5 ''bob''),
                       2 := Some (demo_session 6 [])),
     next_ptr = 3, ub = False,
     cliSessionMap = [(4, 0), (5, 1), (6, 2)], usernameToSocket = [(''alice'', 4), (''bob'', 5)]\<rparr>"

definition demo_server :: server_state where
  "demo_server = \<lparr>serverSocket = 3, serverPort = 8886, maxConnections = 128, currentConnections = 3,
     running = True, has_dbManager = True, has_threadPool = True, has_sessionManager = True,
     has_userManager = True, has_friendManager = True, has_messageManager = True, has_monitor = True,
     has_exceptionHandler = True, um_userDAO = True, um_sendCallback = True, mm_sendCallback = True,
     sessionMap = []\<rparr>"

definition demo_world :: world where
  "demo_world = \<lparr>smgr = demo_sessions, cachedFriendLists = [], dbase = demo_db,
     dbm = DBManager_new\<lparr>connectionPool := [0], poolSize := 1, next_conn := 1\<rparr>, db_script = [],
     network = \<lparr>send_script = [], events = []\<rparr>, inbox = (\<lambda>_. []), now = 100, server = demo_server\<rparr>"

lemmas demo_defs = demo_world_def demo_server_def demo_sessions_def demo_session_def demo_db_def
  demo_user_def demo_hash_def alice_def bob_def carol_def demo_libs_def demo_mysql_def demo_jsoncpp_def

lemma demo_calm: "calm demo_world"
  by (simp add: calm_def demo_world_def)

lemma demo_sessions_ok: "sessions_ok (smgr demo_world)"
proof -
  have "umap_find [(4, 0), (5, 1), (6, 2)] sock = Some p
      \<Longrightarrow> (sock, p) \<in> {(4 :: int, 0 :: nat), (5, 1), (6, 2)}" for sock p
    by (auto simp: umap_find_def split: if_splits)
  then show ?thesis
    by (fastforce simp: sessions_ok_def demo_defs umap_wf_def SetUsername_def ClientSession_new_def)
qed


lemmas demo_eval = demo_defs lower_char_def same_name_def varchar_fits_def utf8_length_def
  continuation_byte_def

lemma demo_db_ok: "db_ok (mysql_of demo_libs) (dbase demo_world)"
proof -
  have "users_ok (mysql_of demo_libs) demo_db"
    by (simp add: demo_eval users_ok_def)
  moreover have "friends_ok demo_db"
    by (simp add: demo_eval friends_ok_def user_exists_def)
  moreover have "messages_ok demo_db"
    by (simp add: demo_eval messages_ok_def user_exists_def text_fits_def)
  ultimately show ?thesis by (simp add: db_ok_def demo_world_def)
qed

lemma demo_world_simps [simp]:
  "dbase demo_world = demo_db" "smgr demo_world = demo_sessions" "server demo_world = demo_server"
  "network demo_world = \<lparr>send_script = [], events = []\<rparr>" "now demo_world = 100"
  "cachedFriendLists demo_world = []" "db_script demo_world = []"
  by (simp_all add: demo_world_def)

lemma demo_server_simps [simp]:
  "um_userDAO demo_server" "um_sendCallback demo_server" "mm_sendCallback demo_server"
  by (simp_all add: demo_server_def)

lemma demo_users [simp]: "users demo_db = [alice, bob, carol]"
  by (simp add: demo_db_def)

lemma demo_row_simps [simp]:
  "u_id alice = 1" "u_id bob = 2" "u_id carol = 3"
  "u_name alice = ''alice''" "u_name bob = ''bob''" "u_name carol = ''carol''"
  "u_online alice" "u_online bob" "\<not> u_online carol"
  by (simp_all add: alice_def bob_def carol_def demo_user_def)

lemma demo_same_name [simp]:
  "same_name (mysql_of demo_libs) = (\<lambda>a b. map lower_char a = map lower_char b)"
  by (simp add: fun_eq_iff same_name_def demo_libs_def demo_mysql_def)

lemma demo_lookups [simp]:
  "sql_user_by_name (mysql_of demo_libs) ''alice'' demo_db = Some alice"
  "sql_user_by_name (mysql_of demo_libs) ''bob'' demo_db = Some bob"
  "sql_user_by_name (mysql_of demo_libs) ''carol'' demo_db = Some carol"
  "sql_user_by_name (mysql_of demo_libs) ''dave'' demo_db = None"
  "sql_count_username (mysql_of demo_libs) ''dave'' demo_db = 0"
  "sql_user_by_id 1 demo_db = Some alice" "sql_user_by_id 2 demo_db = Some bob"
  "sql_user_by_id 3 demo_db = Some carol"
  by (simp_all add: sql_user_by_name_def sql_count_username_def sql_user_by_id_def lower_char_def)

lemma demo_GetSession [simp]:
  "GetSession 4 demo_sessions = Some 0" "GetSession 5 demo_sessions = Some 1"
  "GetSession 6 demo_sessions = Some 2"
  "GetSessionByUsername ''alice'' demo_sessions = Some 0"
  "GetSessionByUsername ''bob'' demo_sessions = Some 1"
  "GetSessionByUsername ''carol'' demo_sessions = None"
  by (simp_all add: GetSession_def GetSessionByUsername_def demo_sessions_def umap_find_def)

lemma demo_messages:
  "messages demo_db = [\<lparr>m_id = 1, m_sender = 2, m_receiver = 3, m_content = ''hi'', m_time = 5, m_read = False\<rparr>]"
  by (simp add: demo_db_def)

lemma demo_names [simp]:
  "name_of demo_db 1 = ''alice''" "name_of demo_db 2 = ''bob''" "name_of demo_db 3 = ''carol''"
  by (simp_all add: name_of_def)

end
