(* ===== verification/User_Manager.thy ===== *)
theory User_Manager
  imports Demo_World
begin

text \<open>
  Registration, login, profile updates and status, \<^verbatim>\<open>src/src/system/user_manager.cpp\<close>, with the
  \<open>Request\<close> and \<open>Response\<close> structures of its header.  A handler is an action on the \<open>world\<close> that
  returns the response.  The \<open>code\<close> of a fresh \<open>Response\<close> is not initialised in C++; every path
  assigns it, so the model starts from the assignment.
\<close>

record Response =
  code :: int
  msg :: string
  rdata :: string

record Request =
  rtype :: string
  rusername :: string
  rpassword :: string
  newUsername :: string
  newPassword :: string
  verifyPassword :: string
  targetUsername :: string
  rcontent :: string
  rcount :: int
  clientSocket :: int

datatype UserStatus = Online | Offline

definition reply :: "int \<Rightarrow> string \<Rightarrow> Response" where
  "reply c m = \<lparr>code = c, msg = m, rdata = []\<rparr>"

definition write_json :: "libs \<Rightarrow> json \<Rightarrow> string" where
  "write_json L v = json_write (json_of L) v"

section \<open>Validation and hashing\<close>

definition name_char :: "char \<Rightarrow> bool" where
  "name_char c \<longleftrightarrow> (CHR ''a'' \<le> c \<and> c \<le> CHR ''z'') \<or> (CHR ''A'' \<le> c \<and> c \<le> CHR ''Z'')
     \<or> (CHR ''0'' \<le> c \<and> c \<le> CHR ''9'') \<or> c = CHR ''_''"

definition ValidateUsername :: "string \<Rightarrow> bool" where
  "ValidateUsername name \<longleftrightarrow> 3 \<le> length name \<and> length name \<le> 20 \<and> list_all name_char name"

definition ValidatePassword :: "string \<Rightarrow> bool" where
  "ValidatePassword password \<longleftrightarrow> 6 \<le> length password"

definition hex_digit :: "nat \<Rightarrow> char" where
  "hex_digit n = (if n < 10 then char_of (48 + n) else char_of (87 + n))"

text \<open>\<open>std::hex\<close>, \<open>setfill('0')\<close> and \<open>setw(2)\<close> on a byte.\<close>

definition hex_byte :: "8 word \<Rightarrow> string" where
  "hex_byte b = [hex_digit (unat b div 16), hex_digit (unat b mod 16)]"

definition MD5Encrypt :: "libs \<Rightarrow> string \<Rightarrow> string" where
  "MD5Encrypt L password =
     (case evp_md5 L password of None \<Rightarrow> [] | Some digest \<Rightarrow> concat (map hex_byte digest))"

section \<open>Handlers\<close>

definition HandleRegister :: "libs \<Rightarrow> Request \<Rightarrow> Response act" where
  "HandleRegister L request = do {
     has_dao \<leftarrow> gets (\<lambda>w. um_userDAO (server w));
     if \<not> has_dao then State_Monad.return (reply 5001 txt_internal_error)
     else if \<not> ValidateUsername (rusername request)
     then State_Monad.return (reply 2001 txt_bad_username_format)
     else if \<not> ValidatePassword (rpassword request)
     then State_Monad.return (reply 2001 txt_bad_password_format)
     else do {
       exists \<leftarrow> CheckUsernameExists L (rusername request);
       if exists then State_Monad.return (reply 2002 txt_username_exists)
       else do {
         ok \<leftarrow> InsertUser L (rusername request) (MD5Encrypt L (rpassword request));
         if \<not> ok then State_Monad.return (reply 5001 txt_db_op_failed)
         else State_Monad.return (reply 0 txt_register_ok)
       }
     }
   }"

definition status_text :: "bool \<Rightarrow> string" where
  "status_text isOnline = (if isOnline then ''online'' else ''offline'')"

definition status_notify :: "libs \<Rightarrow> string \<Rightarrow> UserStatus \<Rightarrow> string" where
  "status_notify L name status = write_json L (JObj
     [(''data'', JObj [(''status'', JStr (status_text (status = Online))), (''username'', JStr name)]),
      (''type'', JStr ''STATUS_NOTIFY'')])"

text \<open>The body of the loop over the friends.\<close>

definition notify_friend :: "libs \<Rightarrow> string \<Rightarrow> UserStatus \<Rightarrow> string \<times> bool \<Rightarrow> unit act" where
  "notify_friend L name status friendPair = (case friendPair of (friendUsername, isOnline) \<Rightarrow>
     guarded isOnline (do {
       friendSession \<leftarrow> get_session_by_username friendUsername;
       callback \<leftarrow> gets (\<lambda>w. um_sendCallback (server w));
       case friendSession of
         None \<Rightarrow> skip
       | Some p \<Rightarrow> guarded callback (do {
           sock \<leftarrow> session_get p GetSocket;
           _ \<leftarrow> send_data sock (status_notify L name status);
           skip
         })
     }))"

definition NotifyFriendsStatusChange :: "libs \<Rightarrow> string \<Rightarrow> UserStatus \<Rightarrow> unit act" where
  "NotifyFriendsStatusChange L name status = do {
     uid \<leftarrow> GetUserIdByUsername L name;
     case uid of
       None \<Rightarrow> skip
     | Some userId \<Rightarrow> do {
         fs \<leftarrow> GetFriendsOfUser L userId;
         case fs of
           None \<Rightarrow> skip
         | Some friendList \<Rightarrow> foreach friendList (notify_friend L name status)
       }
   }"

definition UpdateUserOnlineStatus :: "libs \<Rightarrow> string \<Rightarrow> bool \<Rightarrow> bool act" where
  "UpdateUserOnlineStatus L name isOnline = UpdateOnlineStatusByUsername L name isOnline"

definition kicked_notice :: "libs \<Rightarrow> string" where
  "kicked_notice L = write_json L (JObj
     [(''code'', JInt 2005), (''msg'', JStr txt_kicked), (''type'', JStr ''KICKED'')])"

text \<open>The part of \<open>HandleLogin\<close> that ends an earlier session of the same user.\<close>

definition kick_old_session :: "libs \<Rightarrow> string \<Rightarrow> unit act" where
  "kick_old_session L name = do {
     oldSession \<leftarrow> get_session_by_username name;
     case oldSession of
       None \<Rightarrow> skip
     | Some p \<Rightarrow> do {
         oldSocket \<leftarrow> session_get p GetSocket;
         callback \<leftarrow> gets (\<lambda>w. um_sendCallback (server w));
         guarded callback (do { _ \<leftarrow> send_data oldSocket (kicked_notice L); skip });
         session_set p (SetUsername []);
         shutdown_socket oldSocket
       }
   }"

definition bind_session :: "Request \<Rightarrow> unit act" where
  "bind_session request = do {
     session \<leftarrow> get_session (clientSocket request);
     case session of
       None \<Rightarrow> skip
     | Some p \<Rightarrow> do {
         session_set p (SetUsername (rusername request));
         bind_username (clientSocket request) (rusername request);
         session_touch_heartbeat p
       }
   }"

definition HandleLogin :: "libs \<Rightarrow> Request \<Rightarrow> Response act" where
  "HandleLogin L request =
     (if \<not> ValidateUsername (rusername request)
      then State_Monad.return (reply 2001 txt_bad_username_format)
      else do {
        found \<leftarrow> GetUserByUsername L (rusername request);
        case found of
          None \<Rightarrow> State_Monad.return (reply 2003 txt_user_missing)
        | Some (userId, passwordHash) \<Rightarrow>
            if MD5Encrypt L (rpassword request) \<noteq> passwordHash
            then State_Monad.return (reply 2004 txt_wrong_password)
            else do {
              isOnline \<leftarrow> GetUserOnlineStatus userId;
              guarded (isOnline = Some True) (do {
                _ \<leftarrow> UpdateOnlineStatus userId False;
                kick_old_session L (rusername request)
              });
              _ \<leftarrow> UpdateOnlineStatus userId True;
              _ \<leftarrow> UpdateLastLoginTime userId;
              bind_session request;
              NotifyFriendsStatusChange L (rusername request) Online;
              State_Monad.return (reply 0 txt_login_ok)
            }
      })"

text \<open>The two optional changes of \<open>HandleUpdateUser\<close>: an early response, or whether it changed anything.\<close>

definition change_username :: "libs \<Rightarrow> int \<Rightarrow> string \<Rightarrow> (Response + bool) act" where
  "change_username L userId name =
     (if name = [] then State_Monad.return (Inr False)
      else if \<not> ValidateUsername name
      then State_Monad.return (Inl (reply 2001 txt_bad_new_username_format))
      else do {
        exists \<leftarrow> CheckUsernameExists L name;
        if exists then State_Monad.return (Inl (reply 2002 txt_new_username_exists))
        else do {
          ok \<leftarrow> UpdateUsername L userId name;
          if \<not> ok then State_Monad.return (Inl (reply 5001 txt_db_op_failed))
          else State_Monad.return (Inr True)
        }
      })"

definition change_password :: "libs \<Rightarrow> int \<Rightarrow> string \<Rightarrow> (Response + bool) act" where
  "change_password L userId password =
     (if password = [] then State_Monad.return (Inr False)
      else if \<not> ValidatePassword password
      then State_Monad.return (Inl (reply 2001 txt_bad_new_password_format))
      else do {
        ok \<leftarrow> UpdatePassword userId (MD5Encrypt L password);
        if \<not> ok then State_Monad.return (Inl (reply 5001 txt_db_op_failed))
        else State_Monad.return (Inr True)
      })"

definition HandleUpdateUser :: "libs \<Rightarrow> Request \<Rightarrow> Response act" where
  "HandleUpdateUser L request = do {
     found \<leftarrow> GetUserByUsername L (rusername request);
     case found of
       None \<Rightarrow> State_Monad.return (reply 2003 txt_user_missing)
     | Some (userId, passwordHash) \<Rightarrow>
         if MD5Encrypt L (verifyPassword request) \<noteq> passwordHash
         then State_Monad.return (reply 2006 txt_verify_wrong)
         else do {
           r1 \<leftarrow> change_username L userId (newUsername request);
           case r1 of
             Inl response \<Rightarrow> State_Monad.return response
           | Inr updated1 \<Rightarrow> do {
               r2 \<leftarrow> change_password L userId (newPassword request);
               case r2 of
                 Inl response \<Rightarrow> State_Monad.return response
               | Inr updated2 \<Rightarrow>
                   if \<not> (updated1 \<or> updated2) then State_Monad.return (reply 1001 txt_nothing_updated)
                   else State_Monad.return (reply 0 txt_update_ok)
             }
         }
   }"

definition status_zh :: "bool \<Rightarrow> string" where
  "status_zh isOnline = (if isOnline then txt_online_zh else txt_offline_zh)"

definition HandleQueryStatus :: "libs \<Rightarrow> Request \<Rightarrow> Response act" where
  "HandleQueryStatus L request = do {
     found \<leftarrow> GetUserByUsername L (rusername request);
     case found of
       None \<Rightarrow> State_Monad.return (reply 2003 txt_user_missing)
     | Some (userId, passwordHash) \<Rightarrow> do {
         status \<leftarrow> GetUserOnlineStatus userId;
         case status of
           None \<Rightarrow> State_Monad.return (reply 5002 txt_db_query_failed)
         | Some isOnline \<Rightarrow> State_Monad.return
             \<lparr>code = 0, msg = status_zh isOnline,
              rdata = write_json L (JObj [(''status'', JStr (status_text isOnline))])\<rparr>
       }
   }"

section \<open>What the handlers keep\<close>

lemma keeps_sum:
  "(\<And>a. x = Inl a \<Longrightarrow> keeps I (f a)) \<Longrightarrow> (\<And>b. x = Inr b \<Longrightarrow> keeps I (g b))
    \<Longrightarrow> keeps I (case x of Inl a \<Rightarrow> f a | Inr b \<Rightarrow> g b)"
  by (cases x) auto

context handler_inv begin

lemma keeps_user_manager:
  assumes L: "mysql_of L = Q"
  shows "keeps I (HandleRegister L request)" "keeps I (NotifyFriendsStatusChange L name status)"
    "keeps I (UpdateUserOnlineStatus L name b)" "keeps I (kick_old_session L name)"
    "keeps I (bind_session request)" "keeps I (HandleUpdateUser L request)"
    "keeps I (HandleQueryStatus L request)"
  unfolding HandleRegister_def NotifyFriendsStatusChange_def notify_friend_def UpdateUserOnlineStatus_def
    kick_old_session_def bind_session_def HandleUpdateUser_def HandleQueryStatus_def
    change_username_def change_password_def
  by (intro handler_intros keeps_bind keeps_sum keeps_dao; auto simp: L)+

lemma keeps_HandleLogin: "mysql_of L = Q \<Longrightarrow> keeps I (HandleLogin L request)"
  unfolding HandleLogin_def
  by (intro handler_intros keeps_bind keeps_dao keeps_user_manager; auto)

end

section \<open>Lemmas\<close>

lemma reply_simps [simp]: "code (reply c m) = c" "msg (reply c m) = m" "rdata (reply c m) = []"
  by (simp_all add: reply_def)

text \<open>A valid user name fits its column: all of its bytes are ASCII.\<close>

lemma valid_name_fits: "ValidateUsername name \<Longrightarrow> varchar_fits 20 name"
  using utf8_length_le[of name] by (simp add: ValidateUsername_def varchar_fits_def)

lemma hash_length: "evp_md5 L p = Some digest \<Longrightarrow> length (MD5Encrypt L p) = 2 * length digest"
  by (simp add: MD5Encrypt_def length_concat comp_def hex_byte_def sum_list_triv)

lemma hash_fits: "evp_md5 L p = Some digest \<Longrightarrow> length digest = 16 \<Longrightarrow> varchar_fits 32 (MD5Encrypt L p)"
  using utf8_length_le[of "MD5Encrypt L p"] hash_length[of L p digest] by (simp add: varchar_fits_def)

lemma hex_digit_inj: "m < 16 \<Longrightarrow> n < 16 \<Longrightarrow> hex_digit m = hex_digit n \<longleftrightarrow> m = n"
  by (auto simp: hex_digit_def take_bit_eq_mod dest!: arg_cong[of _ _ "of_char :: char \<Rightarrow> nat"] split: if_splits)

lemma hex_byte_inj: "hex_byte a = hex_byte b \<longleftrightarrow> a = b"
proof
  assume eq: "hex_byte a = hex_byte b"
  have lt: "unat a < 256" "unat b < 256"
    using unsigned_less[of a, where ?'a = nat] unsigned_less[of b, where ?'a = nat] by simp_all
  have "unat a div 16 = unat b div 16" and "unat a mod 16 = unat b mod 16"
    using eq lt hex_digit_inj[of "unat a div 16" "unat b div 16"]
      hex_digit_inj[of "unat a mod 16" "unat b mod 16"]
    by (simp_all add: hex_byte_def)
  then have "unat a = unat b" by (metis div_mult_mod_eq)
  then show "a = b" by (simp add: word_unat_eq_iff)
qed simp

lemma concat_hex_inj: "concat (map hex_byte xs) = concat (map hex_byte ys) \<longleftrightarrow> xs = ys"
proof (induction xs arbitrary: ys)
  case Nil
  then show ?case by (cases ys) (auto simp: hex_byte_def)
next
  case (Cons x xs)
  have "\<And>a b as bs. hex_byte a @ as = hex_byte b @ bs \<longleftrightarrow> hex_byte a = hex_byte b \<and> as = bs"
    by (simp add: hex_byte_def)
  moreover have "\<And>a. hex_byte a \<noteq> []"
    by (simp add: hex_byte_def)
  ultimately show ?case using Cons by (cases ys) (simp_all add: hex_byte_inj)
qed

lemma insert_user_Some:
  assumes "sql_insert_user Q name h d = Some d'"
  shows "(\<forall>u\<in>set (users d). \<not> same_name Q (u_name u) name)
    \<and> users d' = users d @ [\<lparr>u_id = next_user_id d, u_name = name, u_hash = h, u_online = False, u_last_login = None\<rparr>]
    \<and> friends d' = friends d \<and> messages d' = messages d"
  using assms by (auto simp: sql_insert_user_def split: if_splits)

lemma run_HandleRegister_calm:
  assumes "calm w"
  shows "run_state (HandleRegister L rq) w =
    (if \<not> um_userDAO (server w) then (reply 5001 txt_internal_error, w)
     else if \<not> ValidateUsername (rusername rq) then (reply 2001 txt_bad_username_format, w)
     else if \<not> ValidatePassword (rpassword rq) then (reply 2001 txt_bad_password_format, w)
     else if 0 < sql_count_username (mysql_of L) (rusername rq) (dbase w)
     then (reply 2002 txt_username_exists, rotate_pool w)
     else (case sql_insert_user (mysql_of L) (rusername rq) (MD5Encrypt L (rpassword rq)) (dbase w) of
         None \<Rightarrow> (reply 5001 txt_db_op_failed, rotate_pool (rotate_pool w))
       | Some d \<Rightarrow> (reply 0 txt_register_ok, (rotate_pool (rotate_pool w))\<lparr>dbase := d\<rparr>)))"
  using assms by (simp add: HandleRegister_def calm_simps run_checked_updates_calm split: option.splits)

lemma update_at_live: "heap st p = Some c \<Longrightarrow> update_at p f st = st\<lparr>heap := (heap st)(p := Some (f c))\<rparr>"
  by (simp add: update_at_def)

lemma wp_kick:
  assumes ok: "sessions_ok (smgr w)"
    and Q: "\<And>st ns evs. sessions_ok st \<Longrightarrow> cliSessionMap st = cliSessionMap (smgr w)
      \<Longrightarrow> usernameToSocket st = usernameToSocket (smgr w) \<Longrightarrow> events ns = events (network w) @ evs
      \<Longrightarrow> Q () (w\<lparr>smgr := st, network := ns\<rparr>)"
  shows "wp (kick_old_session L name) Q w"
proof (cases "GetSessionByUsername name (smgr w)")
  case None
  with Q[of "smgr w" "network w" "[]"] ok show ?thesis
    by (simp add: kick_old_session_def wp_simps)
next
  case (Some p)
  then obtain sock where p: "umap_find (cliSessionMap (smgr w)) sock = Some p"
    by (auto dest: GetSessionByUsername_mem)
  note touch = sessions_ok_touch[OF ok p]
  have upd: "sessions_ok (update_at p (SetUsername []) (smgr w))"
    by (rule sessions_ok_update_at[OF ok p]) simp
  let ?s = "socket (deref (smgr w) p)"
  let ?w' = "w\<lparr>smgr := update_at p (SetUsername []) (smgr w)\<rparr>"
  have "wp (send_data ?s (kicked_notice L))
      (\<lambda>_ w'. Q () (w'\<lparr>smgr := update_at p (SetUsername []) (smgr w'),
        network := sys_shutdown ?s (network w')\<rparr>)) w"
    by (rule wp_send_data) (use upd Q[of "update_at p (SetUsername []) (smgr w)"] in \<open>simp add: sys_shutdown_def\<close>)
  moreover have "Q () (?w'\<lparr>network := sys_shutdown ?s (network w)\<rparr>)"
    using upd Q[of "update_at p (SetUsername []) (smgr w)"] by (simp add: sys_shutdown_def)
  ultimately show ?thesis
    using Some by (simp add: kick_old_session_def wp_simps touch)
qed

lemma wp_bind_session:
  assumes ok: "sessions_ok (smgr w)"
    and Q: "\<And>st. sessions_ok st \<Longrightarrow> cliSessionMap st = cliSessionMap (smgr w)
      \<Longrightarrow> (\<And>p. GetSession (clientSocket rq) (smgr w) = Some p \<Longrightarrow>
            session_user st (clientSocket rq) = rusername rq
            \<and> umap_find (usernameToSocket st) (rusername rq) = Some (clientSocket rq)
            \<and> lastHeartbeat (deref st p) = now w)
      \<Longrightarrow> (\<And>s. s \<noteq> clientSocket rq \<Longrightarrow> session_user st s = session_user (smgr w) s)
      \<Longrightarrow> Q () (w\<lparr>smgr := st\<rparr>)"
  shows "wp (bind_session rq) Q w"
proof (cases "GetSession (clientSocket rq) (smgr w)")
  case None
  with Q[of "smgr w"] ok show ?thesis by (simp add: bind_session_def wp_simps)
next
  case (Some p)
  let ?s = "clientSocket rq" and ?n = "rusername rq"
  from Some have p: "umap_find (cliSessionMap (smgr w)) ?s = Some p" by (simp add: GetSession_def)
  from sessions_okD[OF ok p] obtain c where c: "heap (smgr w) p = Some c" "socket c = ?s" by auto
  let ?st1 = "update_at p (SetUsername ?n) (smgr w)"
  let ?st2 = "BindUsername ?s ?n ?st1"
  let ?st3 = "update_at p (UpdateHeartbeat (now w)) ?st2"
  have "sessions_ok ?st1" by (rule sessions_ok_update_at[OF ok p]) simp
  then have ok2: "sessions_ok ?st2" by (rule sessions_ok_BindUsername)
  have "sessions_ok ?st3"
    by (rule sessions_ok_update_at[OF ok2]) (use p in \<open>simp_all add: BindUsername_def\<close>)
  moreover have "session_user ?st3 ?s = ?n" and "lastHeartbeat (deref ?st3 p) = now w"
    using p c by (simp_all add: session_user_def update_at_live BindUsername_def deref_def)
      (simp add: UpdateHeartbeat_def)
  moreover have "session_user ?st3 s = session_user (smgr w) s" if "s \<noteq> ?s" for s
    using sessions_ok_ptr_inj[OF ok p, of s] that c
    by (auto simp: session_user_def update_at_live BindUsername_def deref_def split: option.splits)
  ultimately have "Q () (w\<lparr>smgr := ?st3\<rparr>)"
    using Q[of ?st3] Some by (simp add: BindUsername_def um_simps)
  then show ?thesis
    using Some by (simp add: bind_session_def wp_simps)
qed

text \<open>What a status notification sends, and to whom.\<close>

definition notice_target :: "libs \<Rightarrow> string \<Rightarrow> database \<Rightarrow> sessions \<Rightarrow> net_event \<Rightarrow> bool" where
  "notice_target L name d st e \<longleftrightarrow> (\<exists>u friend p bytes.
     sql_user_by_name (mysql_of L) name d = Some u
     \<and> (friend, True) \<in> set (sql_friend_list (mysql_of L) (u_id u) d)
     \<and> GetSessionByUsername friend st = Some p
     \<and> e = Sent (socket (deref st p)) bytes)"

definition noticed :: "libs \<Rightarrow> string \<Rightarrow> world \<Rightarrow> world \<Rightarrow> bool" where
  "noticed L name w w' \<longleftrightarrow> (\<exists>m s ns evs. w' = w\<lparr>dbm := m, db_script := s, network := ns\<rparr>
     \<and> events ns = events (network w) @ evs \<and> (\<forall>e\<in>set evs. notice_target L name (dbase w) (smgr w) e))"

lemma noticed_refl: "noticed L name w (w\<lparr>dbm := m, db_script := s\<rparr>)"
  unfolding noticed_def
  by (rule exI[of _ m], rule exI[of _ s], rule exI[of _ "network w"], rule exI[of _ "[]"]) (cases w, simp)

lemma noticed_send:
  assumes "noticed L name w w'" and "events ns = events (network w') @ evs"
    and "\<And>e. e \<in> set evs \<Longrightarrow> notice_target L name (dbase w) (smgr w) e"
  shows "noticed L name w (w'\<lparr>network := ns\<rparr>)"
proof -
  from assms(1) obtain m s ns1 evs1 where
    "w' = w\<lparr>dbm := m, db_script := s, network := ns1\<rparr>" "events ns1 = events (network w) @ evs1"
    "\<forall>e\<in>set evs1. notice_target L name (dbase w) (smgr w) e" by (auto simp: noticed_def)
  with assms(2,3) show ?thesis
    unfolding noticed_def by (intro exI[of _ m] exI[of _ s] exI[of _ ns] exI[of _ "evs1 @ evs"]) auto
qed

lemma noticed_fields: "noticed L name w w' \<Longrightarrow> smgr w' = smgr w \<and> server w' = server w"
  by (auto simp: noticed_def)

lemma wp_notify_friend:
  assumes ok: "sessions_ok (smgr w)" and u: "sql_user_by_name (mysql_of L) name (dbase w) = Some u"
    and x: "x \<in> set (sql_friend_list (mysql_of L) (u_id u) (dbase w))" and I: "noticed L name w w'"
  shows "wp (notify_friend L name status x) (\<lambda>_. noticed L name w) w'"
proof (cases "snd x \<and> um_sendCallback (server w') \<and> GetSessionByUsername (fst x) (smgr w') \<noteq> None")
  case False
  have "wp (notify_friend L name status x) (\<lambda>_ v. v = w') w'"
    using False by (cases x) (auto simp: notify_friend_def wp_simps split: option.splits)
  then show ?thesis by (rule wp_mono) (use I in blast)
next
  case True
  with noticed_fields[OF I] obtain friend p where fr: "x = (friend, True)"
    "GetSessionByUsername friend (smgr w) = Some p" by (cases x) auto
  then have t: "touch p (smgr w) = smgr w"
    by (simp add: touch_by_username[OF ok])
  have "notice_target L name (dbase w) (smgr w) (Sent (socket (deref (smgr w) p)) b)" for b
    using u x fr by (auto simp: notice_target_def)
  then have "wp (send_data (socket (deref (smgr w) p)) (status_notify L name status)) (\<lambda>_. noticed L name w) w'"
    by (auto intro!: wp_send_data noticed_send[OF I])
  then show ?thesis
    unfolding noticed_fields[OF I, THEN conjunct1, symmetric]
    using True fr t noticed_fields[OF I, THEN conjunct1, symmetric]
    by (simp add: notify_friend_def wp_simps)
qed

lemma wp_notify:
  assumes ok: "sessions_ok (smgr w)" and Q: "\<And>w'. noticed L name w w' \<Longrightarrow> Q () w'"
  shows "wp (NotifyFriendsStatusChange L name status) Q w"
proof -
  have loop: "wp (foreach (sql_friend_list (mysql_of L) (u_id u) (dbase w)) (notify_friend L name status)) Q
      (w\<lparr>dbm := m, db_script := s\<rparr>)" if "sql_user_by_name (mysql_of L) name (dbase w) = Some u" for u m s
    by (rule wp_foreach[of "noticed L name w"]) (auto intro: noticed_refl wp_notify_friend[OF ok that] Q)
  then show ?thesis
    by (auto simp: NotifyFriendsStatusChange_def wp_simps split: option.splits
        intro!: wp_dao_query Q noticed_refl)
qed

lemma noticed_world: "noticed L name w w' \<Longrightarrow> dbase w' = dbase w \<and> smgr w' = smgr w
    \<and> cachedFriendLists w' = cachedFriendLists w \<and> server w' = server w \<and> now w' = now w \<and> inbox w' = inbox w"
  by (auto simp: noticed_def)

text \<open>What a profile update may do to the row \<open>u\<close>: a rename, a new hash, both in this order.\<close>

inductive updated :: "libs \<Rightarrow> Request \<Rightarrow> int \<Rightarrow> bool \<Rightarrow> database \<Rightarrow> database \<Rightarrow> bool"
  for L rq uid ok d where
  renamed: "sql_update_username (mysql_of L) uid (newUsername rq) d = Some d' \<Longrightarrow> newUsername rq \<noteq> []
     \<Longrightarrow> ValidateUsername (newUsername rq) \<Longrightarrow> (ok \<longrightarrow> newPassword rq = []) \<Longrightarrow> updated L rq uid ok d d'"
| rehashed: "sql_update_password uid (MD5Encrypt L (newPassword rq)) d = Some d' \<Longrightarrow> newPassword rq \<noteq> []
     \<Longrightarrow> ValidatePassword (newPassword rq) \<Longrightarrow> (ok \<longrightarrow> newUsername rq = []) \<Longrightarrow> updated L rq uid ok d d'"
| both: "sql_update_username (mysql_of L) uid (newUsername rq) d = Some d1
     \<Longrightarrow> sql_update_password uid (MD5Encrypt L (newPassword rq)) d1 = Some d'
     \<Longrightarrow> newUsername rq \<noteq> [] \<Longrightarrow> ValidateUsername (newUsername rq) \<Longrightarrow> newPassword rq \<noteq> []
     \<Longrightarrow> ValidatePassword (newPassword rq) \<Longrightarrow> updated L rq uid ok d d'"

lemma wp_change_username:
  assumes "new = [] \<Longrightarrow> Q (Inr False) w"
    and "\<And>c t m s. c \<noteq> 0 \<Longrightarrow> new \<noteq> [] \<Longrightarrow> Q (Inl (reply c t)) (w\<lparr>dbm := m, db_script := s\<rparr>)"
    and "\<And>z d m s. z = Inr True \<or> z = Inl (reply 5001 txt_db_op_failed) \<Longrightarrow> new \<noteq> [] \<Longrightarrow> ValidateUsername new
      \<Longrightarrow> sql_update_username (mysql_of L) uid new (dbase w) = Some d
      \<Longrightarrow> Q z (w\<lparr>dbase := d, dbm := m, db_script := s\<rparr>)"
  shows "wp (change_username L uid new) Q w"
  using assms assms(2)[where c = 2001 and m = "dbm w" and s = "db_script w"]
  by (auto simp: change_username_def wp_simps intro!: wp_intros)

lemma wp_change_password:
  assumes "new = [] \<Longrightarrow> Q (Inr False) w"
    and "\<And>c t m s. c \<noteq> 0 \<Longrightarrow> new \<noteq> [] \<Longrightarrow> Q (Inl (reply c t)) (w\<lparr>dbm := m, db_script := s\<rparr>)"
    and "\<And>z d m s. z = Inr True \<or> z = Inl (reply 5001 txt_db_op_failed) \<Longrightarrow> new \<noteq> [] \<Longrightarrow> ValidatePassword new
      \<Longrightarrow> sql_update_password uid (MD5Encrypt L new) (dbase w) = Some d
      \<Longrightarrow> Q z (w\<lparr>dbase := d, dbm := m, db_script := s\<rparr>)"
  shows "wp (change_password L uid new) Q w"
  using assms assms(2)[where c = 2001 and m = "dbm w" and s = "db_script w"]
  by (auto simp: change_password_def wp_simps intro!: wp_intros)

lemma wp_HandleUpdateUser:
  "wp (HandleUpdateUser L rq) (\<lambda>r w'. smgr w' = smgr w \<and> network w' = network w
      \<and> cachedFriendLists w' = cachedFriendLists w \<and>
      ((code r \<noteq> 0 \<and> dbase w' = dbase w)
       \<or> (\<exists>u. sql_user_by_name (mysql_of L) (rusername rq) (dbase w) = Some u
          \<and> u_hash u = MD5Encrypt L (verifyPassword rq)
          \<and> updated L rq (u_id u) (code r = 0) (dbase w) (dbase w')))) w"
  by (auto simp: HandleUpdateUser_def wp_simps updated.simps split: option.splits
      intro!: wp_dao_query wp_change_username wp_change_password)

text \<open>The rows after an update of a table whose identifiers are distinct.\<close>

definition rewritten :: "user_row \<Rightarrow> string \<Rightarrow> string \<Rightarrow> database \<Rightarrow> database" where
  "rewritten u n h d = map_users (\<lambda>v. u_id v = u_id u) (\<lambda>v. v\<lparr>u_name := n, u_hash := h\<rparr>) d"

lemma map_users_row:
  assumes "users_ok Q d" and "u \<in> set (users d)" and "f u = g u"
  shows "map_users (\<lambda>v. u_id v = u_id u) f d = map_users (\<lambda>v. u_id v = u_id u) g d"
proof -
  have "f v = g v" if "v \<in> set (users d)" "u_id v = u_id u" for v
    using assms that by (metis distinct_map_inj users_ok_def)
  then show ?thesis by (simp add: map_users_def cong: map_cong if_cong)
qed

lemma updated_rows:
  assumes "updated L rq (u_id u) ok d d'" and "users_ok (mysql_of L) d" and "u \<in> set (users d)"
  shows "\<exists>n h. d' = rewritten u n h d
    \<and> (n = u_name u \<or> n = newUsername rq \<and> ValidateUsername n
         \<and> (\<forall>v\<in>set (users d). u_id v \<noteq> u_id u \<longrightarrow> \<not> same_name (mysql_of L) (u_name v) n))
    \<and> (h = u_hash u \<or> h = MD5Encrypt L (newPassword rq) \<and> ValidatePassword (newPassword rq))
    \<and> (ok \<longrightarrow> (newUsername rq \<noteq> [] \<or> newPassword rq \<noteq> [])
         \<and> (newUsername rq \<noteq> [] \<longrightarrow> n = newUsername rq)
         \<and> (newPassword rq \<noteq> [] \<longrightarrow> h = MD5Encrypt L (newPassword rq)))"
  using assms(1)
proof cases
  have ex: "user_exists (u_id u) d" using assms(3) by (auto simp: user_exists_def)
  {
    case renamed
    then have "d' = map_users (\<lambda>v. u_id v = u_id u) (\<lambda>v. v\<lparr>u_name := newUsername rq\<rparr>) d"
      and free: "\<forall>v\<in>set (users d). u_id v \<noteq> u_id u \<longrightarrow> \<not> same_name (mysql_of L) (u_name v) (newUsername rq)"
      using ex by (auto simp: sql_update_username_def split: if_splits)
    then have "d' = rewritten u (newUsername rq) (u_hash u) d"
      unfolding rewritten_def by (elim trans) (rule map_users_row[OF assms(2,3)], simp)
    with renamed free show ?thesis by blast
  next
    case rehashed
    then have "d' = map_users (\<lambda>v. u_id v = u_id u) (\<lambda>v. v\<lparr>u_hash := MD5Encrypt L (newPassword rq)\<rparr>) d"
      using ex by (auto simp: sql_update_password_def split: if_splits)
    then have "d' = rewritten u (u_name u) (MD5Encrypt L (newPassword rq)) d"
      unfolding rewritten_def by (elim trans) (rule map_users_row[OF assms(2,3)], simp)
    with rehashed show ?thesis by blast
  next
    case (both d1)
    then have d1: "d1 = map_users (\<lambda>v. u_id v = u_id u) (\<lambda>v. v\<lparr>u_name := newUsername rq\<rparr>) d"
      and free: "\<forall>v\<in>set (users d). u_id v \<noteq> u_id u \<longrightarrow> \<not> same_name (mysql_of L) (u_name v) (newUsername rq)"
      using ex by (auto simp: sql_update_username_def split: if_splits)
    moreover have "d' = map_users (\<lambda>v. u_id v = u_id u) (\<lambda>v. v\<lparr>u_hash := MD5Encrypt L (newPassword rq)\<rparr>) d1"
      using both(2) by (auto simp: sql_update_password_def d1 ex split: if_splits)
    ultimately have "d' = rewritten u (newUsername rq) (MD5Encrypt L (newPassword rq)) d"
      by (simp add: rewritten_def map_users_def comp_def cong: if_cong)
    with both free show ?thesis by blast
  }
qed

section \<open>Requests for the witnesses\<close>

definition demo_request :: "string \<Rightarrow> string \<Rightarrow> int \<Rightarrow> Request" where
  "demo_request name password sock = \<lparr>rtype = [], rusername = name, rpassword = password,
     newUsername = [], newPassword = [], verifyPassword = [], targetUsername = [], rcontent = [],
     rcount = 0, clientSocket = sock\<rparr>"

lemma demo_request_simps [simp]:
  "rusername (demo_request n p s) = n" "rpassword (demo_request n p s) = p"
  "clientSocket (demo_request n p s) = s" "newUsername (demo_request n p s) = []"
  "newPassword (demo_request n p s) = []" "verifyPassword (demo_request n p s) = []"
  "targetUsername (demo_request n p s) = []" "rcontent (demo_request n p s) = []" "rcount (demo_request n p s) = 0"
  by (simp_all add: demo_request_def)

lemma demo_hashes [simp]:
  "MD5Encrypt demo_libs ''secret1'' = u_hash alice" "MD5Encrypt demo_libs ''secret2'' = u_hash bob"
  "MD5Encrypt demo_libs ''secret3'' = u_hash carol"
  by code_simp+

lemma demo_valid_names [simp]:
  "ValidateUsername ''alice''" "ValidateUsername ''bob''" "ValidateUsername ''carol''"
  "ValidateUsername ''dave''"
  by code_simp+

lemma demo_login_alice:
  "wp (HandleLogin demo_libs (demo_request ''alice'' ''secret1'' 6)) (\<lambda>r w'. code r = 0) demo_world"
  using demo_calm demo_sessions_ok
  by (auto simp: HandleLogin_def wp_simps calm_wp sql_update_online_def sql_update_last_login_def
      split: option.splits intro!: wp_intros wp_kick wp_bind_session wp_notify)

lemma demo_fits: "varchar_fits 32 (MD5Encrypt demo_libs p)"
  using demo_digest[of p] by (auto intro: hash_fits)

lemma demo_register_dave:
  "code (fst (run_state (HandleRegister demo_libs (demo_request ''dave'' ''secret4'' 6)) demo_world)) = 0"
  by (subst run_HandleRegister_calm[OF demo_calm])
    (simp add: ValidatePassword_def sql_insert_user_def valid_name_fits hash_fits lower_char_def
      demo_fits split: option.splits)

section \<open>Properties\<close>

text \<open>C28: Whatever faults the database shows, a registration that is answered with 0 had a valid name and
  password and a name nobody had, and added exactly one user, with the next identifier, the hash of
  the password, and status offline.  Any other answer leaves the table as it was, except that after a
  database failure (5001) the user may exist.  Friends, messages, sessions and sockets never change.\<close>

theorem register_effect:
  assumes "run_state (HandleRegister L rq) w = (r, w')"
  shows "(code r = 0 \<longrightarrow> ValidateUsername (rusername rq) \<and> ValidatePassword (rpassword rq)
            \<and> (\<forall>u\<in>set (users (dbase w)). \<not> same_name (mysql_of L) (u_name u) (rusername rq))
            \<and> users (dbase w') = users (dbase w) @
                [\<lparr>u_id = next_user_id (dbase w), u_name = rusername rq,
                  u_hash = MD5Encrypt L (rpassword rq), u_online = False, u_last_login = None\<rparr>])
    \<and> (code r \<noteq> 0 \<and> code r \<noteq> 5001 \<longrightarrow> dbase w' = dbase w)
    \<and> friends (dbase w') = friends (dbase w) \<and> messages (dbase w') = messages (dbase w)
    \<and> smgr w' = smgr w \<and> network w' = network w \<and> cachedFriendLists w' = cachedFriendLists w"
proof -
  have "wp (HandleRegister L rq) (\<lambda>r w'. (code r = 0 \<longrightarrow> ValidateUsername (rusername rq)
            \<and> ValidatePassword (rpassword rq)
            \<and> sql_insert_user (mysql_of L) (rusername rq) (MD5Encrypt L (rpassword rq)) (dbase w) = Some (dbase w'))
      \<and> (code r \<noteq> 0 \<and> code r \<noteq> 5001 \<longrightarrow> dbase w' = dbase w)
      \<and> (dbase w' = dbase w
          \<or> sql_insert_user (mysql_of L) (rusername rq) (MD5Encrypt L (rpassword rq)) (dbase w) = Some (dbase w'))
      \<and> smgr w' = smgr w \<and> network w' = network w \<and> cachedFriendLists w' = cachedFriendLists w) w"
    by (auto simp: HandleRegister_def wp_simps intro!: wp_intros)
  from wp_run[OF this assms] show ?thesis
    using insert_user_Some[of "mysql_of L" "rusername rq" _ "dbase w" "dbase w'"] by metis
qed

theorem register_effect_witness:
  "users (dbase (snd (run_state (HandleRegister demo_libs (demo_request ''dave'' ''secret4'' 6)) demo_world)))
    = [alice, bob, carol, \<lparr>u_id = 4, u_name = ''dave'', u_hash = MD5Encrypt demo_libs ''secret4'',
         u_online = False, u_last_login = None\<rparr>]"
  using register_effect[of demo_libs "demo_request ''dave'' ''secret4'' 6" demo_world, OF prod.collapse[symmetric]]
    demo_register_dave by (simp add: demo_db_def)

text \<open>Without faults a registration succeeds exactly if name and password are valid and nobody has the
  name (digests have 16 bytes, as MD5 digests do).\<close>

lemma register_succeeds_iff:
  assumes "calm w" and "um_userDAO (server w)"
    and "\<And>p. \<exists>digest. evp_md5 L p = Some digest \<and> length digest = 16"
  shows "code (fst (run_state (HandleRegister L rq) w)) = 0 \<longleftrightarrow>
    ValidateUsername (rusername rq) \<and> ValidatePassword (rpassword rq)
    \<and> (\<forall>u\<in>set (users (dbase w)). \<not> same_name (mysql_of L) (u_name u) (rusername rq))"
proof -
  from assms(3)[of "rpassword rq"] obtain digest where
    "evp_md5 L (rpassword rq) = Some digest" "length digest = 16" by blast
  note fits = hash_fits[OF this]
  show ?thesis
    using assms(1,2) fits count_username_pos[of "mysql_of L" "rusername rq" "dbase w"]
    by (auto simp: run_HandleRegister_calm sql_insert_user_def valid_name_fits split: if_splits option.splits)
qed

lemma register_succeeds_iff_witness:
  "code (fst (run_state (HandleRegister demo_libs (demo_request ''alice'' ''secret4'' 6)) demo_world)) \<noteq> 0"
  using register_succeeds_iff[OF demo_calm, of demo_libs "demo_request ''alice'' ''secret4'' 6", OF _ demo_digest]
  by simp

text \<open>The stored hash determines the digest: two passwords have the same hash text exactly if OpenSSL gives
  them the same digest, and the text has two lower-case hexadecimal digits per byte.\<close>

lemma hash_text_faithful:
  assumes "evp_md5 L p = Some a" and "evp_md5 L q = Some b"
  shows "(MD5Encrypt L p = MD5Encrypt L q \<longleftrightarrow> a = b) \<and> length (MD5Encrypt L p) = 2 * length a
    \<and> set (MD5Encrypt L p) \<subseteq> {CHR ''0''..CHR ''9''} \<union> {CHR ''a''..CHR ''f''}"
proof -
  have "hex_digit n \<in> {CHR ''0''..CHR ''9''} \<union> {CHR ''a''..CHR ''f''}" if "n < 16" for n
    using that by (auto simp: hex_digit_def less_eq_char_def)
  then have "set (hex_byte c) \<subseteq> {CHR ''0''..CHR ''9''} \<union> {CHR ''a''..CHR ''f''}" for c
    using unsigned_less[of c, where ?'a = nat] by (simp add: hex_byte_def)
  then show ?thesis
    using assms hash_length[OF assms(1)] by (simp add: MD5Encrypt_def concat_hex_inj UN_subset_iff)
qed

lemma hash_text_faithful_witness:
  "MD5Encrypt demo_libs ''a'' \<noteq> MD5Encrypt demo_libs ''b'' \<and> length (MD5Encrypt demo_libs ''a'') = 32"
proof -
  let ?a = "map (\<lambda>c. word_of_nat (of_char c)) ''a'' @ replicate 15 0 :: 8 word list"
  let ?b = "map (\<lambda>c. word_of_nat (of_char c)) ''b'' @ replicate 15 0 :: 8 word list"
  have "evp_md5 demo_libs ''a'' = Some ?a" and "evp_md5 demo_libs ''b'' = Some ?b"
    by (simp_all add: demo_libs_def)
  from hash_text_faithful[OF this] show ?thesis by simp
qed

text \<open>C12: Whatever faults the database shows, a login that is answered with 0 came with the name of a registered
  user and with a password whose hash is the stored one; afterwards the connection's session
  carries the name, the name leads to this connection, and the heartbeat is fresh.  A login that is
  answered with anything else has no effect on users, sessions or sockets.\<close>

theorem login_authenticates:
  assumes "run_state (HandleLogin L rq) w = (r, w')" and "sessions_ok (smgr w)"
  shows "(code r = 0 \<longrightarrow>
           (\<exists>u\<in>set (users (dbase w)). same_name (mysql_of L) (u_name u) (rusername rq)
              \<and> u_hash u = MD5Encrypt L (rpassword rq))
           \<and> (\<forall>p. GetSession (clientSocket rq) (smgr w) = Some p \<longrightarrow>
                session_user (smgr w') (clientSocket rq) = rusername rq
                \<and> umap_find (usernameToSocket (smgr w')) (rusername rq) = Some (clientSocket rq)
                \<and> lastHeartbeat (deref (smgr w') p) = now w))
    \<and> (code r \<noteq> 0 \<longrightarrow> dbase w' = dbase w \<and> smgr w' = smgr w \<and> network w' = network w)"
proof -
  have "wp (HandleLogin L rq) (\<lambda>r w'. (code r = 0 \<longrightarrow>
      (\<exists>u. sql_user_by_name (mysql_of L) (rusername rq) (dbase w) = Some u
          \<and> u_hash u = MD5Encrypt L (rpassword rq))
       \<and> (\<forall>p. GetSession (clientSocket rq) (smgr w) = Some p \<longrightarrow>
            session_user (smgr w') (clientSocket rq) = rusername rq
            \<and> umap_find (usernameToSocket (smgr w')) (rusername rq) = Some (clientSocket rq)
            \<and> lastHeartbeat (deref (smgr w') p) = now w))
    \<and> (code r \<noteq> 0 \<longrightarrow> dbase w' = dbase w \<and> smgr w' = smgr w \<and> network w' = network w)) w"
    using assms(2)
    by (auto simp: HandleLogin_def wp_simps GetSession_def split: option.splits
        intro!: wp_intros wp_kick wp_bind_session wp_notify dest!: noticed_world)
  from wp_run[OF this assms(1)] show ?thesis
    by (auto simp: sql_user_by_name_def dest!: find_Some_in)
qed

theorem login_authenticates_witness:
  "session_user (smgr (snd (run_state (HandleLogin demo_libs (demo_request ''alice'' ''secret1'' 6)) demo_world))) 6
    = ''alice''"
  using login_authenticates[of demo_libs "demo_request ''alice'' ''secret1'' 6" demo_world, OF prod.collapse[symmetric]]
    demo_login_alice demo_sessions_ok by (simp add: wp_def)

text \<open>Single login: without faults, a correct login of a user who is online and has a session sends that
  session's connection the KICKED notice, then shuts the connection down, and takes the name off the
  old session --- on whichever connection it is, the one that is logging in included.\<close>

lemma login_ends_earlier_session:
  assumes "calm w" and "sessions_ok (smgr w)" and "um_sendCallback (server w)"
    and "users_ok (mysql_of L) (dbase w)" and "u \<in> set (users (dbase w))" and "u_online u"
    and "same_name (mysql_of L) (u_name u) (rusername rq)" and "u_hash u = MD5Encrypt L (rpassword rq)"
    and "ValidateUsername (rusername rq)" and "length (kicked_notice L) < 2 ^ 30"
    and "umap_find (usernameToSocket (smgr w)) (rusername rq) = Some old"
    and "umap_find (cliSessionMap (smgr w)) old = Some p"
    and "run_state (HandleLogin L rq) w = (r, w')"
  shows "code r = 0
    \<and> prefix (events (network w) @ [Sent old (PackageMessage (kicked_notice L)), Shutdown old]) (events (network w'))
    \<and> (old \<noteq> clientSocket rq \<longrightarrow> session_user (smgr w') old = [])"
proof -
  have u: "sql_user_by_name (mysql_of L) (rusername rq) (dbase w) = Some u"
    "sql_user_by_id (u_id u) (dbase w) = Some u"
    using assms(4,5,7) by (simp_all add: user_by_name_iff user_by_id_iff)
  have p: "GetSessionByUsername (rusername rq) (smgr w) = Some p"
    using assms(11,12) by (simp add: GetSessionByUsername_def)
  from sessions_okD[OF assms(2,12)] obtain c where c: "heap (smgr w) p = Some c" "socket c = old"
    "deref (smgr w) p = c" by auto
  have ok: "sessions_ok (update_at p (SetUsername []) (smgr w))"
    by (rule sessions_ok_update_at[OF assms(2,12)]) simp
  have old: "session_user (update_at p (SetUsername []) (smgr w)) old = []"
    using c assms(12) by (simp add: session_user_def update_at_live deref_def)
  have "wp (HandleLogin L rq) (\<lambda>r w'. code r = 0
    \<and> prefix (events (network w) @ [Sent old (PackageMessage (kicked_notice L)), Shutdown old]) (events (network w'))
    \<and> (old \<noteq> clientSocket rq \<longrightarrow> session_user (smgr w') old = [])) w"
    using assms(1,3,6,8,9,10) u p c ok old sessions_ok_touch[OF assms(2,12)]
    by (auto simp: HandleLogin_def kick_old_session_def wp_simps calm_wp sql_update_online_def
        sql_update_last_login_def sys_shutdown_def noticed_def prefix_def
        intro!: wp_bind_session wp_notify)
  from wp_run[OF this assms(13)] show ?thesis .
qed

lemma login_ends_earlier_session_witness:
  "let w' = snd (run_state (HandleLogin demo_libs (demo_request ''alice'' ''secret1'' 6)) demo_world)
   in prefix [Sent 4 (PackageMessage (kicked_notice demo_libs)), Shutdown 4] (events (network w'))
      \<and> session_user (smgr w') 4 = []"
proof -
  let ?rq = "demo_request ''alice'' ''secret1'' 6"
  have "prefix [Sent 4 (PackageMessage (kicked_notice demo_libs)), Shutdown 4]
      (events (network (snd (run_state (HandleLogin demo_libs ?rq) demo_world))))
    \<and> session_user (smgr (snd (run_state (HandleLogin demo_libs ?rq) demo_world))) 4 = []"
    using login_ends_earlier_session[OF demo_calm, of demo_libs alice ?rq 4 0, OF _ _ _ _ _ _ _ _ _ _ _ prod.collapse[symmetric]]
      demo_sessions_ok demo_db_ok
    by (simp add: demo_sessions_def umap_find_def db_ok_def kicked_notice_def write_json_def
        demo_libs_def[THEN arg_cong[of _ _ json_of]] demo_jsoncpp_def utf8_def txt_kicked_def)
  then show ?thesis by (simp add: Let_def)
qed

text \<open>A status notification changes no data, and, whatever faults the database and the sockets show, goes
  only to connections of users who are online and friends of the user it is about.\<close>

lemma notify_only_online_friends:
  assumes "run_state (NotifyFriendsStatusChange L name status) w = ((), w')"
    and "sessions_ok (smgr w)" and "users_ok (mysql_of L) (dbase w)"
  shows "dbase w' = dbase w \<and> smgr w' = smgr w
    \<and> (\<exists>evs. events (network w') = events (network w) @ evs
        \<and> (\<forall>e\<in>set evs. \<exists>u\<in>set (users (dbase w)). \<exists>v\<in>set (users (dbase w)). \<exists>p bytes.
             same_name (mysql_of L) (u_name u) name \<and> are_friends (dbase w) (u_id u) (u_id v) \<and> u_online v
             \<and> GetSessionByUsername (u_name v) (smgr w) = Some p
             \<and> e = Sent (socket (deref (smgr w) p)) bytes))"
proof -
  have "wp (NotifyFriendsStatusChange L name status) (\<lambda>_. noticed L name w) w"
    using assms(2) by (rule wp_notify)
  from wp_run[OF this assms(1)] have n: "noticed L name w w'" .
  then obtain evs where "events (network w') = events (network w) @ evs"
    and "\<forall>e\<in>set evs. notice_target L name (dbase w) (smgr w) e" by (auto simp: noticed_def)
  moreover from this(2) have "\<forall>e\<in>set evs. \<exists>u\<in>set (users (dbase w)). \<exists>v\<in>set (users (dbase w)). \<exists>p bytes.
             same_name (mysql_of L) (u_name u) name \<and> are_friends (dbase w) (u_id u) (u_id v) \<and> u_online v
             \<and> GetSessionByUsername (u_name v) (smgr w) = Some p
             \<and> e = Sent (socket (deref (smgr w) p)) bytes"
    unfolding notice_target_def friend_list_mem user_by_name_iff[OF assms(3)] by blast
  ultimately show ?thesis using noticed_world[OF n] by blast
qed

lemma notify_only_online_friends_witness:
  "\<exists>evs. events (network (snd (run_state (NotifyFriendsStatusChange demo_libs ''alice'' Online) demo_world))) = evs
     \<and> (\<forall>e\<in>set evs. \<exists>bytes. e = Sent 5 bytes)"
proof -
  have eq: "run_state (NotifyFriendsStatusChange demo_libs ''alice'' Online) demo_world
      = ((), snd (run_state (NotifyFriendsStatusChange demo_libs ''alice'' Online) demo_world))"
    by (rule prod_eqI) simp_all
  have only: "u = alice" if "u \<in> set (users demo_db)" "same_name (mysql_of demo_libs) (u_name u) ''alice''" for u
    using that by (auto simp: lower_char_def)
  have bob: "v = bob" if "v \<in> set (users demo_db)" "are_friends demo_db 1 (u_id v)" for v
    using that by (auto simp: are_friends_def demo_db_def)
  have sock: "socket (deref demo_sessions 1) = 5"
    by (simp add: demo_sessions_def demo_session_def deref_def ClientSession_new_def)
  have ok: "sessions_ok (smgr demo_world)" "users_ok (mysql_of demo_libs) (dbase demo_world)"
    using demo_sessions_ok demo_db_ok by (simp_all add: db_ok_def)
  obtain evs where evs: "events (network (snd (run_state (NotifyFriendsStatusChange demo_libs ''alice'' Online) demo_world))) = evs"
    and tgt: "\<forall>e\<in>set evs. \<exists>u\<in>set (users demo_db). \<exists>v\<in>set (users demo_db). \<exists>p bytes.
      same_name (mysql_of demo_libs) (u_name u) ''alice'' \<and> are_friends demo_db (u_id u) (u_id v) \<and> u_online v
      \<and> GetSessionByUsername (u_name v) demo_sessions = Some p \<and> e = Sent (socket (deref demo_sessions p)) bytes"
    using notify_only_online_friends[OF eq ok] by (simp del: demo_same_name demo_users)
  have "\<exists>bytes. e = Sent 5 bytes" if e: "e \<in> set evs" for e
  proof -
    obtain u v p bytes where "u \<in> set (users demo_db)" "same_name (mysql_of demo_libs) (u_name u) ''alice''"
      "v \<in> set (users demo_db)" "are_friends demo_db (u_id u) (u_id v)"
      "GetSessionByUsername (u_name v) demo_sessions = Some p" "e = Sent (socket (deref demo_sessions p)) bytes"
      using tgt e by blast
    with only[of u] bob[of v] sock show ?thesis by (simp del: demo_same_name demo_users)
  qed
  with evs show ?thesis by blast
qed

text \<open>C29: Whatever faults the database shows, a profile update changes at most the name and the password hash of
  the one user who is named in the request and whose password it proves; a new name is valid and was
  free, a new hash is that of a valid password, and an answer of 0 means that every requested change
  was made and there was one.  Sessions are never touched: the connection keeps serving the old name.\<close>

theorem update_user_effect:
  assumes "run_state (HandleUpdateUser L rq) w = (r, w')" and "users_ok (mysql_of L) (dbase w)"
  shows "smgr w' = smgr w \<and> network w' = network w \<and> cachedFriendLists w' = cachedFriendLists w
    \<and> (code r = 0 \<or> dbase w' \<noteq> dbase w \<longrightarrow>
        (\<exists>u\<in>set (users (dbase w)). \<exists>n h. same_name (mysql_of L) (u_name u) (rusername rq)
          \<and> u_hash u = MD5Encrypt L (verifyPassword rq)
          \<and> dbase w' = rewritten u n h (dbase w)
          \<and> (n = u_name u \<or> n = newUsername rq \<and> ValidateUsername n
               \<and> (\<forall>v\<in>set (users (dbase w)). u_id v \<noteq> u_id u \<longrightarrow> \<not> same_name (mysql_of L) (u_name v) n))
          \<and> (h = u_hash u \<or> h = MD5Encrypt L (newPassword rq) \<and> ValidatePassword (newPassword rq))
          \<and> (code r = 0 \<longrightarrow> (newUsername rq \<noteq> [] \<or> newPassword rq \<noteq> [])
               \<and> (newUsername rq \<noteq> [] \<longrightarrow> n = newUsername rq)
               \<and> (newPassword rq \<noteq> [] \<longrightarrow> h = MD5Encrypt L (newPassword rq)))))"
  (is "_ \<and> _ \<and> _ \<and> (_ \<longrightarrow> ?C)")
proof -
  consider "code r \<noteq> 0" "dbase w' = dbase w"
    | u where "u \<in> set (users (dbase w))" "same_name (mysql_of L) (u_name u) (rusername rq)"
        "u_hash u = MD5Encrypt L (verifyPassword rq)" "updated L rq (u_id u) (code r = 0) (dbase w) (dbase w')"
    using wp_run[OF wp_HandleUpdateUser assms(1)] user_by_name_iff[OF assms(2)] by blast
  then have main: "code r = 0 \<or> dbase w' \<noteq> dbase w \<longrightarrow> ?C"
  proof cases
    case 1
    then show ?thesis by simp
  next
    case (2 u)
    from updated_rows[OF 2(4) assms(2) 2(1)] 2(1-3) show ?thesis by blast
  qed
  then show ?thesis using wp_run[OF wp_HandleUpdateUser assms(1)] by blast
qed

theorem update_user_effect_witness:
  "\<exists>n h. dbase (snd (run_state (HandleUpdateUser demo_libs
        ((demo_request ''carol'' [] 6)\<lparr>verifyPassword := ''secret3'', newPassword := ''secret9''\<rparr>)) demo_world))
      = rewritten carol n h demo_db \<and> h = MD5Encrypt demo_libs ''secret9''"
proof -
  let ?rq = "(demo_request ''carol'' [] 6)\<lparr>verifyPassword := ''secret3'', newPassword := ''secret9''\<rparr>"
  have ok: "code (fst (run_state (HandleUpdateUser demo_libs ?rq) demo_world)) = 0"
  proof -
    have "wp (HandleUpdateUser demo_libs ?rq) (\<lambda>r w'. code r = 0) demo_world"
      using demo_calm demo_fits
      by (simp add: HandleUpdateUser_def change_username_def change_password_def wp_simps calm_wp
          sql_update_password_def ValidatePassword_def)
    then show ?thesis by (simp add: wp_def)
  qed
  have only: "u = carol" if "u \<in> set (users demo_db)" "same_name (mysql_of demo_libs) (u_name u) ''carol''" for u
    using that by (auto simp: lower_char_def)
  have "users_ok (mysql_of demo_libs) (dbase demo_world)" using demo_db_ok by (simp add: db_ok_def)
  from update_user_effect[of demo_libs ?rq demo_world, OF prod.collapse[symmetric] this] ok
  obtain u n h where "u \<in> set (users demo_db)" "same_name (mysql_of demo_libs) (u_name u) ''carol''"
    and "dbase (snd (run_state (HandleUpdateUser demo_libs ?rq) demo_world)) = rewritten u n h demo_db"
    and "h = MD5Encrypt demo_libs ''secret9''"
    by (simp del: demo_same_name demo_users) blast
  with only show ?thesis by blast
qed

text \<open>A profile update is not atomic: with a good new name and a malformed new password the answer is the
  error 2001, but the name has been changed.\<close>

lemma update_user_partial:
  assumes "calm w" and "users_ok (mysql_of L) (dbase w)" and "u \<in> set (users (dbase w))"
    and "same_name (mysql_of L) (u_name u) (rusername rq)" and "u_hash u = MD5Encrypt L (verifyPassword rq)"
    and "ValidateUsername (newUsername rq)"
    and "\<forall>v\<in>set (users (dbase w)). \<not> same_name (mysql_of L) (u_name v) (newUsername rq)"
    and "newPassword rq \<noteq> []" and "\<not> ValidatePassword (newPassword rq)"
    and "run_state (HandleUpdateUser L rq) w = (r, w')"
  shows "code r = 2001 \<and> dbase w' = map_users (\<lambda>v. u_id v = u_id u) (\<lambda>v. v\<lparr>u_name := newUsername rq\<rparr>) (dbase w)"
proof -
  have u: "sql_user_by_name (mysql_of L) (rusername rq) (dbase w) = Some u"
    using assms(2-4) by (simp add: user_by_name_iff)
  have new: "newUsername rq \<noteq> []" using assms(6) by (auto simp: ValidateUsername_def)
  have "sql_count_username (mysql_of L) (newUsername rq) (dbase w) = 0"
    using assms(7) count_username_pos[of "mysql_of L" "newUsername rq" "dbase w"] by auto
  moreover have "sql_update_username (mysql_of L) (u_id u) (newUsername rq) (dbase w)
      = Some (map_users (\<lambda>v. u_id v = u_id u) (\<lambda>v. v\<lparr>u_name := newUsername rq\<rparr>) (dbase w))"
    using assms(7) valid_name_fits[OF assms(6)] by (auto simp: sql_update_username_def)
  ultimately have "wp (HandleUpdateUser L rq) (\<lambda>r w'. code r = 2001
      \<and> dbase w' = map_users (\<lambda>v. u_id v = u_id u) (\<lambda>v. v\<lparr>u_name := newUsername rq\<rparr>) (dbase w)) w"
    using assms(1,5,6,8,9) u new
    by (simp add: HandleUpdateUser_def change_username_def change_password_def wp_simps calm_wp)
  from wp_run[OF this assms(10)] show ?thesis .
qed

lemma update_user_partial_witness:
  "code (fst (run_state (HandleUpdateUser demo_libs ((demo_request ''carol'' [] 6)
     \<lparr>verifyPassword := ''secret3'', newUsername := ''dave'', newPassword := ''abc''\<rparr>)) demo_world)) = 2001"
proof -
  let ?rq = "(demo_request ''carol'' [] 6)
     \<lparr>verifyPassword := ''secret3'', newUsername := ''dave'', newPassword := ''abc''\<rparr>"
  show ?thesis
    using update_user_partial[OF demo_calm, of demo_libs carol ?rq, OF _ _ _ _ _ _ _ _ prod.collapse[symmetric]]
      demo_db_ok
    by (simp add: db_ok_def lower_char_def ValidatePassword_def)
qed

end
