(* ===== verification/Friend_Manager.thy ===== *)
theory Friend_Manager
  imports User_Manager
begin

text \<open>
  Friendships, \<^verbatim>\<open>src/src/system/friend_manager.cpp\<close>.  The cache of friend lists is the field
  \<open>cachedFriendLists\<close> of the world.
\<close>

definition target_of :: "Request \<Rightarrow> string" where
  "target_of request = (if targetUsername request = [] then rusername request else targetUsername request)"

definition HandleAddFriend :: "libs \<Rightarrow> Request \<Rightarrow> Response act" where
  "HandleAddFriend L request =
     (if target_of request = [] then State_Monad.return (reply 1001 txt_target_empty)
      else if rusername request = target_of request
      then State_Monad.return (reply 3003 txt_no_self_friend)
      else do {
        uid \<leftarrow> GetUserIdByUsername L (rusername request);
        case uid of
          None \<Rightarrow> State_Monad.return (reply 2003 txt_user_missing)
        | Some userId \<Rightarrow> do {
            tid \<leftarrow> GetUserIdByUsername L (target_of request);
            case tid of
              None \<Rightarrow> State_Monad.return (reply 3001 txt_target_missing)
            | Some targetUserId \<Rightarrow> do {
                already \<leftarrow> CheckFriendship_dao userId targetUserId;
                if already then State_Monad.return (reply 3002 txt_already_friends)
                else do {
                  ok \<leftarrow> InsertFriend userId targetUserId;
                  if \<not> ok then State_Monad.return (reply 5001 txt_db_op_failed)
                  else State_Monad.return (reply 0 txt_add_friend_ok)
                }
              }
          }
      })"

definition HandleDeleteFriend :: "libs \<Rightarrow> Request \<Rightarrow> Response act" where
  "HandleDeleteFriend L request =
     (if target_of request = [] then State_Monad.return (reply 1001 txt_target_empty)
      else do {
        uid \<leftarrow> GetUserIdByUsername L (rusername request);
        case uid of
          None \<Rightarrow> State_Monad.return (reply 2003 txt_user_missing)
        | Some userId \<Rightarrow> do {
            tid \<leftarrow> GetUserIdByUsername L (target_of request);
            case tid of
              None \<Rightarrow> State_Monad.return (reply 3001 txt_target_missing)
            | Some targetUserId \<Rightarrow> do {
                friendship \<leftarrow> CheckFriendship_dao userId targetUserId;
                if \<not> friendship then State_Monad.return (reply 3004 txt_not_friends)
                else do {
                  ok \<leftarrow> DeleteFriend userId targetUserId;
                  if \<not> ok then State_Monad.return (reply 5001 txt_db_op_failed)
                  else do {
                    _ \<leftarrow> DeleteMessagesBetweenUsers userId targetUserId;
                    State_Monad.return (reply 0 txt_del_friend_ok)
                  }
                }
              }
          }
      })"

definition friends_json :: "(string \<times> bool) list \<Rightarrow> json" where
  "friends_json fs = JObj [(''friends'', JArr (map (\<lambda>(name, isOnline).
     JObj [(''status'', JStr (status_text isOnline)), (''username'', JStr name)]) fs))]"

definition HandleFriendList :: "libs \<Rightarrow> Request \<Rightarrow> Response act" where
  "HandleFriendList L request = do {
     uid \<leftarrow> GetUserIdByUsername L (rusername request);
     case uid of
       None \<Rightarrow> State_Monad.return (reply 2003 txt_user_missing)
     | Some userId \<Rightarrow> do {
         fs \<leftarrow> GetFriendList L userId;
         case fs of
           None \<Rightarrow> State_Monad.return (reply 5002 txt_db_query_failed)
         | Some friendList \<Rightarrow> State_Monad.return
             \<lparr>code = 0, msg = txt_query_ok, rdata = write_json L (friends_json friendList)\<rparr>
       }
   }"

definition HandleFriendStatus :: "libs \<Rightarrow> Request \<Rightarrow> Response act" where
  "HandleFriendStatus L request =
     (if target_of request = [] then State_Monad.return (reply 1001 txt_target_empty)
      else do {
        tid \<leftarrow> GetUserIdByUsername L (target_of request);
        case tid of
          None \<Rightarrow> State_Monad.return (reply 3001 txt_target_missing)
        | Some targetUserId \<Rightarrow> do {
            status \<leftarrow> GetUserOnlineStatus targetUserId;
            case status of
              None \<Rightarrow> State_Monad.return (reply 5002 txt_db_query_failed)
            | Some isOnline \<Rightarrow> State_Monad.return
                \<lparr>code = 0, msg = status_zh isOnline,
                 rdata = write_json L (JObj [(''status'', JStr (status_text isOnline))])\<rparr>
          }
      })"

definition HandleQueryFriend :: "libs \<Rightarrow> Request \<Rightarrow> Response act" where
  "HandleQueryFriend L request =
     (if target_of request = [] then State_Monad.return (reply 1001 txt_target_empty)
      else do {
        tid \<leftarrow> GetUserIdByUsername L (target_of request);
        case tid of
          None \<Rightarrow> State_Monad.return (reply 3001 txt_target_missing)
        | Some targetUserId \<Rightarrow> do {
            status \<leftarrow> GetUserOnlineStatus targetUserId;
            case status of
              None \<Rightarrow> State_Monad.return (reply 5002 txt_db_query_failed)
            | Some isOnline \<Rightarrow> State_Monad.return
                \<lparr>code = 0, msg = txt_query_ok,
                 rdata = write_json L (JObj [(''status'', JStr (status_text isOnline)),
                                             (''username'', JStr (target_of request))])\<rparr>
          }
      })"

definition CheckFriendship :: "libs \<Rightarrow> string \<Rightarrow> string \<Rightarrow> bool act" where
  "CheckFriendship L username1 username2 = do {
     uid1 \<leftarrow> GetUserIdByUsername L username1;
     case uid1 of
       None \<Rightarrow> State_Monad.return False
     | Some userId1 \<Rightarrow> do {
         uid2 \<leftarrow> GetUserIdByUsername L username2;
         case uid2 of
           None \<Rightarrow> State_Monad.return False
         | Some userId2 \<Rightarrow> CheckFriendship_dao userId1 userId2
       }
   }"

definition CacheFriendList :: "libs \<Rightarrow> string \<Rightarrow> unit act" where
  "CacheFriendList L name = do {
     uid \<leftarrow> GetUserIdByUsername L name;
     case uid of
       None \<Rightarrow> skip
     | Some userId \<Rightarrow> do {
         fs \<leftarrow> GetFriendList L userId;
         case fs of
           None \<Rightarrow> skip
         | Some friendList \<Rightarrow> cache_put name (map fst friendList)
       }
   }"

definition RemoveFriendCache :: "string \<Rightarrow> unit act" where
  "RemoveFriendCache name = do {
     cached \<leftarrow> gets (\<lambda>w. umap_find (cachedFriendLists w) name);
     guarded (cached \<noteq> None) (cache_erase name)
   }"

definition GetCachedFriendList :: "string \<Rightarrow> string list act" where
  "GetCachedFriendList name = gets (\<lambda>w. case umap_find (cachedFriendLists w) name of Some l \<Rightarrow> l | None \<Rightarrow> [])"

section \<open>What the handlers keep\<close>

context handler_inv begin

lemma keeps_friend_manager:
  assumes L: "mysql_of L = Q"
  shows "keeps I (HandleAddFriend L request)" "keeps I (HandleDeleteFriend L request)"
    "keeps I (HandleFriendList L request)" "keeps I (HandleFriendStatus L request)"
    "keeps I (HandleQueryFriend L request)" "keeps I (CacheFriendList L name)"
  unfolding HandleAddFriend_def HandleDeleteFriend_def HandleFriendList_def HandleFriendStatus_def
    HandleQueryFriend_def CacheFriendList_def
  by (intro handler_intros keeps_bind keeps_dao; auto simp: L)+

lemma keeps_RemoveFriendCache: "keeps I (RemoveFriendCache name)"
  unfolding RemoveFriendCache_def by (intro handler_intros keeps_bind)

end

section \<open>Lemmas\<close>

text \<open>The rows of the friendship table after an insertion and a deletion.\<close>

definition befriended :: "int \<Rightarrow> int \<Rightarrow> database \<Rightarrow> database" where
  "befriended a b d = d\<lparr>friends := friends d @ [\<lparr>f_id = next_friend_id d, f_user1 = a, f_user2 = b\<rparr>],
     next_friend_id := next_friend_id d + 1\<rparr>"

definition unfriended :: "int \<Rightarrow> int \<Rightarrow> database \<Rightarrow> database" where
  "unfriended a b d = d\<lparr>friends := filter (\<lambda>f. \<not> (f_user1 f = a \<and> f_user2 f = b)) (friends d),
     messages := filter (\<lambda>m. \<not> between a b m) (messages d)\<rparr>"

lemma are_friends_befriended:
  "are_friends (befriended a b d) x y \<longleftrightarrow> are_friends d x y \<or> {x, y} = {a, b}"
  by (auto simp: are_friends_def befriended_def doubleton_eq_iff)

lemma are_friends_sym: "are_friends d a b \<longleftrightarrow> are_friends d b a"
  by (auto simp: are_friends_def)

lemma insert_friend_Some:
  assumes "users_ok Q d" and "u \<in> set (users d)" and "v \<in> set (users d)"
    and "sql_count_friends (u_id u) (u_id v) d = 0"
  shows "sql_insert_friend (u_id u) (u_id v) d = Some (befriended (u_id u) (u_id v) d)"
  using assms count_friends_pos[of "u_id u" "u_id v" d]
  by (auto simp: sql_insert_friend_def befriended_def user_exists_def)

section \<open>Properties\<close>

text \<open>Without faults, and for a requester and a target that are registered and spelled differently, adding a friend
  is refused with 3002 exactly if the requester has already added the target, and otherwise succeeds
  with one new row; afterwards the two are friends in both directions and nobody else's friendships
  have changed.\<close>

lemma add_friend_effect:
  assumes "calm w" and "users_ok (mysql_of L) (dbase w)"
    and "u \<in> set (users (dbase w))" and "same_name (mysql_of L) (u_name u) (rusername rq)"
    and "v \<in> set (users (dbase w))" and "same_name (mysql_of L) (u_name v) (target_of rq)"
    and "target_of rq \<noteq> []" and "rusername rq \<noteq> target_of rq"
    and "run_state (HandleAddFriend L rq) w = (r, w')"
  shows "(if \<exists>f\<in>set (friends (dbase w)). f_user1 f = u_id u \<and> f_user2 f = u_id v
          then code r = 3002 \<and> dbase w' = dbase w
          else code r = 0 \<and> dbase w' = befriended (u_id u) (u_id v) (dbase w)
            \<and> (\<forall>x y. are_friends (dbase w') x y \<longleftrightarrow> are_friends (dbase w) x y \<or> {x, y} = {u_id u, u_id v}))
    \<and> smgr w' = smgr w \<and> network w' = network w"
proof -
  have ids: "sql_user_by_name (mysql_of L) (rusername rq) (dbase w) = Some u"
    "sql_user_by_name (mysql_of L) (target_of rq) (dbase w) = Some v"
    using assms(2-6) by (simp_all add: user_by_name_iff)
  have "wp (HandleAddFriend L rq) (\<lambda>r w'. (if 0 < sql_count_friends (u_id u) (u_id v) (dbase w)
        then code r = 3002 \<and> dbase w' = dbase w
        else code r = 0 \<and> dbase w' = befriended (u_id u) (u_id v) (dbase w))
      \<and> smgr w' = smgr w \<and> network w' = network w) w"
    using assms(1,7,8) ids insert_friend_Some[OF assms(2,3,5)]
    by (simp add: HandleAddFriend_def wp_simps calm_wp)
  from wp_run[OF this assms(9)] show ?thesis
    unfolding count_friends_pos by (auto simp: are_friends_befriended)
qed

lemma add_friend_effect_witness:
  "let rq = (demo_request ''bob'' [] 5)\<lparr>targetUsername := ''alice''\<rparr>;
       w' = snd (run_state (HandleAddFriend demo_libs rq) demo_world)
   in dbase w' = befriended 2 1 demo_db"
proof -
  let ?rq = "(demo_request ''bob'' [] 5)\<lparr>targetUsername := ''alice''\<rparr>"
  have "\<not> (\<exists>f\<in>set (friends demo_db). f_user1 f = 2 \<and> f_user2 f = 1)" by (simp add: demo_db_def)
  then show ?thesis
    using add_friend_effect[OF demo_calm, of demo_libs bob ?rq alice, OF _ _ _ _ _ _ _ prod.collapse[symmetric]]
      demo_db_ok
    by (simp add: db_ok_def target_of_def lower_char_def Let_def)
qed

text \<open>Without faults, deleting a friend works for the one who added the other: the friendship row and all
  messages between the two are gone and nothing else.  Any other request --- the one who was added
  included --- is answered with 3004 and changes nothing.\<close>

lemma delete_friend_effect:
  assumes "calm w" and "users_ok (mysql_of L) (dbase w)"
    and "u \<in> set (users (dbase w))" and "same_name (mysql_of L) (u_name u) (rusername rq)"
    and "v \<in> set (users (dbase w))" and "same_name (mysql_of L) (u_name v) (target_of rq)"
    and "target_of rq \<noteq> []" and "run_state (HandleDeleteFriend L rq) w = (r, w')"
  shows "(if \<exists>f\<in>set (friends (dbase w)). f_user1 f = u_id u \<and> f_user2 f = u_id v
          then code r = 0 \<and> dbase w' = unfriended (u_id u) (u_id v) (dbase w)
          else code r = 3004 \<and> dbase w' = dbase w)
    \<and> smgr w' = smgr w \<and> network w' = network w"
proof -
  have ids: "sql_user_by_name (mysql_of L) (rusername rq) (dbase w) = Some u"
    "sql_user_by_name (mysql_of L) (target_of rq) (dbase w) = Some v"
    using assms(2-6) by (simp_all add: user_by_name_iff)
  have "wp (HandleDeleteFriend L rq) (\<lambda>r w'. (if 0 < sql_count_friends (u_id u) (u_id v) (dbase w)
        then code r = 0 \<and> dbase w' = unfriended (u_id u) (u_id v) (dbase w)
        else code r = 3004 \<and> dbase w' = dbase w)
      \<and> smgr w' = smgr w \<and> network w' = network w) w"
    using assms(1,7) ids
    by (simp add: HandleDeleteFriend_def wp_simps calm_wp sql_delete_friend_def sql_delete_messages_def
        unfriended_def between_def)
  from wp_run[OF this assms(8)] show ?thesis unfolding count_friends_pos .
qed

lemma delete_friend_effect_witness:
  "let rq = (demo_request ''alice'' [] 4)\<lparr>targetUsername := ''bob''\<rparr>
   in friends (dbase (snd (run_state (HandleDeleteFriend demo_libs rq) demo_world))) = []"
proof -
  let ?rq = "(demo_request ''alice'' [] 4)\<lparr>targetUsername := ''bob''\<rparr>"
  have "\<exists>f\<in>set (friends demo_db). f_user1 f = 1 \<and> f_user2 f = 2" by (simp add: demo_db_def)
  moreover have "friends (unfriended 1 2 demo_db) = []" by (simp add: unfriended_def demo_db_def)
  ultimately show ?thesis
    using delete_friend_effect[OF demo_calm, of demo_libs alice ?rq bob, OF _ _ _ _ _ _ prod.collapse[symmetric]]
      demo_db_ok
    by (simp add: db_ok_def target_of_def Let_def)
qed

text \<open>C30: Without faults, the friend list shows exactly the users who are friends of the requester in either
  direction, each with the status in the users table.\<close>

theorem friend_list_exact:
  assumes "calm w" and "users_ok (mysql_of L) (dbase w)"
    and "u \<in> set (users (dbase w))" and "same_name (mysql_of L) (u_name u) (rusername rq)"
    and "run_state (HandleFriendList L rq) w = (r, w')"
  shows "dbase w' = dbase w \<and> code r = 0
    \<and> (\<exists>entries. rdata r = write_json L (friends_json entries)
        \<and> set entries = (\<lambda>v. (u_name v, u_online v)) `
            {v \<in> set (users (dbase w)). u_id v \<noteq> u_id u \<and> are_friends (dbase w) (u_id u) (u_id v)})"
proof -
  have u: "sql_user_by_name (mysql_of L) (rusername rq) (dbase w) = Some u"
    using assms(2-4) by (simp add: user_by_name_iff)
  have "set (sql_friend_list (mysql_of L) (u_id u) (dbase w)) = (\<lambda>v. (u_name v, u_online v)) `
            {v \<in> set (users (dbase w)). u_id v \<noteq> u_id u \<and> are_friends (dbase w) (u_id u) (u_id v)}"
    by (auto simp: friend_list_mem)
  moreover have "wp (HandleFriendList L rq) (\<lambda>r w'. dbase w' = dbase w \<and> code r = 0
      \<and> rdata r = write_json L (friends_json (sql_friend_list (mysql_of L) (u_id u) (dbase w)))) w"
    using assms(1) u by (simp add: HandleFriendList_def wp_simps calm_wp)
  note wp_run[OF this assms(5)]
  ultimately show ?thesis by blast
qed

theorem friend_list_exact_witness:
  "\<exists>entries. rdata (fst (run_state (HandleFriendList demo_libs (demo_request ''bob'' [] 5)) demo_world))
      = write_json demo_libs (friends_json entries) \<and> set entries = {(''alice'', True)}"
proof -
  have "(\<lambda>v. (u_name v, u_online v)) ` {v \<in> set (users demo_db). u_id v \<noteq> 2 \<and> are_friends demo_db 2 (u_id v)}
      = {(''alice'', True)}"
    by (auto simp: are_friends_def demo_db_def intro!: image_eqI[of _ _ alice])
  moreover have "users_ok (mysql_of demo_libs) (dbase demo_world)" using demo_db_ok by (simp add: db_ok_def)
  ultimately show ?thesis
    using friend_list_exact[OF demo_calm, of demo_libs bob "demo_request ''bob'' [] 5", OF _ _ _ prod.collapse[symmetric]]
    by (simp del: demo_users) (simp add: lower_char_def)
qed

end
