(* ===== verification/Message_Manager.thy ===== *)
theory Message_Manager
  imports User_Manager
begin

text \<open>
  Sending, forwarding and storing messages, \<^verbatim>\<open>src/src/system/message_manager.cpp\<close>.
\<close>

definition maxMessageSize :: nat where
  "maxMessageSize = 65536"

text \<open>\<open>std::isspace\<close> in the C locale.\<close>

definition is_space :: "char \<Rightarrow> bool" where
  "is_space c \<longleftrightarrow> c = CHR '' '' \<or> (CHR 0x09 \<le> c \<and> c \<le> CHR 0x0D)"

fun has_visible :: "string \<Rightarrow> bool" where
  "has_visible [] = False"
| "has_visible (c # cs) = (if \<not> is_space c then True else has_visible cs)"

definition ValidateMessageContent :: "string \<Rightarrow> bool" where
  "ValidateMessageContent content = (if content = [] then False else has_visible content)"

definition StoreMessage :: "int \<Rightarrow> int \<Rightarrow> string \<Rightarrow> bool act" where
  "StoreMessage fromId toId content = InsertMessage fromId toId content"

definition forward_json :: "libs \<Rightarrow> string \<Rightarrow> string \<Rightarrow> string \<Rightarrow> string" where
  "forward_json L sender content timeText = write_json L (JObj
     [(''data'', JObj [(''content'', JStr content), (''sender'', JStr sender), (''timestamp'', JStr timeText)]),
      (''type'', JStr ''FORWARD_MSG'')])"

definition ForwardMessage :: "libs \<Rightarrow> int \<Rightarrow> string \<Rightarrow> int \<Rightarrow> string \<Rightarrow> string \<Rightarrow> string \<Rightarrow> bool act" where
  "ForwardMessage L fromId senderName toId receiverName content timeText = do {
     receiverSession \<leftarrow> get_session_by_username receiverName;
     case receiverSession of
       None \<Rightarrow> State_Monad.return False
     | Some p \<Rightarrow> do {
         callback \<leftarrow> gets (\<lambda>w. mm_sendCallback (server w));
         if callback then do {
           sock \<leftarrow> session_get p GetSocket;
           result \<leftarrow> send_data sock (forward_json L senderName content timeText);
           guarded result (do { _ \<leftarrow> MarkMessagesAsRead fromId toId; skip });
           State_Monad.return result
         }
         else State_Monad.return False
       }
   }"

definition summary_of :: "string \<Rightarrow> string" where
  "summary_of content = (if length content > 50 then take 50 content @ ''...'' else content)"

definition notification_json :: "libs \<Rightarrow> string \<Rightarrow> string \<Rightarrow> string" where
  "notification_json L sender content = write_json L (JObj
     [(''data'', JObj [(''sender'', JStr sender), (''summary'', JStr (summary_of content))]),
      (''type'', JStr ''MSG_NOTIFY'')])"

definition SendNotification :: "libs \<Rightarrow> int \<Rightarrow> string \<Rightarrow> string \<Rightarrow> unit act" where
  "SendNotification L receiverSocket sender content = do {
     callback \<leftarrow> gets (\<lambda>w. mm_sendCallback (server w));
     guarded callback (do {
       _ \<leftarrow> send_data receiverSocket (notification_json L sender content);
       skip
     })
   }"

text \<open>The part of \<open>HandleSendMessage\<close> that serves a receiver who is online.\<close>

definition deliver_online :: "libs \<Rightarrow> int \<Rightarrow> int \<Rightarrow> Request \<Rightarrow> unit act" where
  "deliver_online L fromId toId request = do {
     receiverSession \<leftarrow> get_session_by_username (targetUsername request);
     callback \<leftarrow> gets (\<lambda>w. mm_sendCallback (server w));
     case receiverSession of
       None \<Rightarrow> skip
     | Some p \<Rightarrow> guarded callback (do {
         _ \<leftarrow> ForwardMessage L fromId (rusername request) toId (targetUsername request)
                (rcontent request) [];
         sock \<leftarrow> session_get p GetSocket;
         SendNotification L sock (rusername request) (rcontent request)
       })
   }"

definition HandleSendMessage :: "libs \<Rightarrow> Request \<Rightarrow> Response act" where
  "HandleSendMessage L request =
     (if \<not> ValidateMessageContent (rcontent request)
      then State_Monad.return (reply 4001 txt_content_empty)
      else if length (rcontent request) > maxMessageSize
      then State_Monad.return (reply 4002 txt_content_too_long)
      else do {
        sid \<leftarrow> GetUserIdByUsername L (rusername request);
        case sid of
          None \<Rightarrow> State_Monad.return (reply 4003 txt_sender_missing)
        | Some fromId \<Rightarrow> do {
            rid \<leftarrow> GetUserIdByUsername L (targetUsername request);
            case rid of
              None \<Rightarrow> State_Monad.return (reply 4003 txt_receiver_missing)
            | Some toId \<Rightarrow> do {
                stored \<leftarrow> StoreMessage fromId toId (rcontent request);
                if \<not> stored then State_Monad.return (reply 5001 txt_db_op_failed)
                else do {
                  isOnline \<leftarrow> GetUserOnlineStatus toId;
                  guarded (isOnline = Some True) (deliver_online L fromId toId request);
                  State_Monad.return (reply 0 txt_send_ok)
                }
              }
          }
      })"

definition history_count :: "int \<Rightarrow> int" where
  "history_count n = (if n \<le> 0 \<or> n > 200 then 50 else n)"

definition messages_json :: "message list \<Rightarrow> json" where
  "messages_json ms = JObj [(''messages'', JArr (map (\<lambda>m. JObj
     [(''content'', JStr (content_of m)), (''is_read'', JBool (isRead m)),
      (''sender'', JStr (senderUsername m)), (''timestamp'', JStr (sendTime m))]) ms))]"

definition HandleHistoryMessages :: "libs \<Rightarrow> Request \<Rightarrow> Response act" where
  "HandleHistoryMessages L request =
     (if targetUsername request = [] then State_Monad.return (reply 1001 txt_target_empty)
      else do {
        uid1 \<leftarrow> GetUserIdByUsername L (rusername request);
        case uid1 of
          None \<Rightarrow> State_Monad.return (reply 4003 txt_user_missing)
        | Some userId1 \<Rightarrow> do {
            uid2 \<leftarrow> GetUserIdByUsername L (targetUsername request);
            case uid2 of
              None \<Rightarrow> State_Monad.return (reply 4003 txt_target_missing)
            | Some userId2 \<Rightarrow> do {
                found \<leftarrow> GetHistoryMessages L userId1 userId2 (history_count (rcount request));
                case found of
                  None \<Rightarrow> State_Monad.return (reply 5002 txt_db_query_failed)
                | Some ms \<Rightarrow> State_Monad.return
                    \<lparr>code = 0, msg = txt_query_ok, rdata = write_json L (messages_json ms)\<rparr>
              }
          }
      })"

text \<open>The body of the loop of \<open>PushOfflineMessages\<close>.\<close>

definition push_message :: "libs \<Rightarrow> int \<Rightarrow> message \<Rightarrow> unit act" where
  "push_message L sock m = do {
     _ \<leftarrow> ForwardMessage L (senderId m) (senderUsername m) (receiverId m) (receiverUsername m)
            (content_of m) (sendTime m);
     SendNotification L sock (senderUsername m) (content_of m)
   }"

definition PushOfflineMessages :: "libs \<Rightarrow> string \<Rightarrow> unit act" where
  "PushOfflineMessages L name = do {
     uid \<leftarrow> GetUserIdByUsername L name;
     case uid of
       None \<Rightarrow> skip
     | Some userId \<Rightarrow> do {
         found \<leftarrow> GetUnreadMessages L userId;
         case found of
           None \<Rightarrow> skip
         | Some ms \<Rightarrow>
             if ms = [] then skip
             else do {
               session \<leftarrow> get_session_by_username name;
               callback \<leftarrow> gets (\<lambda>w. mm_sendCallback (server w));
               case session of
                 None \<Rightarrow> skip
               | Some p \<Rightarrow> guarded callback (do {
                   sock \<leftarrow> session_get p GetSocket;
                   foreach ms (push_message L sock)
                 })
             }
       }
   }"

section \<open>What the handlers keep\<close>

context handler_inv begin

lemma keeps_deliver:
  "keeps I (StoreMessage a b c)" "keeps I (ForwardMessage L a n b m c t)"
  "keeps I (SendNotification L sock n c)" "keeps I (push_message L sock x)"
  unfolding StoreMessage_def ForwardMessage_def SendNotification_def push_message_def
  by (intro handler_intros keeps_bind keeps_dao; auto)+

lemma keeps_deliver_online: "keeps I (deliver_online L a b request)"
  unfolding deliver_online_def
  by (intro handler_intros keeps_bind keeps_deliver; auto)

lemma keeps_message_manager:
  assumes L: "mysql_of L = Q"
  shows "keeps I (HandleSendMessage L request)" "keeps I (HandleHistoryMessages L request)"
    "keeps I (PushOfflineMessages L name)"
  unfolding HandleSendMessage_def HandleHistoryMessages_def PushOfflineMessages_def
  by (intro handler_intros keeps_bind keeps_dao keeps_deliver keeps_deliver_online; auto simp: L)+

end

section \<open>Lemmas\<close>

lemma valid_content_iff: "ValidateMessageContent content \<longleftrightarrow> (\<exists>c\<in>set content. \<not> is_space c)"
proof -
  have "has_visible content \<longleftrightarrow> (\<exists>c\<in>set content. \<not> is_space c)"
    by (induction content) auto
  then show ?thesis by (auto simp: ValidateMessageContent_def)
qed

definition marked :: "int \<Rightarrow> int \<Rightarrow> message_row list \<Rightarrow> message_row list" where
  "marked a b ms = map (\<lambda>m. if m_sender m = a \<and> m_receiver m = b \<and> \<not> m_read m then m\<lparr>m_read := True\<rparr> else m) ms"

lemma sql_mark_read_marked: "sql_mark_read a b d = Some (d\<lparr>messages := marked a b (messages d)\<rparr>)"
  by (simp add: sql_mark_read_def marked_def)

definition new_message :: "int \<Rightarrow> int \<Rightarrow> int \<Rightarrow> string \<Rightarrow> database \<Rightarrow> message_row" where
  "new_message t a b c d = \<lparr>m_id = next_message_id d, m_sender = a, m_receiver = b, m_content = c,
     m_time = t, m_read = False\<rparr>"

lemma insert_message_Some:
  "sql_insert_message t a b c d = Some d' \<Longrightarrow> d' = d\<lparr>messages := messages d @ [new_message t a b c d],
     next_message_id := next_message_id d + 1\<rparr> \<and> user_exists a d \<and> user_exists b d \<and> text_fits c"
  by (auto simp: sql_insert_message_def new_message_def split: if_splits)

lemma wp_ForwardMessage:
  assumes ok: "sessions_ok (smgr w)" and "Q False w"
    and "\<And>p ns chunks. GetSessionByUsername name (smgr w) = Some p
      \<Longrightarrow> events ns = events (network w) @ map (Sent (socket (deref (smgr w) p))) chunks
      \<Longrightarrow> Q False (w\<lparr>network := ns\<rparr>)"
    and "\<And>p ns m s chunks. GetSessionByUsername name (smgr w) = Some p
      \<Longrightarrow> events ns = events (network w) @ map (Sent (socket (deref (smgr w) p))) chunks
      \<Longrightarrow> Q True (w\<lparr>network := ns, dbm := m, db_script := s\<rparr>)"
    and "\<And>p ns m s chunks. GetSessionByUsername name (smgr w) = Some p
      \<Longrightarrow> events ns = events (network w) @ map (Sent (socket (deref (smgr w) p))) chunks
      \<Longrightarrow> Q True (w\<lparr>network := ns, dbase := (dbase w)\<lparr>messages := marked a b (messages (dbase w))\<rparr>,
                      dbm := m, db_script := s\<rparr>)"
  shows "wp (ForwardMessage L a n b name c t) Q w"
proof (cases "GetSessionByUsername name (smgr w)")
  case None
  with assms(2) show ?thesis by (simp add: ForwardMessage_def wp_simps)
next
  case (Some p)
  then have touch: "touch p (smgr w) = smgr w"
    by (simp add: touch_by_username[OF ok])
  show ?thesis
    using assms(2-5) Some touch
    by (auto simp: ForwardMessage_def wp_simps sql_mark_read_marked intro!: wp_intros)
qed

text \<open>What delivery may do to the world: messages of the one sender marked, events for the receiver.\<close>

definition delivered :: "string \<Rightarrow> int \<Rightarrow> int \<Rightarrow> world \<Rightarrow> world \<Rightarrow> bool" where
  "delivered name a b w w' \<longleftrightarrow> smgr w' = smgr w \<and> server w' = server w \<and> now w' = now w
     \<and> cachedFriendLists w' = cachedFriendLists w
     \<and> (dbase w' = dbase w \<or> dbase w' = (dbase w)\<lparr>messages := marked a b (messages (dbase w))\<rparr>)
     \<and> (\<exists>evs. events (network w') = events (network w) @ evs
          \<and> (\<forall>e\<in>set evs. \<exists>p bytes. GetSessionByUsername name (smgr w) = Some p
               \<and> e = Sent (socket (deref (smgr w) p)) bytes))"

lemma wp_deliver_online:
  assumes ok: "sessions_ok (smgr w)"
  shows "wp (deliver_online L a b rq) (\<lambda>_. delivered (targetUsername rq) a b w) w"
proof (cases "GetSessionByUsername (targetUsername rq) (smgr w)")
  case None
  then show ?thesis by (auto simp: deliver_online_def wp_simps delivered_def)
next
  case (Some p)
  then have touch: "touch p (smgr w) = smgr w"
    by (simp add: touch_by_username[OF ok])
  have skip: "delivered (targetUsername rq) a b w w" by (auto simp: delivered_def)
  show ?thesis
    using Some touch skip
    by (auto simp: deliver_online_def wp_simps SendNotification_def
        intro!: wp_ForwardMessage[OF ok] wp_send_data)
      (auto simp: delivered_def)
qed

text \<open>What pushing a stored message sends, and the stored messages of a user that nobody has read.\<close>

definition push_events :: "libs \<Rightarrow> int \<Rightarrow> message \<Rightarrow> net_event list" where
  "push_events L sock m =
     [Sent sock (PackageMessage (forward_json L (senderUsername m) (content_of m) (sendTime m))),
      Sent sock (PackageMessage (notification_json L (senderUsername m) (content_of m)))]"

definition unread_rows :: "libs \<Rightarrow> int \<Rightarrow> database \<Rightarrow> message_row list" where
  "unread_rows L uid d = by_send_time (mysql_of L) (filter (\<lambda>m. m_receiver m = uid \<and> \<not> m_read m) (messages d))"

definition unread_messages :: "libs \<Rightarrow> int \<Rightarrow> database \<Rightarrow> message list" where
  "unread_messages L uid d = map (\<lambda>m. to_message L (m, name_of d (m_sender m), name_of d (m_receiver m)))
     (unread_rows L uid d)"

lemma to_message_simps [simp]:
  "senderId (to_message L (m, s, t)) = m_sender m" "receiverId (to_message L (m, s, t)) = m_receiver m"
  "senderUsername (to_message L (m, s, t)) = s" "receiverUsername (to_message L (m, s, t)) = t"
  "content_of (to_message L (m, s, t)) = m_content m"
  by (simp_all add: to_message_def)

lemma fold_marked:
  "fold (\<lambda>x. marked (senderId x) (receiverId x)) xs ms
    = map (\<lambda>m. if (\<exists>x\<in>set xs. m_sender m = senderId x \<and> m_receiver m = receiverId x) \<and> \<not> m_read m
               then m\<lparr>m_read := True\<rparr> else m) ms"
proof (induction xs arbitrary: ms)
  case (Cons x xs)
  then show ?case by (auto simp: marked_def)
qed simp

lemma fold_unread:
  "fold (\<lambda>x. marked (senderId x) (receiverId x)) (unread_messages L uid d) (messages d)
    = map (\<lambda>m. if m_receiver m = uid \<and> \<not> m_read m then m\<lparr>m_read := True\<rparr> else m) (messages d)"
  unfolding fold_marked by (rule map_cong) (auto simp: unread_messages_def unread_rows_def)

lemma unread_query:
  assumes "db_ok (mysql_of L) d"
  shows "map (to_message L) (sql_unread_messages (mysql_of L) uid d) = unread_messages L uid d"
  unfolding sql_unread_messages_def unread_messages_def unread_rows_def
  by (subst joined_rows[OF assms]) auto

text \<open>The state after the first messages \<open>ys\<close> of a push have gone out.\<close>

definition pushed :: "libs \<Rightarrow> int \<Rightarrow> world \<Rightarrow> message list \<Rightarrow> world \<Rightarrow> bool" where
  "pushed L sock w ys w' \<longleftrightarrow> calm w' \<and> smgr w' = smgr w \<and> server w' = server w
     \<and> users (dbase w') = users (dbase w)
     \<and> events (network w') = events (network w) @ concat (map (push_events L sock) ys)
     \<and> messages (dbase w') = fold (\<lambda>x. marked (senderId x) (receiverId x)) ys (messages (dbase w))"

lemma wp_push_message:
  assumes "pushed L (socket (deref (smgr w) p)) w ys w'" and "sessions_ok (smgr w)" and "mm_sendCallback (server w)"
    and "GetSessionByUsername (receiverUsername m) (smgr w) = Some p"
    and "length (forward_json L (senderUsername m) (content_of m) (sendTime m)) < 2 ^ 30"
    and "length (notification_json L (senderUsername m) (content_of m)) < 2 ^ 30"
  shows "wp (push_message L (socket (deref (smgr w) p)) m)
    (\<lambda>_. pushed L (socket (deref (smgr w) p)) w (ys @ [m])) w'"
proof -
  have w': "smgr w' = smgr w" "server w' = server w" "calm w'"
    using assms(1) by (simp_all add: pushed_def)
  have "touch p (smgr w') = smgr w'"
    using assms(4) w'(1) by (simp add: touch_by_username[OF assms(2)])
  with assms w' show ?thesis
    by (simp add: push_message_def ForwardMessage_def SendNotification_def wp_simps calm_wp
        sql_mark_read_marked pushed_def push_events_def)
qed

section \<open>Requests for the witnesses\<close>

definition demo_message :: "string \<Rightarrow> string \<Rightarrow> int \<Rightarrow> Request" where
  "demo_message sender receiver sock =
     (demo_request sender [] sock)\<lparr>targetUsername := receiver, rcontent := ''hello''\<rparr>"

lemma demo_message_simps [simp]:
  "rusername (demo_message a b s) = a" "targetUsername (demo_message a b s) = b"
  "rcontent (demo_message a b s) = ''hello''" "rcount (demo_message a b s) = 0"
  by (simp_all add: demo_message_def)

lemma demo_content [simp]: "ValidateMessageContent ''hello''"
  by code_simp

lemma demo_write_length:
  "length (forward_json demo_libs ''bob'' ''hello'' []) < 2 ^ 30"
  "length (notification_json demo_libs ''bob'' ''hello'') < 2 ^ 30"
  "length (forward_json demo_libs ''bob'' ''hi'' ''t'') < 2 ^ 30"
  "length (notification_json demo_libs ''bob'' ''hi'') < 2 ^ 30"
  by (simp_all add: forward_json_def notification_json_def write_json_def demo_libs_def demo_jsoncpp_def
      summary_of_def)

text \<open>The demo world after the third user has logged in on the third connection.\<close>

definition demo_carol_world :: world where
  "demo_carol_world = demo_world\<lparr>smgr := BindUsername 6 ''carol'' demo_sessions\<rparr>"

lemma demo_carol_world:
  "calm demo_carol_world" "sessions_ok (smgr demo_carol_world)" "server demo_carol_world = demo_server"
  "dbase demo_carol_world = demo_db" "GetSessionByUsername ''carol'' (smgr demo_carol_world) = Some 2"
  "events (network demo_carol_world) = []" "socket (deref (smgr demo_carol_world) 2) = 6"
  using demo_calm demo_sessions_ok
  by (auto simp: demo_carol_world_def sessions_ok_BindUsername)
    (simp_all add: GetSessionByUsername_def BindUsername_def demo_sessions_def um_simps umap_find_def
      deref_def demo_session_def ClientSession_new_def update_conv' umap_set_def)

lemma demo_unread: "unread_messages demo_libs 3 demo_db = [\<lparr>messageId = 1, senderId = 2, receiverId = 3,
    senderUsername = ''bob'', receiverUsername = ''carol'', content_of = ''hi'', sendTime = ''t'', isRead = False\<rparr>]"
  by (simp add: unread_messages_def unread_rows_def by_send_time_def to_message_def demo_messages)
    (simp add: demo_libs_def demo_mysql_def)

section \<open>Properties\<close>

text \<open>C13: Whatever faults the database and the sockets show, a message that is answered with 0 had visible
  content of at most 65536 bytes and two registered users, and is stored: exactly one row is
  appended (it and earlier rows of the same two may be marked read by the delivery).  Any other
  answer stores nothing, except that after a database failure (5001) the row may be there.  Only the
  receiver's connection gets data.\<close>

theorem send_message_effect:
  assumes "run_state (HandleSendMessage L rq) w = (r, w')" and "sessions_ok (smgr w)"
    and "users_ok (mysql_of L) (dbase w)"
  shows "(code r = 0 \<longrightarrow>
      (\<exists>c\<in>set (rcontent rq). \<not> is_space c) \<and> length (rcontent rq) \<le> 65536 \<and>
      (\<exists>u\<in>set (users (dbase w)). \<exists>v\<in>set (users (dbase w)).
         same_name (mysql_of L) (u_name u) (rusername rq) \<and> same_name (mysql_of L) (u_name v) (targetUsername rq)
         \<and> (let ms = messages (dbase w) @ [new_message (now w) (u_id u) (u_id v) (rcontent rq) (dbase w)]
            in messages (dbase w') = ms \<or> messages (dbase w') = marked (u_id u) (u_id v) ms)))
    \<and> (code r \<noteq> 0 \<and> code r \<noteq> 5001 \<longrightarrow> dbase w' = dbase w)
    \<and> users (dbase w') = users (dbase w) \<and> friends (dbase w') = friends (dbase w) \<and> smgr w' = smgr w
    \<and> (\<exists>evs. events (network w') = events (network w) @ evs
        \<and> (\<forall>e\<in>set evs. \<exists>p bytes. GetSessionByUsername (targetUsername rq) (smgr w) = Some p
             \<and> e = Sent (socket (deref (smgr w) p)) bytes))"
proof -
  let ?P = "\<lambda>r w'. (code r = 0 \<longrightarrow> ValidateMessageContent (rcontent rq) \<and> length (rcontent rq) \<le> 65536 \<and>
      (\<exists>u v. sql_user_by_name (mysql_of L) (rusername rq) (dbase w) = Some u
         \<and> sql_user_by_name (mysql_of L) (targetUsername rq) (dbase w) = Some v
         \<and> (let ms = messages (dbase w) @ [new_message (now w) (u_id u) (u_id v) (rcontent rq) (dbase w)]
            in messages (dbase w') = ms \<or> messages (dbase w') = marked (u_id u) (u_id v) ms)))
    \<and> (code r \<noteq> 0 \<and> code r \<noteq> 5001 \<longrightarrow> dbase w' = dbase w)
    \<and> users (dbase w') = users (dbase w) \<and> friends (dbase w') = friends (dbase w) \<and> smgr w' = smgr w
    \<and> (\<exists>evs. events (network w') = events (network w) @ evs
        \<and> (\<forall>e\<in>set evs. \<exists>p bytes. GetSessionByUsername (targetUsername rq) (smgr w) = Some p
             \<and> e = Sent (socket (deref (smgr w) p)) bytes))"
  have "wp (HandleSendMessage L rq) ?P w"
    using assms(2)
    by (auto simp: HandleSendMessage_def StoreMessage_def wp_simps maxMessageSize_def
        split: option.splits intro!: wp_intros wp_mono[OF wp_deliver_online] dest!: insert_message_Some)
      (auto simp: delivered_def)
  from wp_run[OF this assms(1)] show ?thesis
    unfolding valid_content_iff user_by_name_iff[OF assms(3)] by blast
qed

theorem send_message_effect_witness:
  "users (dbase (snd (run_state (HandleSendMessage demo_libs (demo_message ''bob'' ''carol'' 5)) demo_world))) = users demo_db"
  using send_message_effect[of demo_libs "demo_message ''bob'' ''carol'' 5" demo_world, OF prod.collapse[symmetric]]
    demo_sessions_ok demo_db_ok by (simp add: db_ok_def)

text \<open>C31: Without faults, a history query between two registered users returns at most 200 messages, all of them
  between these two, in the order of their times; if there are more than the requested number, the
  oldest are returned, no omitted one being older than a returned one.  The requested number is 50
  when it is not between 1 and 200.\<close>

theorem history_effect:
  assumes "calm w" and "db_ok (mysql_of L) (dbase w)"
    and "u \<in> set (users (dbase w))" and "same_name (mysql_of L) (u_name u) (rusername rq)"
    and "v \<in> set (users (dbase w))" and "same_name (mysql_of L) (u_name v) (targetUsername rq)"
    and "targetUsername rq \<noteq> []" and "run_state (HandleHistoryMessages L rq) w = (r, w')"
  shows "code r = 0 \<and> dbase w' = dbase w \<and> (\<exists>ms.
      rdata r = write_json L (messages_json (map (\<lambda>m. to_message L
          (m, name_of (dbase w) (m_sender m), name_of (dbase w) (m_receiver m))) ms))
      \<and> length ms \<le> 200 \<and> sorted (map m_time ms)
      \<and> length ms = min (if rcount rq \<le> 0 \<or> 200 < rcount rq then 50 else nat (rcount rq))
                        (length (filter (between (u_id u) (u_id v)) (messages (dbase w))))
      \<and> (\<forall>m\<in>set ms. m \<in> set (messages (dbase w)) \<and> between (u_id u) (u_id v) m)
      \<and> (\<forall>m\<in>set ms. \<forall>n\<in>set (messages (dbase w)). between (u_id u) (u_id v) n \<and> n \<notin> set ms \<longrightarrow> m_time m \<le> m_time n))"
proof -
  let ?Q = "mysql_of L" and ?d = "dbase w" and ?n = "nat (history_count (rcount rq))"
  let ?all = "by_send_time ?Q (filter (between (u_id u) (u_id v)) (messages ?d))"
  let ?ms = "take ?n ?all"
  let ?row = "\<lambda>m. (m, name_of ?d (m_sender m), name_of ?d (m_receiver m))"
  have ids: "sql_user_by_name ?Q (rusername rq) ?d = Some u" "sql_user_by_name ?Q (targetUsername rq) ?d = Some v"
    using assms(2-6) by (simp_all add: user_by_name_iff db_ok_def)
  have "sql_history_messages ?Q (u_id u) (u_id v) ?n ?d = map ?row ?ms"
    by (simp add: sql_history_messages_def joined_rows[OF assms(2)] subset_iff take_map)
  then have "wp (HandleHistoryMessages L rq) (\<lambda>r w'. code r = 0 \<and> dbase w' = dbase w
      \<and> rdata r = write_json L (messages_json (map (\<lambda>m. to_message L (?row m)) ?ms))) w"
    using assms(1,7) ids by (simp add: HandleHistoryMessages_def wp_simps calm_wp comp_def)
  note reply = wp_run[OF this assms(8)]
  have n: "?n \<le> 200" "?n = (if rcount rq \<le> 0 \<or> 200 < rcount rq then 50 else nat (rcount rq))"
    by (auto simp: history_count_def)
  have sorted: "sorted (map m_time ?all)" by (rule by_send_time_sorted)
  have "m_time m \<le> m_time x" if m: "m \<in> set ?ms" and "x \<in> set ?all" "x \<notin> set ?ms" for m x
  proof -
    have "x \<in> set (drop ?n ?all)"
      using that(2,3) by (metis Un_iff append_take_drop_id set_append)
    moreover have "sorted (map m_time ?ms @ map m_time (drop ?n ?all))"
      using sorted by (metis append_take_drop_id map_append)
    ultimately show ?thesis using m by (auto simp: sorted_append)
  qed
  then have "\<forall>m\<in>set ?ms. \<forall>x\<in>set (messages ?d). between (u_id u) (u_id v) x \<and> x \<notin> set ?ms \<longrightarrow> m_time m \<le> m_time x"
    by auto
  moreover have "\<forall>m\<in>set ?ms. m \<in> set (messages ?d) \<and> between (u_id u) (u_id v) m"
    by (auto dest!: in_set_takeD)
  moreover have "length ?ms = min ?n (length (filter (between (u_id u) (u_id v)) (messages ?d)))"
    by (simp add: min.commute)
  moreover have "sorted (map m_time ?ms)" using sorted by (rule take_sorted_key)
  moreover have "length ?ms \<le> 200" using n(1) by simp
  ultimately show ?thesis using reply unfolding n(2) by blast
qed

theorem history_effect_witness:
  "code (fst (run_state (HandleHistoryMessages demo_libs (demo_message ''bob'' ''carol'' 5)) demo_world)) = 0"
  using history_effect[OF demo_calm, of demo_libs bob "demo_message ''bob'' ''carol'' 5" carol, OF _ _ _ _ _ _ prod.collapse[symmetric]]
    demo_db_ok by simp





end
