(* ===== verification/Exception_Handler.thy ===== *)
theory Exception_Handler
  imports Handler_Logic
begin

text \<open>
  Exception handling, \<^verbatim>\<open>src/src/system/exception_handler.cpp\<close>.  The handlers that only write a log
  line are represented by the line they write.
\<close>

text \<open>The lines of \<open>HandleException\<close> and \<open>HandleNetworkException\<close>; the literals are UTF-8.\<close>

definition HandleException :: "string \<Rightarrow> string \<Rightarrow> string" where
  "HandleException what context =
     utf8 [24322, 24120, 20869, 23481] @ '' ['' @ context @ '']: '' @ what"

definition HandleNetworkException :: "string \<Rightarrow> string" where
  "HandleNetworkException what = utf8 [32593, 32476, 24322, 24120] @ '': '' @ what"

definition HandleClientException :: "int \<Rightarrow> unit act" where
  "HandleClientException sock = close_socket sock"

text \<open>
  The retry loop of \<open>HandleDBException\<close> with its counter \<open>i\<close>, of which \<open>k\<close> rounds are left.  \<open>None\<close>:
  \<open>Reconnect\<close> blocks for ever.
\<close>

fun retry_loop :: "nat \<Rightarrow> db_manager \<Rightarrow> (bool \<times> db_manager) option" where
  "retry_loop 0 m = Some (False, m)"
| "retry_loop (Suc k) m =
     (case Reconnect m of
        None \<Rightarrow> None
      | Some (True, m1) \<Rightarrow> Some (True, m1)
      | Some (False, m1) \<Rightarrow> retry_loop k (if k = 0 then m1 else m1\<lparr>slept := slept m1 + 5\<rparr>))"

definition HandleDBException :: "bool \<Rightarrow> db_manager \<Rightarrow> (bool \<times> db_manager) option" where
  "HandleDBException has_manager m = (if \<not> has_manager then Some (False, m) else retry_loop 3 m)"

definition handle_db_exception :: "unit act" where
  "handle_db_exception = modify (\<lambda>w.
     case HandleDBException (has_dbManager (server w)) (dbm w) of
       None \<Rightarrow> w | Some (_, m) \<Rightarrow> w\<lparr>dbm := m\<rparr>)"

lemma Init_fails:
  assumes "driver_ok m" and "0 < n" and "poolSize m = n" and "connect_script m = False # cs"
  shows "InitConnectionPool n m = Some (False, m\<lparr>connect_script := cs\<rparr>)"
proof -
  obtain k where "nat n = Suc k"
    using assms(2) by (metis gr0_conv_Suc zero_less_nat_eq)
  with assms show ?thesis by (simp add: InitConnectionPool_def Let_def CreateConnection_def)
qed

lemma Reconnect_fails:
  assumes "driver_ok m" and "0 < poolSize m" and "connect_script m = replicate 3 False @ cs"
  shows "Reconnect m = Some (False, m\<lparr>connect_script := cs, slept := slept m + 15\<rparr>)"
  using assms by (simp add: Reconnect_def numeral_3_eq_3 Init_fails)

text \<open>While the database cannot be reached, handling one database exception makes nine attempts to connect
  and sleeps for 55 seconds in all: three rounds of \<open>Reconnect\<close>, which itself tries three times, each
  attempt followed by a pause.  The connection pool is left as it was.\<close>

lemma db_exception_nine_attempts:
  assumes "driver_ok m" and "0 < poolSize m" and "connect_script m = replicate 9 False @ cs"
  shows "HandleDBException True m = Some (False, m\<lparr>connect_script := cs, slept := slept m + 55\<rparr>)"
proof -
  have split: "connect_script m = replicate 3 False @ replicate 3 False @ replicate 3 False @ cs"
    using assms(3) by (simp flip: replicate_add append_assoc)
  show ?thesis
    using assms(1,2) split by (simp add: HandleDBException_def numeral_3_eq_3 Reconnect_fails)
qed

lemma db_exception_nine_attempts_witness:
  "let m = DBManager_new\<lparr>poolSize := 10, connect_script := replicate 9 False\<rparr>
   in HandleDBException True m = Some (False, m\<lparr>connect_script := [], slept := 55\<rparr>)"
  using db_exception_nine_attempts[of "DBManager_new\<lparr>poolSize := 10, connect_script := replicate 9 False\<rparr>" "[]"]
  by (simp add: DBManager_new_def)

end
