(* ===== verification/Dispatch.thy ===== *)
theory Dispatch
  imports Friend_Manager Message_Manager Exception_Handler
begin

text \<open>
  \<open>Server::DispatchRequest\<close> of \<^verbatim>\<open>src/src/connection/server.cpp\<close>: parsing a request, taking the identity
  of the session, calling the manager and answering.

  The accessors of JsonCpp throw \<open>Json::Exception\<close> on values of the wrong kind.  These accesses are
  outside the \<open>try\<close> block, so the exception leaves the function; the result of the model is false then.
  The \<open>junk\<close> argument is the value of the uninitialised \<open>request.count\<close>.
\<close>

section \<open>Reading the request\<close>

text \<open>\<open>if(v.isMember(key)) field = v[key].asString();\<close> for a field that is still empty.\<close>

definition get_string :: "jsoncpp \<Rightarrow> json \<Rightarrow> string \<Rightarrow> string option" where
  "get_string J v key =
     (case json_member J v key of
        None \<Rightarrow> None
      | Some False \<Rightarrow> Some []
      | Some True \<Rightarrow> Option.bind (json_index J v key) (json_string J))"

definition get_int :: "jsoncpp \<Rightarrow> int \<Rightarrow> json \<Rightarrow> string \<Rightarrow> int option" where
  "get_int J junk v key =
     (case json_member J v key of
        None \<Rightarrow> None
      | Some False \<Rightarrow> Some junk
      | Some True \<Rightarrow> Option.bind (json_index J v key) (json_int J))"

definition read_fields :: "jsoncpp \<Rightarrow> int \<Rightarrow> string \<Rightarrow> int \<Rightarrow> json \<Rightarrow> Request option" where
  "read_fields J junk typ sock v = do {
     f_username \<leftarrow> get_string J v ''username'';
     f_password \<leftarrow> get_string J v ''password'';
     f_newUsername \<leftarrow> get_string J v ''newUsername'';
     f_newPassword \<leftarrow> get_string J v ''newPassword'';
     f_verifyPassword \<leftarrow> get_string J v ''verifyPassword'';
     f_targetUsername \<leftarrow> get_string J v ''targetUsername'';
     f_content \<leftarrow> get_string J v ''content'';
     f_count \<leftarrow> get_int J junk v ''count'';
     Some \<lparr>rtype = typ, rusername = f_username, rpassword = f_password, newUsername = f_newUsername,
           newPassword = f_newPassword, verifyPassword = f_verifyPassword,
           targetUsername = f_targetUsername, rcontent = f_content, rcount = f_count, clientSocket = sock\<rparr>
   }"

text \<open>
  The name of the session, if it has one, replaces the name in the request; a name that the request
  gave becomes the target if there is none.
\<close>

definition identify :: "string \<Rightarrow> Request \<Rightarrow> Request" where
  "identify sessionName request =
     (if rusername request = []
      then (if sessionName \<noteq> [] then request\<lparr>rusername := sessionName\<rparr> else request)
      else if sessionName \<noteq> []
      then (if targetUsername request = []
            then request\<lparr>targetUsername := rusername request, rusername := sessionName\<rparr>
            else request\<lparr>rusername := sessionName\<rparr>)
      else request)"

definition session_name :: "int \<Rightarrow> string act" where
  "session_name sock = do {
     session \<leftarrow> get_session sock;
     case session of
       None \<Rightarrow> State_Monad.return []
     | Some p \<Rightarrow> session_get p GetUsername
   }"

section \<open>Calling the manager\<close>

text \<open>The guard that the code puts around the calls to the friend and message managers.\<close>

definition if_manager :: "(server_state \<Rightarrow> bool) \<Rightarrow> Response act \<Rightarrow> Response act" where
  "if_manager has_manager handler = do {
     b \<leftarrow> gets (\<lambda>w. has_manager (server w));
     if b then handler else State_Monad.return (reply 5001 txt_internal_error)
   }"

definition handle_login_request :: "libs \<Rightarrow> Request \<Rightarrow> Response act" where
  "handle_login_request L request = do {
     response \<leftarrow> HandleLogin L request;
     friendMgr \<leftarrow> gets (\<lambda>w. has_friendManager (server w));
     guarded (code response = 0 \<and> friendMgr) (CacheFriendList L (rusername request));
     messageMgr \<leftarrow> gets (\<lambda>w. has_messageManager (server w));
     guarded (code response = 0 \<and> messageMgr) (PushOfflineMessages L (rusername request));
     State_Monad.return response
   }"

definition call_manager :: "libs \<Rightarrow> Request \<Rightarrow> Response act" where
  "call_manager L request = do {
     userMgr \<leftarrow> gets (\<lambda>w. has_userManager (server w));
     if \<not> userMgr then State_Monad.return (reply 5001 txt_internal_error)
     else if rtype request = ''REGISTER'' then HandleRegister L request
     else if rtype request = ''LOGIN'' then handle_login_request L request
     else if rtype request = ''UPDATE_USER'' then HandleUpdateUser L request
     else if rtype request = ''QUERY_STATUS'' then HandleQueryStatus L request
     else if rtype request = ''ADD_FRIEND'' then if_manager has_friendManager (HandleAddFriend L request)
     else if rtype request = ''DEL_FRIEND'' then if_manager has_friendManager (HandleDeleteFriend L request)
     else if rtype request = ''FRIEND_LIST'' then if_manager has_friendManager (HandleFriendList L request)
     else if rtype request = ''FRIEND_STATUS'' then if_manager has_friendManager (HandleFriendStatus L request)
     else if rtype request = ''QUERY_FRIEND'' then if_manager has_friendManager (HandleQueryFriend L request)
     else if rtype request = ''SEND_MSG'' then if_manager has_messageManager (HandleSendMessage L request)
     else if rtype request = ''HISTORY_MSG'' then if_manager has_messageManager (HandleHistoryMessages L request)
     else if rtype request = ''HEARTBEAT'' then State_Monad.return (reply 0 txt_heartbeat_ok)
     else State_Monad.return (reply 4002 txt_unknown_request)
   }"

text \<open>
  The \<open>try\<close> block and its handler.  An exception inside a manager is \<open>None\<close>.  No manager raises one in
  the model: every data access function catches the \<open>SQLException\<close>s of its own statements.
\<close>

definition attempt :: "Response act \<Rightarrow> Response option act" where
  "attempt handler = do { r \<leftarrow> handler; State_Monad.return (Some r) }"

definition catch_db :: "Response option act \<Rightarrow> Response act" where
  "catch_db body = do {
     r \<leftarrow> body;
     case r of
       Some response \<Rightarrow> State_Monad.return response
     | None \<Rightarrow> do {
         b \<leftarrow> gets (\<lambda>w. has_exceptionHandler (server w));
         guarded b handle_db_exception;
         State_Monad.return (reply 5000 txt_internal_error)
       }
   }"

section \<open>Answering\<close>

definition response_json :: "libs \<Rightarrow> string \<Rightarrow> Response \<Rightarrow> string" where
  "response_json L typ r = write_json L (JObj
     ([(''code'', JInt (code r))]
      @ (if rdata r = [] then []
         else [(''data'', case json_parse (json_of L) (rdata r) of Some v \<Rightarrow> v | None \<Rightarrow> JStr (rdata r))])
      @ [(''msg'', JStr (msg r)), (''type'', JStr (typ @ ''_RESPONSE''))]))"

text \<open>\<open>{"type":"ERROR","code":4001,"msg":...}\<close>\<close>

definition parse_error_text :: string where
  "parse_error_text = ''{\"type\":\"ERROR\",\"code\":4001,\"msg\":\"'' @ txt_json_failed @ ''\"}''"

definition touch_session :: "int \<Rightarrow> unit act" where
  "touch_session sock = do {
     session \<leftarrow> get_session sock;
     case session of None \<Rightarrow> skip | Some p \<Rightarrow> session_touch_heartbeat p
   }"

definition answer_request :: "libs \<Rightarrow> int \<Rightarrow> Request \<Rightarrow> unit act" where
  "answer_request L sock request = do {
     name \<leftarrow> session_name sock;
     response \<leftarrow> catch_db (attempt (call_manager L (identify name request)));
     _ \<leftarrow> send_data sock (response_json L (rtype request) response);
     skip
   }"

definition DispatchRequest :: "libs \<Rightarrow> int \<Rightarrow> int \<Rightarrow> string \<Rightarrow> bool act" where
  "DispatchRequest L junk sock data =
     (case json_parse (json_of L) data of
        None \<Rightarrow> do { _ \<leftarrow> send_data sock parse_error_text; State_Monad.return True }
      | Some doc \<Rightarrow>
          (case (Option.bind (json_index (json_of L) doc ''type'') (json_string (json_of L)),
                 json_index (json_of L) doc ''data'') of
             (Some typ, Some dataNode) \<Rightarrow> do {
               touch_session sock;
               case read_fields (json_of L) junk typ sock (if is_null dataNode then doc else dataNode) of
                 None \<Rightarrow> State_Monad.return False
               | Some request \<Rightarrow> do { answer_request L sock request; State_Monad.return True }
             }
           | _ \<Rightarrow> State_Monad.return False))"

section \<open>What a request keeps\<close>

context handler_inv begin

lemma keeps_call_manager: "mysql_of L = Q \<Longrightarrow> keeps I (call_manager L request)"
  unfolding call_manager_def handle_login_request_def if_manager_def
  by (intro handler_intros keeps_bind keeps_user_manager keeps_HandleLogin keeps_friend_manager
      keeps_message_manager)

end

lemma catch_attempt [simp]: "catch_db (attempt m) = m"
proof (rule state.expand, rule ext)
  fix w
  show "run_state (catch_db (attempt m)) w = run_state m w"
    by (cases "run_state m w") (simp add: catch_db_def attempt_def)
qed

context handler_inv begin

lemma keeps_answer_request: "mysql_of L = Q \<Longrightarrow> keeps I (answer_request L sock request)"
  unfolding answer_request_def session_name_def catch_attempt
  by (intro handler_intros keeps_bind keeps_call_manager; auto)

lemma keeps_DispatchRequest: "mysql_of L = Q \<Longrightarrow> keeps I (DispatchRequest L junk sock data)"
  unfolding DispatchRequest_def touch_session_def
  by (intro handler_intros keeps_bind keeps_answer_request; auto)

end

section \<open>Lemmas\<close>

lemma read_fields_type: "read_fields J junk typ sock v = Some rq \<Longrightarrow> rtype rq = typ \<and> clientSocket rq = sock"
  by (auto simp: read_fields_def bind_eq_Some_conv)

text \<open>The world after the heartbeat of the requesting session has been refreshed.\<close>

definition refreshed :: "int \<Rightarrow> world \<Rightarrow> world" where
  "refreshed sock w = snd (run_state (touch_session sock) w)"

lemma run_touch_session: "run_state (touch_session sock) w = ((), refreshed sock w)"
  unfolding refreshed_def by (rule prod_eqI) simp_all

lemma refreshed_ok:
  assumes "sessions_ok (smgr w)"
  shows "sessions_ok (smgr (refreshed sock w)) \<and> cliSessionMap (smgr (refreshed sock w)) = cliSessionMap (smgr w)
    \<and> session_user (smgr (refreshed sock w)) sock = session_user (smgr w) sock
    \<and> calm (refreshed sock w) = calm w
    \<and> dbase (refreshed sock w) = dbase w \<and> server (refreshed sock w) = server w"
proof (cases "umap_find (cliSessionMap (smgr w)) sock")
  case None
  then show ?thesis using assms by (simp add: refreshed_def touch_session_def GetSession_def)
next
  case (Some p)
  from sessions_okD[OF assms Some] obtain c where "heap (smgr w) p = Some c" by auto
  with Some sessions_ok_update_at[OF assms Some, of "UpdateHeartbeat (now w)"] show ?thesis
    by (simp add: refreshed_def touch_session_def GetSession_def session_touch_heartbeat_def
        session_user_def deref_def update_at_live)
qed

lemma run_session_name:
  assumes "sessions_ok (smgr w)"
  shows "run_state (session_name sock) w = (session_user (smgr w) sock, w)"
  using sessions_ok_touch[OF assms, of sock]
  by (auto simp: session_name_def session_user_def GetSession_def split: option.splits)

section \<open>Properties\<close>

text \<open>C10: No request, whatever bytes it consists of and whatever faults occur while it is handled, breaks the
  constraints of the database, uses a session that has been deleted, adds or removes a connection's
  session, or loses or invents a database connection; what has been sent stays sent.\<close>

theorem dispatch_safe:
  assumes "run_state (DispatchRequest L junk sock data) w = (ok, w')"
    and "db_ok (mysql_of L) (dbase w)" and "sessions_ok (smgr w)"
  shows "db_ok (mysql_of L) (dbase w') \<and> sessions_ok (smgr w')
    \<and> cliSessionMap (smgr w') = cliSessionMap (smgr w)
    \<and> mset (connectionPool (dbm w')) = mset (connectionPool (dbm w))
    \<and> prefix (events (network w)) (events (network w'))"
proof -
  have w': "w' = snd (run_state (DispatchRequest L junk sock data) w)" using assms(1) by simp
  have "db_ok (mysql_of L) (dbase w')"
    unfolding w' using keepsD[OF schema.keeps_DispatchRequest[OF refl]] assms(2) by simp
  moreover have "safe_sessions (cliSessionMap (smgr w)) w'"
    unfolding w' using keepsD[OF memory.keeps_DispatchRequest[OF refl]] assms(3)
    by (simp add: safe_sessions_def)
  moreover have "mset (connectionPool (dbm w')) = mset (connectionPool (dbm w))"
    unfolding w' using keepsD[OF pool.keeps_DispatchRequest[OF refl]] by simp
  moreover have "prefix (events (network w)) (events (network w'))"
    unfolding w' using keepsD[OF trace.keeps_DispatchRequest[OF refl]] by simp
  ultimately show ?thesis by (simp add: safe_sessions_def)
qed

theorem dispatch_safe_witness:
  "db_ok (mysql_of demo_libs) (dbase (snd (run_state (DispatchRequest demo_libs 0 6 ''anything'') demo_world)))"
  using dispatch_safe[of demo_libs 0 6 "''anything''" demo_world, OF prod.collapse[symmetric] demo_db_ok demo_sessions_ok]
  by simp


text \<open>A writer of bounded output, and the text of a request without a \<open>data\<close> member.\<close>

definition short_libs :: libs where
  "short_libs = demo_libs\<lparr>json_of := demo_jsoncpp\<lparr>json_write := (\<lambda>v. take 1000 (demo_write v))\<rparr>\<rparr>"

definition demo_text :: "(string \<times> string) list \<Rightarrow> string" where
  "demo_text kvs = tl (concat (map (\<lambda>(k, v). CHR 0x09 # k @ CHR 0x09 # v) kvs))"

lemma short_libs_simps [simp]:
  "mysql_of short_libs = mysql_of demo_libs" "evp_md5 short_libs = evp_md5 demo_libs"
  "json_index (json_of short_libs) = json_index demo_jsoncpp"
  "json_member (json_of short_libs) = json_member demo_jsoncpp"
  "json_string (json_of short_libs) = json_string demo_jsoncpp"
  "json_int (json_of short_libs) = json_int demo_jsoncpp"
  "json_parse (json_of short_libs) = json_parse demo_jsoncpp"
  "json_write (json_of short_libs) v = take 1000 (demo_write v)"
  by (simp_all add: short_libs_def)

lemma short_length: "length (response_json short_libs typ r) < 1073741824"
  by (simp add: response_json_def write_json_def)

lemma demo_parse:
  "json_parse demo_jsoncpp (demo_text [(''type'', ''DEL_FRIEND''), (''username'', ''alice''), (''targetUsername'', ''bob'')])
    = Some (JObj [(''type'', JStr ''DEL_FRIEND''), (''username'', JStr ''alice''), (''targetUsername'', JStr ''bob'')])"
  by (simp add: demo_text_def demo_jsoncpp_def)

lemma demo_read:
  "read_fields (json_of short_libs) 0 ''DEL_FRIEND'' 6
     (JObj [(''type'', JStr ''DEL_FRIEND''), (''username'', JStr ''alice''), (''targetUsername'', JStr ''bob'')])
   = Some ((demo_request ''alice'' [] 6)\<lparr>rtype := ''DEL_FRIEND'', targetUsername := ''bob''\<rparr>)"
  by (simp add: read_fields_def get_string_def get_int_def demo_jsoncpp_def demo_request_def)

lemma demo_unnamed [simp]: "session_user demo_sessions 6 = []"
  by (simp add: session_user_def demo_sessions_def umap_find_def deref_def demo_session_def)

lemma demo_dispatch:
  "DispatchRequest short_libs 0 6 (demo_text [(''type'', ''DEL_FRIEND''), (''username'', ''alice''), (''targetUsername'', ''bob'')])
    = do { touch_session 6;
           answer_request short_libs 6 ((demo_request ''alice'' [] 6)\<lparr>rtype := ''DEL_FRIEND'', targetUsername := ''bob''\<rparr>);
           State_Monad.return True }"
  using demo_read by (simp add: DispatchRequest_def demo_parse) (simp add: demo_jsoncpp_def is_null_def)


text \<open>A connection on which nobody has logged in may act for any user: the request to delete a friend that
  comes from such a connection under the name \<open>alice\<close> deletes Alice's friendship with Bob.\<close>

lemma unauthenticated_delete:
  "session_user (smgr demo_world) 6 = []
   \<and> are_friends (dbase demo_world) 1 2
   \<and> \<not> are_friends (dbase (snd (run_state (DispatchRequest short_libs 0 6 (demo_text
        [(''type'', ''DEL_FRIEND''), (''username'', ''alice''), (''targetUsername'', ''bob'')])) demo_world))) 1 2"
proof -
  let ?rq = "(demo_request ''alice'' [] 6)\<lparr>rtype := ''DEL_FRIEND'', targetUsername := ''bob''\<rparr>"
  let ?w = "refreshed 6 demo_world"
  note ref = refreshed_ok[OF demo_sessions_ok, of 6]
  have "identify [] ?rq = ?rq" by (simp add: identify_def)
  moreover have "call_manager short_libs ?rq = do {
      userMgr \<leftarrow> gets (\<lambda>w. has_userManager (server w));
      if \<not> userMgr then State_Monad.return (reply 5001 txt_internal_error)
      else if_manager has_friendManager (HandleDeleteFriend short_libs ?rq) }"
    by (simp add: call_manager_def)
  moreover have "run_state (session_name 6) ?w = ([], ?w)"
    using run_session_name[of ?w 6] ref by simp
  then have "wp (session_name 6) Q ?w = Q [] ?w" for Q by (simp add: wp_def)
  ultimately have "wp (answer_request short_libs 6 ?rq) (\<lambda>_ w. \<not> are_friends (dbase w) 1 2) ?w"
    using ref demo_calm
    by (simp add: answer_request_def if_manager_def HandleDeleteFriend_def target_of_def wp_simps calm_wp
        demo_server_def sql_delete_friend_def sql_delete_messages_def sql_count_friends_def short_length)
      (simp add: demo_db_def are_friends_def)
  moreover have "snd (run_state (DispatchRequest short_libs 0 6 (demo_text
        [(''type'', ''DEL_FRIEND''), (''username'', ''alice''), (''targetUsername'', ''bob'')])) demo_world)
      = snd (run_state (answer_request short_libs 6 ?rq) ?w)"
    by (simp add: demo_dispatch run_touch_session case_prod_beta)
  moreover have "are_friends demo_db 1 2" by (simp add: demo_db_def are_friends_def)
  ultimately show ?thesis by (simp add: wp_def)
qed

end
