(* ===== verification/Thread_Pool.thy ===== *)
theory Thread_Pool
  imports Prelude Complex_Main
begin

text \<open>
  The thread pool, \<^verbatim>\<open>src/src/system/thread_pool.cpp\<close>, as a transition system whose steps are the
  critical sections of the code.  A worker is

  \<^item> \<open>AtCheck\<close>: about to lock the mutex and evaluate the wait predicate,
  \<^item> \<open>Deciding\<close>: holding the mutex, the predicate was false, not asleep yet,
  \<^item> \<open>Asleep\<close> in \<open>condition.wait\<close>,
  \<^item> \<open>Busy t\<close>: running the task \<open>t\<close> outside the lock, or
  \<^item> \<open>Exited\<close>.

  \<open>SubmitTask\<close> needs the mutex for the push and notifies without it, so \<open>pending\<close> counts the calls of
  \<open>notify_one\<close> that are still to come; the destructor sets \<open>stop\<close> without the mutex.  \<open>submitted\<close>, \<open>before_stop\<close>
  (what was submitted while \<open>stop\<close> was false), \<open>started\<close> and \<open>completed\<close> are histories for the statements.  Tasks are of any type.
\<close>

datatype 'a phase = AtCheck | Deciding | Asleep | Busy 'a | Exited

record 'a thread_pool =
  workers :: "'a phase list"
  taskQueue :: "'a list"
  stop :: bool
  activeThreads :: int
  threadCount :: int
  notified_all :: bool
  pending :: nat
  submitted :: "'a list"
  before_stop :: "'a list"
  started :: "'a list"
  completed :: "'a list"

definition ThreadPool_new :: "nat \<Rightarrow> 'a thread_pool" where
  "ThreadPool_new n = \<lparr>workers = replicate n AtCheck, taskQueue = [], stop = False, activeThreads = 0,
     threadCount = int n, notified_all = False, pending = 0, submitted = [], before_stop = [], started = [], completed = []\<rparr>"

definition mutex_free :: "'a thread_pool \<Rightarrow> bool" where
  "mutex_free p \<longleftrightarrow> Deciding \<notin> set (workers p)"

definition wake :: "'a phase \<Rightarrow> 'a phase" where
  "wake x = (case x of Asleep \<Rightarrow> AtCheck | _ \<Rightarrow> x)"

text \<open>\<open>SubmitTask\<close>: the push under the lock; \<open>notify_one\<close> then wakes one sleeper \<open>i\<close> of the kernel's choice, if there is
  one.  A sleeper may also wake without a notification.\<close>

definition SubmitTask :: "'a \<Rightarrow> 'a thread_pool \<Rightarrow> 'a thread_pool" where
  "SubmitTask t p = p\<lparr>taskQueue := queue_push t (taskQueue p), submitted := submitted p @ [t],
     pending := Suc (pending p),
     before_stop := (if stop p then before_stop p else before_stop p @ [t])\<rparr>"

definition notify_one :: "nat \<Rightarrow> 'a thread_pool \<Rightarrow> 'a thread_pool" where
  "notify_one i p = p\<lparr>workers := (workers p)[i := wake (workers p ! i)], pending := pending p - 1\<rparr>"

definition spurious_wakeup :: "nat \<Rightarrow> 'a thread_pool \<Rightarrow> 'a thread_pool" where
  "spurious_wakeup i p = p\<lparr>workers := (workers p)[i := wake (workers p ! i)]\<rparr>"

text \<open>One locked section of \<open>WorkerThread\<close>: the predicate, the exit test, or taking a task.\<close>

definition worker_check :: "nat \<Rightarrow> 'a thread_pool \<Rightarrow> 'a thread_pool" where
  "worker_check i p =
     (if \<not> (stop p \<or> taskQueue p \<noteq> []) then p\<lparr>workers := (workers p)[i := Deciding]\<rparr>
      else if stop p \<and> taskQueue p = [] then p\<lparr>workers := (workers p)[i := Exited]\<rparr>
      else (case queue_pop (taskQueue p) of
              None \<Rightarrow> p
            | Some (t, q) \<Rightarrow> p\<lparr>workers := (workers p)[i := Busy t], taskQueue := q,
                               activeThreads := activeThreads p + 1, started := started p @ [t]\<rparr>))"

definition worker_sleep :: "nat \<Rightarrow> 'a thread_pool \<Rightarrow> 'a thread_pool" where
  "worker_sleep i p = p\<lparr>workers := (workers p)[i := Asleep]\<rparr>"

definition worker_finish :: "nat \<Rightarrow> 'a \<Rightarrow> 'a thread_pool \<Rightarrow> 'a thread_pool" where
  "worker_finish i t p = p\<lparr>workers := (workers p)[i := AtCheck],
     activeThreads := activeThreads p - 1, completed := completed p @ [t]\<rparr>"

text \<open>The destructor: \<open>stop = true\<close>, then \<open>notify_all\<close>, neither under the mutex; the joins wait for all
  workers to be \<open>Exited\<close>.\<close>

definition destroy_stop :: "'a thread_pool \<Rightarrow> 'a thread_pool" where
  "destroy_stop p = p\<lparr>stop := True\<rparr>"

definition destroy_notify :: "'a thread_pool \<Rightarrow> 'a thread_pool" where
  "destroy_notify p = p\<lparr>workers := map wake (workers p), notified_all := True\<rparr>"

definition joined :: "'a thread_pool \<Rightarrow> bool" where
  "joined p \<longleftrightarrow> notified_all p \<and> (\<forall>x\<in>set (workers p). x = Exited)"

definition GetThreadPoolUsage :: "'a thread_pool \<Rightarrow> rat" where
  "GetThreadPoolUsage p = (if threadCount p = 0 then 0 else of_int (activeThreads p) / of_int (threadCount p))"

inductive tp_step :: "'a thread_pool \<Rightarrow> 'a thread_pool \<Rightarrow> bool" where
  submit: "mutex_free p \<Longrightarrow> tp_step p (SubmitTask t p)"
| notify: "0 < pending p \<Longrightarrow> i < length (workers p) \<Longrightarrow> (Asleep \<in> set (workers p) \<longrightarrow> workers p ! i = Asleep)
     \<Longrightarrow> tp_step p (notify_one i p)"
| spurious: "i < length (workers p) \<Longrightarrow> workers p ! i = Asleep \<Longrightarrow> tp_step p (spurious_wakeup i p)"
| check: "i < length (workers p) \<Longrightarrow> workers p ! i = AtCheck \<Longrightarrow> mutex_free p \<Longrightarrow> tp_step p (worker_check i p)"
| sleep: "i < length (workers p) \<Longrightarrow> workers p ! i = Deciding \<Longrightarrow> tp_step p (worker_sleep i p)"
| finish: "i < length (workers p) \<Longrightarrow> workers p ! i = Busy t \<Longrightarrow> tp_step p (worker_finish i t p)"
| stopping: "tp_step p (destroy_stop p)"
| broadcast: "stop p \<Longrightarrow> tp_step p (destroy_notify p)"

inductive tp_reachable :: "nat \<Rightarrow> 'a thread_pool \<Rightarrow> bool" for n where
  tp_start: "tp_reachable n (ThreadPool_new n)"
| tp_next: "tp_reachable n p \<Longrightarrow> tp_step p q \<Longrightarrow> tp_reachable n q"

section \<open>Invariant\<close>

fun load :: "'a phase \<Rightarrow> 'a multiset" where
  "load (Busy t) = {#t#}"
| "load _ = {#}"

definition in_progress :: "'a thread_pool \<Rightarrow> 'a multiset" where
  "in_progress p = sum_list (map load (workers p))"

definition tp_inv :: "nat \<Rightarrow> 'a thread_pool \<Rightarrow> bool" where
  "tp_inv n p \<longleftrightarrow> length (workers p) = n \<and> threadCount p = int n
     \<and> submitted p = started p @ taskQueue p
     \<and> mset (started p) = mset (completed p) + in_progress p
     \<and> activeThreads p = int (size (in_progress p))
     \<and> prefix (before_stop p) (submitted p) \<and> (\<not> stop p \<longrightarrow> before_stop p = submitted p)
     \<and> (Exited \<in> set (workers p) \<longrightarrow> stop p \<and> prefix (before_stop p) (started p))"

lemma load_wake [simp]: "load (wake x) = load x"
  by (cases x) (simp_all add: wake_def)

lemma wake_Exited [simp]: "wake x = Exited \<longleftrightarrow> x = Exited"
  by (cases x) (simp_all add: wake_def)

lemma running_update:
  "i < length ws \<Longrightarrow> sum_list (map load (ws[i := x])) + load (ws ! i) = sum_list (map load ws) + load x"
  by (induction ws arbitrary: i) (auto split: nat.splits simp: ac_simps)

lemma running_same: "i < length ws \<Longrightarrow> load x = load (ws ! i) \<Longrightarrow> sum_list (map load (ws[i := x])) = sum_list (map load ws)"
  using running_update[of i ws x] by simp

lemma running_bound: "size (sum_list (map load ws)) \<le> length ws"
proof (induction ws)
  case (Cons x ws)
  then show ?case by (cases x) auto
qed simp

lemma set_update_Exited: "Exited \<in> set (ws[i := x]) \<Longrightarrow> Exited \<in> set ws \<or> x = Exited"
  using set_update_subset_insert[of ws i x] by auto

lemma tp_step_inv:
  assumes "tp_step p q" and inv: "tp_inv n p"
  shows "tp_inv n q"
  using assms(1)
proof cases
  case (submit t)
  have "prefix (before_stop p) (submitted p @ [t])"
    using inv prefix_prefix[of "before_stop p" "submitted p" "[t]"] by (auto simp: tp_inv_def)
  with submit inv show ?thesis by (auto simp: tp_inv_def SubmitTask_def queue_push_def in_progress_def)
next
  case (notify i)
  have "Exited \<in> set ((workers p)[i := wake (workers p ! i)]) \<Longrightarrow> Exited \<in> set (workers p)"
    using set_update_Exited[of "workers p" i "wake (workers p ! i)"] notify(3) wake_Exited
    by (metis nth_mem)
  with notify inv show ?thesis
    by (auto simp: tp_inv_def notify_one_def in_progress_def running_same)
next
  case (spurious i)
  with inv show ?thesis
    by (auto simp: tp_inv_def spurious_wakeup_def in_progress_def running_same wake_def dest!: set_update_Exited)
next
  case (check i)
  show ?thesis
  proof (cases "taskQueue p")
    case Nil
    with check inv show ?thesis
      by (auto simp: tp_inv_def worker_check_def in_progress_def running_same dest!: set_update_Exited)
  next
    case (Cons t ts)
    have "sum_list (map load ((workers p)[i := Busy t])) = add_mset t (sum_list (map load (workers p)))"
      using running_update[of i "workers p" "Busy t"] check by simp
    with Cons check inv show ?thesis
      by (auto simp: tp_inv_def worker_check_def in_progress_def queue_pop_def dest!: set_update_Exited)
  qed
next
  case (sleep i)
  with inv show ?thesis
    by (auto simp: tp_inv_def worker_sleep_def in_progress_def running_same dest!: set_update_Exited)
next
  case (finish i t)
  have "add_mset t (sum_list (map load ((workers p)[i := AtCheck]))) = sum_list (map load (workers p))"
    using running_update[of i "workers p" AtCheck] finish by simp
  then have "sum_list (map load (workers p)) = add_mset t (sum_list (map load ((workers p)[i := AtCheck])))"
    by simp
  with finish inv show ?thesis
    by (auto simp: tp_inv_def worker_finish_def in_progress_def dest!: set_update_Exited)
next
  case stopping
  with inv show ?thesis by (auto simp: tp_inv_def destroy_stop_def in_progress_def)
next
  case broadcast
  with inv show ?thesis
    by (auto simp: tp_inv_def destroy_notify_def in_progress_def comp_def image_iff eq_commute[of Exited])
qed

lemma tp_reachable_inv: "tp_reachable n p \<Longrightarrow> tp_inv n p"
proof (induction rule: tp_reachable.induct)
  case tp_start
  have "sum_list (map load (replicate n (AtCheck :: 'a phase))) = {#}" by (induction n) auto
  then show ?case by (auto simp: tp_inv_def ThreadPool_new_def in_progress_def)
next
  case (tp_next p q)
  from tp_step_inv[OF tp_next.hyps(2) tp_next.IH] show ?case .
qed

section \<open>Progress\<close>

text \<open>A worker that will look at the queue again without being notified.\<close>

definition awake :: "'a phase \<Rightarrow> bool" where
  "awake x \<longleftrightarrow> (case x of AtCheck \<Rightarrow> True | Busy _ \<Rightarrow> True | _ \<Rightarrow> False)"

definition tp_live :: "'a thread_pool \<Rightarrow> bool" where
  "tp_live p \<longleftrightarrow> (Deciding \<in> set (workers p) \<longrightarrow> taskQueue p = [])
     \<and> (taskQueue p = [] \<or> 0 < pending p \<or> stop p \<or> (\<exists>x\<in>set (workers p). awake x))"

lemma set_update_Deciding: "Deciding \<in> set (ws[i := x]) \<Longrightarrow> Deciding \<in> set ws \<or> x = Deciding"
  using set_update_subset_insert[of ws i x] by auto

lemma wake_Deciding [simp]: "wake x = Deciding \<longleftrightarrow> x = Deciding"
  by (cases x) (simp_all add: wake_def)

lemma awake_update: "i < length ws \<Longrightarrow> awake x \<Longrightarrow> \<exists>y\<in>set (ws[i := x]). awake y"
  by (metis set_update_memI)

lemma awake_wake: "\<exists>x\<in>set ws. awake x \<Longrightarrow> \<exists>x\<in>set (map wake ws). awake x"
  by (auto simp: awake_def wake_def split: phase.splits)

lemma tp_live_step:
  assumes step: "tp_step p q" and inv: "tp_inv n p" and live: "tp_live p"
  shows "tp_live q"
  using step
proof cases
  case (submit t)
  with live show ?thesis by (simp add: tp_live_def SubmitTask_def mutex_free_def)
next
  case (notify i)
  have "\<exists>x\<in>set ((workers p)[i := wake (workers p ! i)]). awake x" if "taskQueue p \<noteq> []" "\<not> stop p"
  proof (rule awake_update[OF notify(3)])
    have "workers p ! i \<in> set (workers p)" using notify(3) by simp
    then have "workers p ! i \<noteq> Deciding" "workers p ! i \<noteq> Exited"
      using that live inv by (auto simp: tp_live_def tp_inv_def)
    then show "awake (wake (workers p ! i))" by (cases "workers p ! i") (simp_all add: awake_def wake_def)
  qed
  moreover have "Deciding \<in> set (workers p)" if "Deciding \<in> set ((workers p)[i := wake (workers p ! i)])"
    using set_update_Deciding[OF that] notify(3) by (metis nth_mem wake_Deciding)
  ultimately show ?thesis
    using live notify(1) by (auto simp: tp_live_def notify_one_def)
next
  case (spurious i)
  then show ?thesis
    using live awake_update[OF spurious(2), of AtCheck]
    by (auto simp: tp_live_def spurious_wakeup_def wake_def awake_def dest!: set_update_Deciding)
next
  case (check i)
  then show ?thesis
    using live awake_update[OF check(2), of "Busy (hd (taskQueue p))"]
    by (auto simp: tp_live_def worker_check_def queue_pop_def awake_def mutex_free_def split: list.splits dest!: set_update_Deciding)
next
  case (sleep i)
  then have "Deciding \<in> set (workers p)" by (metis nth_mem)
  then show ?thesis using sleep live by (simp add: tp_live_def worker_sleep_def)
next
  case (finish i t)
  then show ?thesis
    using live awake_update[OF finish(2), of AtCheck]
    by (auto simp: tp_live_def worker_finish_def awake_def dest!: set_update_Deciding)
next
  case stopping
  then show ?thesis using live by (simp add: tp_live_def destroy_stop_def)
next
  case broadcast
  then show ?thesis using live by (auto simp: tp_live_def destroy_notify_def image_iff eq_commute[of Deciding])
qed

lemma tp_reachable_live: "tp_reachable n p \<Longrightarrow> tp_live p"
proof (induction rule: tp_reachable.induct)
  case tp_start
  show ?case by (simp add: tp_live_def ThreadPool_new_def)
next
  case (tp_next p q)
  from tp_live_step[OF tp_next.hyps(2) tp_reachable_inv[OF tp_next.hyps(1)] tp_next.IH] show ?case .
qed

section \<open>Properties\<close>

text \<open>C34: No task is forgotten while the pool runs: in every interleaving, as long as a task is queued and the pool is not being
  destroyed, a worker is about to look at the queue, or runs a task after which it looks again, or a notification is
  still to come.\<close>

theorem queue_not_forgotten:
  assumes "tp_reachable n p" and "taskQueue p \<noteq> []" and "\<not> stop p"
  shows "0 < pending p \<or> (\<exists>x\<in>set (workers p). x = AtCheck \<or> (\<exists>t. x = Busy t))"
proof -
  have "0 < pending p \<or> (\<exists>x\<in>set (workers p). awake x)"
    using tp_reachable_live[OF assms(1)] assms(2,3) by (auto simp: tp_live_def)
  moreover have "awake x \<Longrightarrow> x = AtCheck \<or> (\<exists>t. x = Busy t)" for x :: "'a phase"
    by (cases x) (simp_all add: awake_def)
  ultimately show ?thesis by blast
qed

theorem queue_not_forgotten_witness:
  "let p = SubmitTask (7::nat) (worker_sleep 0 (worker_check 0 (ThreadPool_new 1)))
   in tp_reachable 1 p \<and> workers p = [Asleep] \<and> 0 < pending p"
proof -
  let ?p0 = "ThreadPool_new 1 :: nat thread_pool"
  let ?p2 = "worker_sleep 0 (worker_check 0 ?p0)"
  have r1: "tp_reachable 1 (worker_check 0 ?p0)"
    by (rule tp_next[OF tp_start], rule tp_step.check) (simp_all add: ThreadPool_new_def mutex_free_def)
  have r2: "tp_reachable 1 ?p2"
    by (rule tp_next[OF r1], rule tp_step.sleep) (simp_all add: ThreadPool_new_def worker_check_def)
  have r: "tp_reachable 1 (SubmitTask 7 ?p2)"
    by (rule tp_next[OF r2], rule tp_step.submit) (simp add: ThreadPool_new_def worker_check_def worker_sleep_def mutex_free_def)
  have state: "workers (SubmitTask 7 ?p2) = [Asleep]" "taskQueue (SubmitTask 7 ?p2) \<noteq> []" "\<not> stop (SubmitTask 7 ?p2)"
    by (simp_all add: ThreadPool_new_def worker_check_def worker_sleep_def SubmitTask_def queue_push_def)
  from queue_not_forgotten[OF r state(2,3)] r state(1) show ?thesis by (simp add: Let_def)
qed

text \<open>A worker is occupied for as long as its task runs: while all workers are busy and none of them finishes, no task
  is started, however many are submitted.\<close>

lemma all_busy_starve:
  assumes "\<forall>x\<in>set (workers p). \<exists>t. x = Busy t" and "tp_step p q" and "completed q = completed p"
  shows "workers q = workers p \<and> started q = started p"
  using assms(2)
proof cases
  case (notify i)
  then have "workers p ! i \<in> set (workers p)" by simp
  with assms(1) have "wake (workers p ! i) = workers p ! i" by (auto simp: wake_def)
  with notify show ?thesis by (simp add: notify_one_def)
next
  case broadcast
  have "map wake (workers p) = workers p" using assms(1) by (intro map_idI) (auto simp: wake_def)
  with broadcast show ?thesis by (simp add: destroy_notify_def)
qed (use assms in \<open>auto simp: SubmitTask_def destroy_stop_def worker_finish_def in_set_conv_nth\<close>)

text \<open>C33: In every interleaving, tasks are started in the order of their submission, none is lost and none runs
  twice: what was submitted is what was started followed by what is still queued, and what was
  started is either completed or running on exactly one worker.\<close>

theorem tasks_conserved_fifo:
  assumes "tp_reachable n p"
  shows "submitted p = started p @ taskQueue p \<and> mset (started p) = mset (completed p) + in_progress p"
  using tp_reachable_inv[OF assms] by (simp add: tp_inv_def)

theorem tasks_conserved_fifo_witness:
  "submitted (SubmitTask (7::nat) (ThreadPool_new 2)) =
     started (SubmitTask (7::nat) (ThreadPool_new 2)) @ taskQueue (SubmitTask 7 (ThreadPool_new 2))
   \<and> taskQueue (SubmitTask (7::nat) (ThreadPool_new 2)) = [7]"
proof -
  have "tp_step (ThreadPool_new 2) (SubmitTask (7::nat) (ThreadPool_new 2))"
    by (rule tp_step.submit) (simp add: mutex_free_def ThreadPool_new_def)
  from tasks_conserved_fifo[OF tp_next[OF tp_start this]]
  show ?thesis by (simp add: SubmitTask_def ThreadPool_new_def queue_push_def)
qed

text \<open>The counter of active threads is the number of workers that run a task, so the reported usage is always
  between 0 and 1, also for an empty pool.\<close>

lemma usage_bounded:
  assumes "tp_reachable n p"
  shows "activeThreads p = int (size (in_progress p)) \<and> 0 \<le> activeThreads p \<and> activeThreads p \<le> threadCount p
    \<and> 0 \<le> GetThreadPoolUsage p \<and> GetThreadPoolUsage p \<le> 1"
proof -
  have inv: "tp_inv n p" by (rule tp_reachable_inv[OF assms])
  then have "activeThreads p = int (size (in_progress p))" and tc: "threadCount p = int (length (workers p))"
    by (auto simp: tp_inv_def)
  moreover from this(1) have "0 \<le> activeThreads p" "activeThreads p \<le> threadCount p"
    using running_bound[of "workers p"] tc by (auto simp: in_progress_def)
  ultimately show ?thesis by (auto simp: GetThreadPoolUsage_def divide_le_eq)
qed

lemma usage_bounded_witness: "GetThreadPoolUsage (ThreadPool_new 10 :: nat thread_pool) \<le> 1"
  using usage_bounded[OF tp_start, of 10] by blast

text \<open>C35: When the joins of the destructor have returned, every task that was submitted before the stop has been
  run to its end.\<close>

theorem destructor_drains:
  assumes "tp_reachable n p" and "0 < n" and "joined p"
  shows "mset (before_stop p) \<subseteq># mset (completed p) \<and> in_progress p = {#}"
proof -
  have inv: "tp_inv n p" by (rule tp_reachable_inv[OF assms(1)])
  have exited: "\<forall>x\<in>set (workers p). x = Exited" using assms(3) by (auto simp: joined_def)
  have "sum_list (map load ws) = {#}" if "\<forall>x\<in>set ws. x = (Exited :: 'a phase)" for ws
    using that by (induction ws) auto
  from this[OF exited] have run: "in_progress p = {#}" by (simp add: in_progress_def)
  have "workers p \<noteq> []" using inv assms(2) by (auto simp: tp_inv_def)
  with exited have "Exited \<in> set (workers p)" by (metis hd_in_set)
  with inv obtain rest where "started p = before_stop p @ rest" by (auto simp: tp_inv_def prefix_def)
  moreover have "mset (started p) = mset (completed p)" using inv run by (simp add: tp_inv_def)
  ultimately have "mset (completed p) = mset (before_stop p) + mset rest" by simp
  with run show ?thesis by simp
qed

theorem destructor_drains_witness:
  "let p = worker_check 0 (destroy_notify (destroy_stop (ThreadPool_new 1 :: nat thread_pool)))
   in joined p \<and> mset (before_stop p) \<subseteq># mset (completed p)"
proof -
  let ?p0 = "ThreadPool_new 1 :: nat thread_pool"
  let ?p2 = "destroy_notify (destroy_stop ?p0)"
  have "tp_reachable 1 (destroy_stop ?p0)" by (rule tp_next[OF tp_start tp_step.stopping])
  then have "tp_reachable 1 ?p2" by (rule tp_next) (rule tp_step.broadcast, simp add: destroy_stop_def)
  then have r: "tp_reachable 1 (worker_check 0 ?p2)"
    by (rule tp_next) (rule tp_step.check; simp add: destroy_stop_def destroy_notify_def ThreadPool_new_def
        wake_def mutex_free_def)
  have "joined (worker_check 0 ?p2)"
    by (simp add: joined_def worker_check_def destroy_stop_def destroy_notify_def ThreadPool_new_def)
  with destructor_drains[OF r] show ?thesis by (simp add: Let_def)
qed

text \<open>C36: The destructor can hang: \<open>stop\<close> is set and \<open>notify_all\<close> is called without the mutex, so both can fall
  between a worker's test of the predicate and its \<open>wait\<close>.  In this reachable state both have
  happened, the queue is empty and the worker sleeps; no notification is left to come.\<close>

theorem destructor_lost_wakeup:
  "\<exists>p :: nat thread_pool. tp_reachable 1 p \<and> stop p \<and> notified_all p \<and> taskQueue p = [] \<and> workers p = [Asleep]"
proof -
  let ?p0 = "ThreadPool_new 1 :: nat thread_pool"
  let ?p1 = "worker_check 0 ?p0"
  let ?p3 = "destroy_notify (destroy_stop ?p1)"
  let ?p4 = "worker_sleep 0 ?p3"
  have r1: "tp_reachable 1 ?p1"
    by (rule tp_next[OF tp_start], rule tp_step.check) (simp_all add: ThreadPool_new_def mutex_free_def)
  have "tp_reachable 1 (destroy_stop ?p1)" by (rule tp_next[OF r1 tp_step.stopping])
  then have r3: "tp_reachable 1 ?p3" by (rule tp_next) (rule tp_step.broadcast, simp add: destroy_stop_def)
  have ws: "workers ?p3 = [Deciding]"
    by (simp add: destroy_notify_def destroy_stop_def worker_check_def ThreadPool_new_def wake_def)
  have "tp_reachable 1 ?p4"
    by (rule tp_next[OF r3], rule tp_step.sleep) (use ws in simp_all)
  moreover have "stop ?p4 \<and> notified_all ?p4 \<and> taskQueue ?p4 = [] \<and> workers ?p4 = [Asleep]"
    using ws by (simp add: worker_sleep_def)
      (simp add: destroy_notify_def destroy_stop_def worker_check_def ThreadPool_new_def)
  ultimately show ?thesis by blast
qed

end
