(* ===== verification/Server_Monitor.thy ===== *)
theory Server_Monitor
  imports Thread_Pool Libraries World
begin

text \<open>
  The monitor, \<^verbatim>\<open>src/src/system/server_monitor.cpp\<close>.  Its thread sleeps for 60 seconds and then
  collects the status; \<open>CollectStatus\<close> reads the counters and borrows a database connection.
\<close>

record monitor =
  monitorInterval :: int
  isRunning :: bool
  has_thread :: bool

definition ServerMonitor_new :: monitor where
  "ServerMonitor_new = \<lparr>monitorInterval = 60, isRunning = False, has_thread = False\<rparr>"

definition StartMonitor :: "monitor \<Rightarrow> monitor" where
  "StartMonitor m = (if isRunning m then m else m\<lparr>isRunning := True, has_thread := True\<rparr>)"

definition StopMonitor :: "monitor \<Rightarrow> monitor" where
  "StopMonitor m = (if \<not> isRunning m then m else m\<lparr>isRunning := False, has_thread := False\<rparr>)"

text \<open>\<open>ValidateConnection\<close> as an action; a wait for ever is modelled as no result.\<close>

definition validate_connection :: "bool option act" where
  "validate_connection = State (\<lambda>w. case ValidateConnection (dbm w) of
     None \<Rightarrow> (None, w) | Some (valid, m) \<Rightarrow> (Some valid, w\<lparr>dbm := m\<rparr>))"

definition CollectStatus :: "libs \<Rightarrow> rat \<Rightarrow> string act" where
  "CollectStatus L usage = do {
     onlineUsers \<leftarrow> gets (\<lambda>w. if has_sessionManager (server w) then int (GetOnlineUserCount (smgr w)) else 0);
     connections \<leftarrow> gets (\<lambda>w. currentConnections (server w));
     poolUsage \<leftarrow> gets (\<lambda>w. if has_threadPool (server w) then usage else 0);
     has_db \<leftarrow> gets (\<lambda>w. has_dbManager (server w));
     dbStatus \<leftarrow> (if has_db then do {
         valid \<leftarrow> validate_connection;
         State_Monad.return (if valid = Some True then ''normal'' else ''error'')
       } else State_Monad.return ''unknown'');
     State_Monad.return (json_write (json_of L) (JObj
       [(''connections'', JInt connections), (''db_status'', JStr dbStatus),
        (''online_users'', JInt onlineUsers), (''thread_pool_usage'', JReal poolUsage)]))
   }"

text \<open>The loop of the monitor thread over the answers of \<open>isRunning\<close>, read before and after the sleep; the
  result lists the reports that \<open>RecordMonitorData\<close> writes.\<close>

fun MonitorThreadFunc :: "libs \<Rightarrow> rat \<Rightarrow> (bool \<times> bool) list \<Rightarrow> string list act" where
  "MonitorThreadFunc L usage [] = State_Monad.return []"
| "MonitorThreadFunc L usage ((before, after) # rest) =
     (if \<not> before then State_Monad.return []
      else if \<not> after then State_Monad.return []
      else do {
        report \<leftarrow> CollectStatus L usage;
        reports \<leftarrow> MonitorThreadFunc L usage rest;
        State_Monad.return (report # reports)
      })"

lemma collect_keeps_pool:
  "mset (connectionPool (dbm (snd (run_state (CollectStatus L u) w)))) = mset (connectionPool (dbm w))"
  using ValidateConnection_pool[of "dbm w"]
  by (auto simp: CollectStatus_def validate_connection_def split: option.splits)

lemma collect_world:
  "dbase (snd (run_state (CollectStatus L u) w)) = dbase w"
  "smgr (snd (run_state (CollectStatus L u) w)) = smgr w"
  "server (snd (run_state (CollectStatus L u) w)) = server w"
  "network (snd (run_state (CollectStatus L u) w)) = network w"
  by (auto simp: CollectStatus_def validate_connection_def split: option.splits)

end
