(* ===== verification/Server.thy ===== *)
theory Server
  imports Dispatch Server_Monitor
begin

text \<open>
  The life of the server, \<^verbatim>\<open>src/src/connection/server.cpp\<close>: starting, accepting connections, serving a
  client, the heartbeat check, stopping.  What the operating system answers (the descriptor that
  \<open>accept\<close> returns, the success of \<open>bind\<close>) is an argument.
\<close>

section \<open>Starting\<close>

definition Server_new :: server_state where
  "Server_new = \<lparr>serverSocket = -1, serverPort = 8886, maxConnections = 128, currentConnections = 0,
     running = False, has_dbManager = False, has_threadPool = False, has_sessionManager = False,
     has_userManager = False, has_friendManager = False, has_messageManager = False, has_monitor = False,
     has_exceptionHandler = False, um_userDAO = False, um_sendCallback = False, mm_sendCallback = False,
     sessionMap = []\<rparr>"

definition SetDBManager :: "unit act" where
  "SetDBManager = modify (\<lambda>w. w\<lparr>server := (server w)\<lparr>has_dbManager := True\<rparr>\<rparr>)"

definition set_server :: "(server_state \<Rightarrow> server_state) \<Rightarrow> unit act" where
  "set_server f = modify (\<lambda>w. w\<lparr>server := f (server w)\<rparr>)"

text \<open>The descriptor of the listening socket (\<open>-1\<close> for an error) and the results of the three calls on it.\<close>

record start_env =
  socket_result :: int
  setsockopt_ok :: bool
  bind_ok :: bool
  listen_ok :: bool

definition create_managers :: "unit act" where
  "create_managers = do {
     modify (\<lambda>w. w\<lparr>smgr := SessionManager_new\<rparr>);
     modify (\<lambda>w. w\<lparr>cachedFriendLists := []\<rparr>);
     set_server (\<lambda>s. s\<lparr>has_threadPool := True, has_sessionManager := True, has_userManager := True,
       um_userDAO := True, has_friendManager := True, has_messageManager := True,
       um_sendCallback := True, mm_sendCallback := True\<rparr>)
   }"

definition Start :: "start_env \<Rightarrow> bool act" where
  "Start env = do {
     db \<leftarrow> gets (\<lambda>w. has_dbManager (server w));
     if \<not> db then State_Monad.return False
     else do {
       create_managers;
       set_server (\<lambda>s. s\<lparr>serverSocket := socket_result env\<rparr>);
       if socket_result env = -1 then State_Monad.return False
       else if \<not> setsockopt_ok env
       then do { close_socket (socket_result env); State_Monad.return False }
       else if \<not> bind_ok env
       then do { close_socket (socket_result env); State_Monad.return False }
       else if \<not> listen_ok env
       then do { close_socket (socket_result env); State_Monad.return False }
       else do {
         set_server (\<lambda>s. s\<lparr>running := True, has_exceptionHandler := True, has_monitor := True\<rparr>);
         State_Monad.return True
       }
     }
   }"

section \<open>Accepting connections\<close>

datatype accepted = AcceptFailed | Accepted int string int

datatype accept_result = Leave | Again | Submit int

definition busy_text :: string where
  "busy_text = ''{\"type\":\"ERROR\",\"code\":5003,\"msg\":\"'' @ txt_server_busy @ ''\"}''"

text \<open>The one \<open>send\<close> call for the refused client; its result is ignored.\<close>

definition raw_send :: "int \<Rightarrow> string \<Rightarrow> unit act" where
  "raw_send sock data = modify (\<lambda>w. w\<lparr>network := snd (sys_send sock data (network w))\<rparr>)"

definition new_session :: "int \<Rightarrow> string \<Rightarrow> int \<Rightarrow> unit act" where
  "new_session sock addr prt = modify (\<lambda>w.
     case alloc (ClientSession_new (now w) sock addr prt) (smgr w) of
       (p, st) \<Rightarrow> w\<lparr>smgr := AddSession sock p st\<rparr>)"

definition count_connections :: "int \<Rightarrow> unit act" where
  "count_connections k = set_server (\<lambda>s. s\<lparr>currentConnections := currentConnections s + k\<rparr>)"

text \<open>The body of the loop of \<open>AcceptConnections\<close>; \<open>Submit\<close> is the task handed to the thread pool.\<close>

definition accept_round :: "accepted \<Rightarrow> accept_result act" where
  "accept_round a = (case a of
     AcceptFailed \<Rightarrow> do {
       run \<leftarrow> gets (\<lambda>w. running (server w));
       if \<not> run then do { close_socket (-1); State_Monad.return Leave }
       else State_Monad.return Again
     }
   | Accepted sock addr prt \<Rightarrow> do {
       current \<leftarrow> gets (\<lambda>w. currentConnections (server w));
       limit \<leftarrow> gets (\<lambda>w. maxConnections (server w));
       if limit \<le> current then do {
         raw_send sock (PackageMessage busy_text);
         close_socket sock;
         State_Monad.return Again
       }
       else do {
         new_session sock addr prt;
         count_connections 1;
         State_Monad.return (Submit sock)
       }
     })"

text \<open>The loop, over the answers of \<open>accept\<close>; the result lists the submitted sockets.\<close>

fun AcceptConnections :: "accepted list \<Rightarrow> int list act" where
  "AcceptConnections [] = State_Monad.return []"
| "AcceptConnections (a # rest) = do {
     run \<leftarrow> gets (\<lambda>w. running (server w));
     if \<not> run then State_Monad.return []
     else do {
       r \<leftarrow> accept_round a;
       case r of
         Leave \<Rightarrow> State_Monad.return []
       | Again \<Rightarrow> AcceptConnections rest
       | Submit sock \<Rightarrow> do {
           socks \<leftarrow> AcceptConnections rest;
           State_Monad.return (sock # socks)
         }
     }
   }"

section \<open>Serving a client\<close>

datatype round = Served | Ended | Threw

definition receive_data :: "string \<Rightarrow> int \<Rightarrow> string act" where
  "receive_data junk sock = State (\<lambda>w. case ReceiveData junk (inbox w sock) of
     (data, segs) \<Rightarrow> (data, w\<lparr>inbox := (inbox w)(sock := segs)\<rparr>))"

text \<open>One round of the loop of \<open>HandleClient\<close>; \<open>junk\<close> is uninitialised memory (header bytes, \<open>count\<close>).\<close>

definition client_round :: "libs \<Rightarrow> string \<times> int \<Rightarrow> int \<Rightarrow> round act" where
  "client_round L junk sock = do {
     run \<leftarrow> gets (\<lambda>w. running (server w));
     if \<not> run then State_Monad.return Ended
     else do {
       data \<leftarrow> receive_data (fst junk) sock;
       if data = [] then State_Monad.return Ended
       else do {
         ok \<leftarrow> DispatchRequest L (snd junk) sock data;
         State_Monad.return (if ok then Served else Threw)
       }
     }
   }"

text \<open>What follows the loop when it ends.\<close>

definition forget_session :: "int \<Rightarrow> unit act" where
  "forget_session sock = do { remove_session sock; count_connections (-1) }"

definition announce_offline :: "libs \<Rightarrow> string \<Rightarrow> unit act" where
  "announce_offline L name = do {
     _ \<leftarrow> UpdateUserOnlineStatus L name False;
     NotifyFriendsStatusChange L name Offline;
     friendMgr \<leftarrow> gets (\<lambda>w. has_friendManager (server w));
     guarded friendMgr (RemoveFriendCache name)
   }"

definition finish_client :: "libs \<Rightarrow> int \<Rightarrow> unit act" where
  "finish_client L sock = do {
     session \<leftarrow> get_session sock;
     (case session of
        None \<Rightarrow> skip
      | Some p \<Rightarrow> do {
          name \<leftarrow> session_get p GetUsername;
          guarded (name \<noteq> []) (announce_offline L name);
          forget_session sock
        });
     close_socket sock
   }"

text \<open>The handler of an exception that left the loop.\<close>

definition fail_client :: "libs \<Rightarrow> int \<Rightarrow> unit act" where
  "fail_client L sock = do {
     handler \<leftarrow> gets (\<lambda>w. has_exceptionHandler (server w));
     (if handler then HandleClientException sock else close_socket sock);
     session \<leftarrow> get_session sock;
     case session of
       None \<Rightarrow> skip
     | Some p \<Rightarrow> do {
         name \<leftarrow> session_get p GetUsername;
         userMgr \<leftarrow> gets (\<lambda>w. has_userManager (server w));
         guarded (name \<noteq> [] \<and> userMgr) (do { _ \<leftarrow> UpdateUserOnlineStatus L name False; skip });
         forget_session sock
       }
   }"

section \<open>The heartbeat check\<close>

definition heartbeat_one :: "libs \<Rightarrow> int \<Rightarrow> int \<times> nat \<Rightarrow> unit act" where
  "heartbeat_one L currentTime entry = (case entry of (sock, p) \<Rightarrow> do {
     connected \<leftarrow> session_get p GetIsConnected;
     name \<leftarrow> session_get p GetUsername;
     guarded (connected \<and> name \<noteq> []) (do {
       beat \<leftarrow> session_get p GetLastHeartbeat;
       guarded (600 < currentTime - beat) (do {
         announce_offline L name;
         shutdown_socket sock;
         forget_session sock
       })
     })
   })"

text \<open>One round of \<open>HeartbeatCheckThread\<close>, after its sleep of 30 seconds.\<close>

definition heartbeat_round :: "libs \<Rightarrow> unit act" where
  "heartbeat_round L = do {
     all \<leftarrow> gets (\<lambda>w. GetAllSessions (smgr w));
     currentTime \<leftarrow> gets now;
     foreach all (heartbeat_one L currentTime)
   }"

text \<open>The loop of the heartbeat thread; the argument holds the times at which the sleeps of 30 seconds end.\<close>

primrec HeartbeatCheckThread :: "libs \<Rightarrow> int list \<Rightarrow> unit act" where
  "HeartbeatCheckThread L [] = skip"
| "HeartbeatCheckThread L (t # ts) = do {
     up \<leftarrow> gets (\<lambda>w. running (server w));
     guarded up (do {
       modify (\<lambda>w. w\<lparr>now := t\<rparr>);
       heartbeat_round L;
       HeartbeatCheckThread L ts
     })
   }"

section \<open>Stopping\<close>

definition stop_session :: "libs \<Rightarrow> int \<times> nat \<Rightarrow> unit act" where
  "stop_session L entry = (case entry of (sock, p) \<Rightarrow> do {
     name \<leftarrow> session_get p GetUsername;
     userMgr \<leftarrow> gets (\<lambda>w. has_userManager (server w));
     guarded (name \<noteq> [] \<and> userMgr) (do {
       _ \<leftarrow> UpdateUserOnlineStatus L name False;
       friendMgr \<leftarrow> gets (\<lambda>w. has_friendManager (server w));
       guarded friendMgr (RemoveFriendCache name)
     });
     s \<leftarrow> session_get p GetSocket;
     guarded (s \<noteq> -1) (shutdown_socket s)
   })"

text \<open>\<open>Stop\<close>; the joins of the monitor and the heartbeat thread only wait.\<close>

definition Stop :: "libs \<Rightarrow> unit act" where
  "Stop L = do {
     set_server (\<lambda>s. s\<lparr>running := False\<rparr>);
     sessionMgr \<leftarrow> gets (\<lambda>w. has_sessionManager (server w));
     all \<leftarrow> gets (\<lambda>w. GetAllSessions (smgr w));
     guarded sessionMgr (foreach all (stop_session L));
     s \<leftarrow> gets (\<lambda>w. serverSocket (server w));
     guarded (s \<noteq> -1) (do {
       shutdown_socket s;
       close_socket s;
       set_server (\<lambda>sv. sv\<lparr>serverSocket := -1\<rparr>)
     })
   }"

section \<open>The session functions of the server\<close>

text \<open>They forward to the session manager; without one they use the server's own map.\<close>

definition Server_AddSession :: "int \<Rightarrow> nat \<Rightarrow> unit act" where
  "Server_AddSession sock p = do {
     sessionMgr \<leftarrow> gets (\<lambda>w. has_sessionManager (server w));
     if sessionMgr then modify (\<lambda>w. w\<lparr>smgr := AddSession sock p (smgr w)\<rparr>)
     else set_server (\<lambda>s. s\<lparr>sessionMap := umap_set sock p (sessionMap s)\<rparr>)
   }"

definition Server_RemoveSession :: "int \<Rightarrow> unit act" where
  "Server_RemoveSession sock = do {
     sessionMgr \<leftarrow> gets (\<lambda>w. has_sessionManager (server w));
     if sessionMgr then remove_session sock
     else do {
       it \<leftarrow> gets (\<lambda>w. umap_find (sessionMap (server w)) sock);
       case it of
         None \<Rightarrow> skip
       | Some p \<Rightarrow> do {
           modify (\<lambda>w. w\<lparr>smgr := delete_at p (smgr w)\<rparr>);
           set_server (\<lambda>s. s\<lparr>sessionMap := umap_erase sock (sessionMap s)\<rparr>)
         }
     }
   }"

definition Server_GetSession :: "int \<Rightarrow> nat option act" where
  "Server_GetSession sock = do {
     sessionMgr \<leftarrow> gets (\<lambda>w. has_sessionManager (server w));
     if sessionMgr then get_session sock
     else gets (\<lambda>w. umap_find (sessionMap (server w)) sock)
   }"

fun find_username :: "string \<Rightarrow> (int, nat) umap \<Rightarrow> nat option act" where
  "find_username name [] = State_Monad.return None"
| "find_username name ((sock, p) # rest) = do {
     n \<leftarrow> session_get p GetUsername;
     if n = name then State_Monad.return (Some p) else find_username name rest
   }"

definition Server_GetSessionByUsername :: "string \<Rightarrow> nat option act" where
  "Server_GetSessionByUsername name = do {
     sessionMgr \<leftarrow> gets (\<lambda>w. has_sessionManager (server w));
     if sessionMgr then get_session_by_username name
     else do {
       m \<leftarrow> gets (\<lambda>w. sessionMap (server w));
       find_username name m
     }
   }"

definition GetCurrentConnections :: "int act" where
  "GetCurrentConnections = gets (\<lambda>w. currentConnections (server w))"

section \<open>What serving a client keeps\<close>

context handler_inv begin

lemma keeps_announce: "mysql_of L = Q \<Longrightarrow> keeps I (announce_offline L name)"
  unfolding announce_offline_def
  by (intro handler_intros keeps_bind keeps_user_manager keeps_RemoveFriendCache)

lemma keeps_stop_session: "mysql_of L = Q \<Longrightarrow> snd entry \<in> Ptrs \<Longrightarrow> keeps I (stop_session L entry)"
  unfolding stop_session_def
  by (intro handler_intros keeps_bind keeps_user_manager keeps_RemoveFriendCache) auto

end

text \<open>Nothing that a manager does touches the server's own state, the input or the clock.\<close>

interpretation steady: handler_inv Q "\<lambda>w. server w = sv \<and> inbox w = ib \<and> now w = t" UNIV for Q sv ib t
  by unfold_locales
    (auto intro!: keepsI hoareI simp: run_dao_update_world run_dao_query_world)

lemma DispatchRequest_frame:
  "server (snd (run_state (DispatchRequest L junk sock data) w)) = server w"
  "inbox (snd (run_state (DispatchRequest L junk sock data) w)) = inbox w"
  "now (snd (run_state (DispatchRequest L junk sock data) w)) = now w"
  using keepsD[OF steady.keeps_DispatchRequest[OF refl, of "server w" "inbox w" "now w"], of w] by auto

section \<open>Serving a client to the end\<close>

lemma ReceiveData_consumes:
  assumes "ReceiveData junk segs = (data, segs')" and "data \<noteq> []"
  shows "length (concat segs') < length (concat segs)"
proof -
  obtain h segs1 where h: "recv 4 segs = (h, segs1)" by fastforce
  let ?n = "unat (ParseMessageHeader (h @ drop (length h) junk))"
  obtain r segs2 where r: "receive_body ?n [] segs1 = (r, segs2)" by fastforce
  have "h \<noteq> []" using assms h by (auto simp: ReceiveData_def Let_def)
  moreover have "segs' = segs2"
    using assms h r by (auto simp: ReceiveData_def Let_def split: if_splits option.splits)
  moreover from receive_body_consumes[OF r] obtain used where "concat segs1 = used @ concat segs2" by blast
  then have "length (concat segs2) \<le> length (concat segs1)" by simp
  moreover have "length (concat segs) = length h + length (concat segs1)"
    using recv_concat[OF h] by (metis length_append)
  ultimately show ?thesis by (simp flip: length_greater_0_conv)
qed

lemma client_round_consumes:
  assumes "run_state (client_round L junk sock) w = (Served, w')"
  shows "length (concat (inbox w' sock)) < length (concat (inbox w sock))"
proof -
  obtain data segs where rd: "ReceiveData (fst junk) (inbox w sock) = (data, segs)" by fastforce
  let ?w1 = "w\<lparr>inbox := (inbox w)(sock := segs)\<rparr>"
  have "running (server w)" and "data \<noteq> []"
    and "w' = snd (run_state (DispatchRequest L (snd junk) sock data) ?w1)"
    using assms rd by (auto simp: client_round_def receive_data_def case_prod_beta split: if_splits)
  then have "inbox w' sock = segs" by (simp add: DispatchRequest_frame)
  with ReceiveData_consumes[OF rd \<open>data \<noteq> []\<close>] show ?thesis by simp
qed

text \<open>The loop of \<open>HandleClient\<close> for a client that nobody else interferes with.\<close>

function client_loop :: "libs \<Rightarrow> string \<times> int \<Rightarrow> int \<Rightarrow> world \<Rightarrow> round \<times> world" where
  "client_loop L junk sock w =
     (case run_state (client_round L junk sock) w of
        (Served, w') \<Rightarrow> client_loop L junk sock w'
      | (r, w') \<Rightarrow> (r, w'))"
  by pat_completeness auto
termination
  by (relation "measure (\<lambda>(L, junk, sock, w). length (concat (inbox w sock)))")
    (auto dest: client_round_consumes[OF sym])

declare client_loop.simps [simp del]

definition HandleClient :: "libs \<Rightarrow> string \<times> int \<Rightarrow> int \<Rightarrow> unit act" where
  "HandleClient L junk sock = State (\<lambda>w. case client_loop L junk sock w of
     (Threw, w') \<Rightarrow> run_state (fail_client L sock) w'
   | (_, w') \<Rightarrow> run_state (finish_client L sock) w')"

section \<open>The invariant of the world\<close>

text \<open>
  \<open>winv Q M K S\<close>: the database obeys the schema, the pool holds the connections \<open>M\<close>, no session pointer
  dangles, the counter is the number of sessions and within the limit \<open>K\<close>, and only the sockets \<open>S\<close> have
  sessions.
\<close>

definition winv :: "mysql \<Rightarrow> nat multiset \<Rightarrow> int \<Rightarrow> int set \<Rightarrow> world \<Rightarrow> bool" where
  "winv Q M K S w \<longleftrightarrow> db_ok Q (dbase w) \<and> mset (connectionPool (dbm w)) = M \<and> sessions_ok (smgr w)
     \<and> currentConnections (server w) = int (length (cliSessionMap (smgr w)))
     \<and> currentConnections (server w) \<le> K \<and> maxConnections (server w) = K
     \<and> fst ` set (cliSessionMap (smgr w)) \<subseteq> S"

lemma winv_sessions: "winv Q M K S w \<Longrightarrow> sessions_ok (smgr w)"
  by (simp add: winv_def)

text \<open>Updates that the invariant does not see.\<close>

lemma winv_other [simp]:
  "winv Q M K S (w\<lparr>network := ns\<rparr>) = winv Q M K S w" "winv Q M K S (w\<lparr>cachedFriendLists := c\<rparr>) = winv Q M K S w"
  "winv Q M K S (w\<lparr>now := t\<rparr>) = winv Q M K S w" "winv Q M K S (w\<lparr>inbox := ib\<rparr>) = winv Q M K S w"
  by (simp_all add: winv_def)

text \<open>An action on which all interpretations of the interface agree.\<close>

lemma winv_handler:
  assumes "keeps (\<lambda>w. db_ok Q (dbase w)) m" and "\<And>mp. keeps (safe_sessions mp) m"
    and "\<And>M. keeps (\<lambda>w. mset (connectionPool (dbm w)) = M) m"
    and "\<And>sv ib t. keeps (\<lambda>w. server w = sv \<and> inbox w = ib \<and> now w = t) m"
    and "winv Q M K S w"
  shows "winv Q M K S (snd (run_state m w)) \<and> cliSessionMap (smgr (snd (run_state m w))) = cliSessionMap (smgr w)
    \<and> server (snd (run_state m w)) = server w"
proof -
  have "safe_sessions (cliSessionMap (smgr w)) w" using assms(5) by (simp add: safe_sessions_def winv_def)
  from keepsD[OF assms(2) this] have "safe_sessions (cliSessionMap (smgr w)) (snd (run_state m w))" .
  moreover from keepsD[OF assms(4)[of "server w" "inbox w" "now w"], of w]
  have "server (snd (run_state m w)) = server w" by simp
  ultimately show ?thesis
    using keepsD[OF assms(1), of w] keepsD[OF assms(3)[of M], of w] assms(5)
    by (simp add: winv_def safe_sessions_def)
qed

lemma winv_Dispatch:
  assumes "winv (mysql_of L) M K S w"
  shows "winv (mysql_of L) M K S (snd (run_state (DispatchRequest L junk sock data) w))"
  using winv_handler[OF schema.keeps_DispatchRequest[OF refl] memory.keeps_DispatchRequest[OF refl]
      pool.keeps_DispatchRequest[OF refl] steady.keeps_DispatchRequest[OF refl] assms] by blast

lemma winv_client_round:
  assumes "winv (mysql_of L) M K S w" and "run_state (client_round L junk sock) w = (r, w')"
  shows "winv (mysql_of L) M K S w'"
proof -
  obtain data segs where rd: "ReceiveData (fst junk) (inbox w sock) = (data, segs)" by fastforce
  let ?w1 = "w\<lparr>inbox := (inbox w)(sock := segs)\<rparr>"
  have "winv (mysql_of L) M K S ?w1" using assms(1) by simp
  from winv_Dispatch[OF this] assms rd show ?thesis
    by (auto simp: client_round_def receive_data_def case_prod_beta split: if_splits)
qed

lemma run_session_get_live:
  assumes "sessions_ok (smgr w)" and "umap_find (cliSessionMap (smgr w)) sock = Some p"
  shows "run_state (session_get p f) w = (f (deref (smgr w) p), w)"
  using sessions_ok_touch[OF assms] by simp

lemma umap_none_keys: "umap_find m k = None \<longleftrightarrow> k \<notin> fst ` set m"
  by (simp add: umap_find_def map_of_eq_None_iff)

lemma winv_forget:
  assumes "winv Q M K S w" and "umap_find (cliSessionMap (smgr w)) sock = Some p"
  shows "winv Q M K (S - {sock}) (snd (run_state (forget_session sock) w))"
proof -
  have wf: "umap_wf (cliSessionMap (smgr w))" using assms(1) by (simp add: winv_def sessions_ok_def)
  have "length (umap_erase sock (cliSessionMap (smgr w))) = length (cliSessionMap (smgr w)) - 1"
    using um.count_erase[OF wf, of sock] assms(2) by simp
  moreover have "0 < length (cliSessionMap (smgr w))" using um.count_pos[OF wf assms(2)] .
  moreover have "fst ` set (umap_erase sock (cliSessionMap (smgr w))) \<subseteq> S - {sock}"
  proof
    fix k
    assume "k \<in> fst ` set (umap_erase sock (cliSessionMap (smgr w)))"
    then have "umap_find (umap_erase sock (cliSessionMap (smgr w))) k \<noteq> None"
      using umap_none_keys by metis
    then have "k \<noteq> sock" "k \<in> fst ` set (cliSessionMap (smgr w))"
      by (auto simp: um_simps split: if_splits dest!: umap_find_in_set intro: rev_image_eqI)
    with assms(1) show "k \<in> S - {sock}" by (auto simp: winv_def)
  qed
  ultimately show ?thesis
    using assms by (auto simp: forget_session_def count_connections_def set_server_def remove_session_def
        winv_def sessions_ok_RemoveSession RemoveSession_maps of_nat_diff Suc_le_eq)
qed

lemma winv_announce:
  assumes "winv (mysql_of L) M K S w"
  shows "winv (mysql_of L) M K S (snd (run_state (announce_offline L name) w))
    \<and> cliSessionMap (smgr (snd (run_state (announce_offline L name) w))) = cliSessionMap (smgr w)"
  using winv_handler[OF schema.keeps_announce[OF refl] memory.keeps_announce[OF refl]
      pool.keeps_announce[OF refl] steady.keeps_announce[OF refl] assms] by blast

lemma winv_status:
  assumes "winv (mysql_of L) M K S w"
  shows "winv (mysql_of L) M K S (snd (run_state (UpdateUserOnlineStatus L name b) w))
    \<and> cliSessionMap (smgr (snd (run_state (UpdateUserOnlineStatus L name b) w))) = cliSessionMap (smgr w)"
  using winv_handler[OF schema.keeps_user_manager(3)[OF refl] memory.keeps_user_manager(3)[OF refl]
      pool.keeps_user_manager(3)[OF refl] steady.keeps_user_manager(3)[OF refl] assms] by blast

lemma winv_no_session: "winv Q M K S w \<Longrightarrow> umap_find (cliSessionMap (smgr w)) sock = None \<Longrightarrow> winv Q M K (S - {sock}) w"
  by (auto simp: winv_def umap_none_keys)

lemma winv_finish:
  assumes inv: "winv (mysql_of L) M K S w" and run: "run_state (finish_client L sock) w = ((), w')"
  shows "winv (mysql_of L) M K (S - {sock}) w'"
proof (cases "umap_find (cliSessionMap (smgr w)) sock")
  case None
  with winv_no_session[OF inv None] run show ?thesis
    by (auto simp: finish_client_def GetSession_def close_socket_def)
next
  case (Some p)
  define w1 where "w1 = (if username (deref (smgr w) p) = [] then w
    else snd (run_state (announce_offline L (username (deref (smgr w) p))) w))"
  have w1: "winv (mysql_of L) M K S w1" "umap_find (cliSessionMap (smgr w1)) sock = Some p"
    using winv_announce[OF inv] inv Some by (auto simp: w1_def)
  have "w' = (snd (run_state (forget_session sock) w1))\<lparr>network := sys_close sock (network (snd (run_state (forget_session sock) w1)))\<rparr>"
    using run Some run_session_get_live[OF winv_sessions[OF inv] Some, of GetUsername]
    by (auto simp: finish_client_def GetSession_def close_socket_def w1_def case_prod_beta simp del: run_session_get)
  with winv_forget[OF w1] show ?thesis by simp
qed

lemma winv_fail:
  assumes inv: "winv (mysql_of L) M K S w" and run: "run_state (fail_client L sock) w = ((), w')"
  shows "winv (mysql_of L) M K (S - {sock}) w'"
proof -
  let ?w0 = "w\<lparr>network := sys_close sock (network w)\<rparr>"
  have inv0: "winv (mysql_of L) M K S ?w0" using inv by simp
  show ?thesis
  proof (cases "umap_find (cliSessionMap (smgr w)) sock")
    case None
    with winv_no_session[OF inv None] run show ?thesis
      by (auto simp: fail_client_def GetSession_def close_socket_def HandleClientException_def split: if_splits)
  next
    case (Some p)
    then have some0: "umap_find (cliSessionMap (smgr ?w0)) sock = Some p" by simp
    define w1 where "w1 = (if username (deref (smgr w) p) \<noteq> [] \<and> has_userManager (server w)
      then snd (run_state (UpdateUserOnlineStatus L (username (deref (smgr w) p)) False) ?w0) else ?w0)"
    have w1: "winv (mysql_of L) M K S w1" "umap_find (cliSessionMap (smgr w1)) sock = Some p"
      using winv_status[OF inv0] inv0 Some by (auto simp: w1_def)
    have "w' = snd (run_state (forget_session sock) w1)"
      using run Some run_session_get_live[OF winv_sessions[OF inv0] some0, of GetUsername]
      by (auto simp: fail_client_def GetSession_def close_socket_def HandleClientException_def w1_def
          case_prod_beta split: if_splits simp del: run_session_get)
    with winv_forget[OF w1] show ?thesis by simp
  qed
qed

section \<open>The heartbeat round\<close>

definition offline :: "libs \<Rightarrow> string \<Rightarrow> database \<Rightarrow> database" where
  "offline L name d = map_users (\<lambda>r. same_name (mysql_of L) (u_name r) name) (\<lambda>r. r\<lparr>u_online := False\<rparr>) d"

lemma sql_offline: "sql_update_online_by_name (mysql_of L) name False d = Some (offline L name d)"
  by (simp add: sql_update_online_by_name_def offline_def)

lemma wp_status:
  "wp (UpdateUserOnlineStatus L name b) (\<lambda>_ w'. smgr w' = smgr w \<and> server w' = server w \<and> network w' = network w
    \<and> (calm w \<longrightarrow> calm w' \<and> sql_update_online_by_name (mysql_of L) name b (dbase w) = Some (dbase w'))) w"
  unfolding UpdateUserOnlineStatus_def UpdateOnlineStatusByUsername_def wp_def
  by (auto simp: run_dao_update_world run_dao_update_calm sql_update_online_by_name_def)

text \<open>All that announcing the departure of a user does, under any fault.\<close>

definition departed :: "libs \<Rightarrow> string \<Rightarrow> world \<Rightarrow> world \<Rightarrow> bool" where
  "departed L name w w' \<longleftrightarrow> smgr w' = smgr w \<and> server w' = server w
     \<and> (dbase w' = offline L name (dbase w) \<or> \<not> calm w \<and> dbase w' = dbase w)
     \<and> (has_friendManager (server w) \<longrightarrow> umap_find (cachedFriendLists w') name = None)
     \<and> (\<exists>evs. events (network w') = events (network w) @ evs
          \<and> (\<forall>e\<in>set evs. notice_target L name (dbase w') (smgr w) e))"

lemma wp_status_any:
  "wp (UpdateUserOnlineStatus L name False) (\<lambda>_ w'. smgr w' = smgr w \<and> server w' = server w \<and> network w' = network w
    \<and> (dbase w' = offline L name (dbase w) \<or> \<not> calm w \<and> dbase w' = dbase w)) w"
  using run_dao_update_cases[of "sql_update_online_by_name (mysql_of L) name False" w] wp_status[of L name False w]
  unfolding UpdateUserOnlineStatus_def UpdateOnlineStatusByUsername_def wp_def
  by (auto simp: sql_offline)

lemma wp_departed:
  assumes ok: "sessions_ok (smgr w)"
  shows "wp (announce_offline L name) (\<lambda>_. departed L name w) w"
proof -
  have cache: "wp (gets (\<lambda>w. has_friendManager (server w))) (\<lambda>b. wp (guarded b (RemoveFriendCache name)) (\<lambda>_. departed L name w)) w2"
    if n: "noticed L name w1 w2" and w1: "smgr w1 = smgr w" "server w1 = server w" "network w1 = network w"
      "dbase w1 = offline L name (dbase w) \<or> \<not> calm w \<and> dbase w1 = dbase w" for w1 w2
  proof -
    from n obtain m s ns evs where w2: "w2 = w1\<lparr>dbm := m, db_script := s, network := ns\<rparr>"
      and evs: "events ns = events (network w1) @ evs" "\<forall>e\<in>set evs. notice_target L name (dbase w1) (smgr w1) e"
      by (auto simp: noticed_def)
    show ?thesis
      using w1 evs by (auto simp: w2 wp_simps RemoveFriendCache_def departed_def um_simps)
  qed
  show ?thesis
    unfolding announce_offline_def wp_bind
  proof (rule wp_mono[OF wp_status_any], elim conjE)
    fix x and w1 :: world
    assume w1: "smgr w1 = smgr w" "server w1 = server w" "network w1 = network w"
      "dbase w1 = offline L name (dbase w) \<or> \<not> calm w \<and> dbase w1 = dbase w"
    show "wp (NotifyFriendsStatusChange L name Offline)
        (\<lambda>_. wp (gets (\<lambda>w. has_friendManager (server w))) (\<lambda>b. wp (guarded b (RemoveFriendCache name)) (\<lambda>_. departed L name w))) w1"
      by (rule wp_notify) (use ok w1 cache in simp_all)
  qed
qed

lemma calm_announce: "calm w \<Longrightarrow> calm (snd (run_state (announce_offline L name) w))"
  by (rule keepsD[OF quiet.keeps_announce[OF refl]])

lemma forget_world:
  "dbase (snd (run_state (forget_session sock) w)) = dbase w"
  "cachedFriendLists (snd (run_state (forget_session sock) w)) = cachedFriendLists w"
  "network (snd (run_state (forget_session sock) w)) = network w" "now (snd (run_state (forget_session sock) w)) = now w"
  "smgr (snd (run_state (forget_session sock) w)) = RemoveSession sock (smgr w)"
  "server (snd (run_state (forget_session sock) w)) = (server w)\<lparr>currentConnections := currentConnections (server w) - 1\<rparr>"
  "calm (snd (run_state (forget_session sock) w)) = calm w"
  by (simp_all add: forget_session_def count_connections_def set_server_def remove_session_def)

definition idle :: "int \<Rightarrow> ClientSession \<Rightarrow> bool" where
  "idle t c \<longleftrightarrow> isConnected c \<and> username c \<noteq> [] \<and> 600 < t - lastHeartbeat c"

definition idle_names :: "world \<Rightarrow> (int \<times> nat) list \<Rightarrow> string list" where
  "idle_names w ys = map (\<lambda>(_, p). username (deref (smgr w) p))
     (filter (\<lambda>(_, p). idle (now w) (deref (smgr w) p)) ys)"

text \<open>The state after the entries \<open>ys\<close> of the snapshot have been visited.\<close>

definition beaten :: "libs \<Rightarrow> nat multiset \<Rightarrow> int \<Rightarrow> int set \<Rightarrow> world \<Rightarrow> (int \<times> nat) list \<Rightarrow> world \<Rightarrow> bool" where
  "beaten L M K S w0 ys w \<longleftrightarrow> winv (mysql_of L) M K S w \<and> now w = now w0
     \<and> (\<forall>s. umap_find (cliSessionMap (smgr w)) s =
          (if \<exists>p. (s, p) \<in> set ys \<and> idle (now w0) (deref (smgr w0) p) then None
           else umap_find (cliSessionMap (smgr w0)) s))
     \<and> (\<forall>s p. umap_find (cliSessionMap (smgr w)) s = Some p \<longrightarrow> deref (smgr w) p = deref (smgr w0) p)
     \<and> (\<forall>s p. (s, p) \<in> set ys \<and> idle (now w0) (deref (smgr w0) p) \<longrightarrow> Shutdown s \<in> set (events (network w)))
     \<and> (calm w0 \<longrightarrow> calm w \<and> dbase w = fold (offline L) (idle_names w0 ys) (dbase w0))"

lemma RemoveSession_deref:
  assumes "sessions_ok st" and "umap_find (cliSessionMap st) sock = Some p" and "q \<noteq> p"
  shows "deref (RemoveSession sock st) q = deref st q"
  using assms sessions_ok_touch[OF assms(1,2)]
  by (auto simp: RemoveSession_def Let_def delete_at_def deref_def touch_def split: if_splits)

lemma wp_heartbeat_one:
  assumes I: "beaten L M K S w0 ys w"
    and new: "sock \<notin> fst ` set ys" and old: "umap_find (cliSessionMap (smgr w0)) sock = Some p"
  shows "wp (heartbeat_one L (now w0) (sock, p)) (\<lambda>_. beaten L M K S w0 (ys @ [(sock, p)])) w"
proof -
  have inv: "winv (mysql_of L) M K S w" using I by (simp add: beaten_def)
  note ok = winv_sessions[OF inv]
  have live: "umap_find (cliSessionMap (smgr w)) sock = Some p"
    using I new old by (force simp: beaten_def)
  have same: "deref (smgr w) p = deref (smgr w0) p" using I live by (auto simp: beaten_def)
  note get = run_session_get_live[OF ok live]
  show ?thesis
  proof (cases "idle (now w0) (deref (smgr w0) p)")
    case False
    have "run_state (heartbeat_one L (now w0) (sock, p)) w = ((), w)"
      using False same by (auto simp: heartbeat_one_def idle_def get simp del: run_session_get)
    moreover have "beaten L M K S w0 (ys @ [(sock, p)]) w"
      using I False new old unfolding beaten_def by (auto simp: idle_names_def split: if_splits)
    ultimately show ?thesis by (simp add: wp_def)
  next
    case True
    let ?name = "username (deref (smgr w) p)"
    define w1 where "w1 = snd (run_state (announce_offline L ?name) w)"
    define w2 where "w2 = w1\<lparr>network := sys_shutdown sock (network w1)\<rparr>"
    have ann: "departed L ?name w w1"
      using wp_departed[OF ok, of L ?name] by (simp add: wp_def w1_def)
    have time: "now w1 = now w"
      using keepsD[OF steady.keeps_announce[OF refl, of "server w" "inbox w" "now w" L ?name], of w] by (simp add: w1_def)
    have inv2: "winv (mysql_of L) M K S w2"
      using winv_announce[OF inv] by (simp add: w2_def w1_def)
    have sm: "smgr w2 = smgr w" "now w2 = now w" using ann time by (simp_all add: w2_def departed_def)
    have run: "run_state (heartbeat_one L (now w0) (sock, p)) w = run_state (forget_session sock) w2"
      using True same by (simp add: heartbeat_one_def idle_def get w1_def w2_def case_prod_beta del: run_session_get)
    let ?w3 = "snd (run_state (forget_session sock) w2)"
    have w3: "smgr ?w3 = RemoveSession sock (smgr w)" "network ?w3 = network w2" "now ?w3 = now w"
      using sm by (simp_all add: forget_world)
    have "winv (mysql_of L) M K (S - {sock}) ?w3"
      by (rule winv_forget[OF inv2]) (use live sm in simp)
    then have "winv (mysql_of L) M K S ?w3" by (auto simp: winv_def)
    moreover have "umap_find (cliSessionMap (smgr ?w3)) s =
        (if \<exists>q. (s, q) \<in> set (ys @ [(sock, p)]) \<and> idle (now w0) (deref (smgr w0) q) then None
         else umap_find (cliSessionMap (smgr w0)) s)" for s
      using I True live by (auto simp: w3 RemoveSession_maps um_simps beaten_def)
    moreover have "deref (smgr ?w3) q = deref (smgr w0) q" if "umap_find (cliSessionMap (smgr ?w3)) s = Some q" for s q
    proof -
      have s: "s \<noteq> sock" "umap_find (cliSessionMap (smgr w)) s = Some q"
        using that live by (auto simp: w3 RemoveSession_maps um_simps split: if_splits)
      with sessions_ok_ptr_inj[OF ok live, of s] have "q \<noteq> p" by auto
      with RemoveSession_deref[OF ok live] I s(2) show ?thesis by (simp add: w3 beaten_def)
    qed
    moreover have "Shutdown s \<in> set (events (network ?w3))"
      if e: "(s, q) \<in> set (ys @ [(sock, p)])" "idle (now w0) (deref (smgr w0) q)" for s q
    proof -
      have ev: "events (network ?w3) = events (network w1) @ [Shutdown sock]"
        unfolding w3(2) by (simp add: w2_def sys_shutdown_def)
      have "Shutdown s \<in> set (events (network w)) \<or> s = sock"
        using e I by (auto simp: beaten_def)
      then show ?thesis
        using ann unfolding ev by (auto simp: departed_def)
    qed
    moreover have "calm ?w3 \<and> dbase ?w3 = fold (offline L) (idle_names w0 (ys @ [(sock, p)])) (dbase w0)" if c: "calm w0"
    proof -
      have "calm w" and "dbase w = fold (offline L) (idle_names w0 ys) (dbase w0)" using I c by (simp_all add: beaten_def)
      moreover from this(1) have "calm w1" by (simp add: w1_def calm_announce)
      ultimately show ?thesis
        using ann True same by (simp add: forget_world w2_def departed_def idle_names_def)
          (simp add: calm_def)
    qed
    moreover have "now ?w3 = now w0" using I w3 by (simp add: beaten_def)
    ultimately have "beaten L M K S w0 (ys @ [(sock, p)]) ?w3"
      unfolding beaten_def by blast
    with run show ?thesis by (simp add: wp_def)
  qed
qed

lemma wp_heartbeat_round:
  assumes inv: "winv (mysql_of L) M K S w"
  shows "wp (heartbeat_round L) (\<lambda>_. beaten L M K S w (cliSessionMap (smgr w))) w"
proof -
  let ?all = "cliSessionMap (smgr w)"
  have wf: "umap_wf ?all" using inv by (simp add: winv_def sessions_ok_def)
  have "wp (foreach ?all (heartbeat_one L (now w))) (\<lambda>_. beaten L M K S w ?all) w"
  proof (rule wp_foreach_prefix[of "beaten L M K S w"])
    show "beaten L M K S w [] w" using inv by (simp add: beaten_def idle_names_def)
  next
    fix ys x w'
    assume pre: "prefix (ys @ [x]) ?all" and I: "beaten L M K S w ys w'"
    obtain sock p where x: "x = (sock, p)" by fastforce
    from pre obtain zs where all: "?all = ys @ x # zs" by (auto simp: prefix_def)
    have "sock \<notin> fst ` set ys" using wf by (auto simp: all x umap_wf_def)
    moreover have "umap_find ?all sock = Some p" using umap_find_iff[OF wf] by (simp add: all x)
    ultimately show "wp (heartbeat_one L (now w) x) (\<lambda>_. beaten L M K S w (ys @ [x])) w'"
      unfolding x by (rule wp_heartbeat_one[OF I])
  qed
  then show ?thesis by (simp add: heartbeat_round_def wp_simps GetAllSessions_def)
qed

text \<open>Left alone, the heartbeat thread leaves no connection idle: whatever faults occur, when it stops after at least one
  round, no logged-in user has been silent for more than 600 seconds at the time of its last round.\<close>

definition none_idle :: "world \<Rightarrow> bool" where
  "none_idle w \<longleftrightarrow> (\<forall>sock p. umap_find (cliSessionMap (smgr w)) sock = Some p \<longrightarrow> \<not> idle (now w) (deref (smgr w) p))"

lemma wp_round_none_idle:
  assumes "winv (mysql_of L) M K S w"
  shows "wp (heartbeat_round L) (\<lambda>_ w'. winv (mysql_of L) M K S w' \<and> none_idle w') w"
proof (rule wp_mono[OF wp_heartbeat_round[OF assms]])
  fix x w' assume B: "beaten L M K S w (cliSessionMap (smgr w)) w'"
  have wf: "umap_wf (cliSessionMap (smgr w))" using assms by (simp add: winv_def sessions_ok_def)
  have "\<not> idle (now w) (deref (smgr w') p)" if live: "umap_find (cliSessionMap (smgr w')) sock = Some p" for sock p
  proof -
    have "umap_find (cliSessionMap (smgr w')) sock = (if \<exists>p. (sock, p) \<in> set (cliSessionMap (smgr w)) \<and> idle (now w) (deref (smgr w) p)
        then None else umap_find (cliSessionMap (smgr w)) sock)"
      and "deref (smgr w') p = deref (smgr w) p"
      using B live unfolding beaten_def by blast+
    with live umap_find_iff[OF wf, of sock p] show ?thesis by (metis option.distinct(1))
  qed
  with B show "winv (mysql_of L) M K S w' \<and> none_idle w'" unfolding beaten_def none_idle_def by metis
qed

lemma wp_heartbeat_thread:
  assumes "winv (mysql_of L) M K S w" and "running (server w) \<and> ts \<noteq> [] \<or> none_idle w"
  shows "wp (HeartbeatCheckThread L ts) (\<lambda>_ w'. winv (mysql_of L) M K S w' \<and> none_idle w') w"
  using assms
proof (induction ts arbitrary: w)
  case (Cons t ts)
  have "winv (mysql_of L) M K S (w\<lparr>now := t\<rparr>)" using Cons.prems(1) by (simp add: winv_def)
  from wp_round_none_idle[OF this] Cons show ?case by (auto simp: wp_simps elim!: wp_mono)
qed (simp add: wp_simps)

section \<open>Accepting and stopping\<close>

lemma winv_server:
  "winv Q M K S w \<Longrightarrow> currentConnections sv = currentConnections (server w)
    \<Longrightarrow> maxConnections sv = maxConnections (server w) \<Longrightarrow> winv Q M K S (w\<lparr>server := sv\<rparr>)"
  by (simp add: winv_def)

lemma winv_accept:
  assumes inv: "winv Q M K S w" and new: "sock \<notin> S"
    and run: "run_state (accept_round (Accepted sock addr prt)) w = (r, w')"
  shows "winv Q M K (if r = Submit sock then insert sock S else S) w'
    \<and> (K \<le> currentConnections (server w) \<longrightarrow> smgr w' = smgr w \<and> r = Again)"
proof (cases "K \<le> currentConnections (server w)")
  case True
  have "maxConnections (server w) = K" using inv by (simp add: winv_def)
  with True inv run show ?thesis
    by (auto simp: accept_round_def raw_send_def close_socket_def)
next
  case False
  have wf: "umap_wf (cliSessionMap (smgr w))" and K: "maxConnections (server w) = K"
    and ok: "sessions_ok (smgr w)" using inv by (auto simp: winv_def sessions_ok_def)
  have none: "umap_find (cliSessionMap (smgr w)) sock = None"
    using inv new by (auto simp: winv_def umap_none_keys)
  let ?c = "ClientSession_new (now w) sock addr prt"
  let ?st = "AddSession sock (next_ptr (smgr w)) (snd (alloc ?c (smgr w)))"
  have "cliSessionMap ?st = umap_set sock (next_ptr (smgr w)) (cliSessionMap (smgr w))"
    by (simp add: AddSession_def Let_def)
  then have cli: "cliSessionMap ?st = (cliSessionMap (smgr w)) @ [(sock, next_ptr (smgr w))]"
    using umap_set_fresh[OF none] by simp
  have "r = Submit sock" and "w' = w\<lparr>smgr := ?st, server := (server w)\<lparr>currentConnections := currentConnections (server w) + 1\<rparr>\<rparr>"
    using run False K
    by (auto simp: accept_round_def new_session_def count_connections_def set_server_def case_prod_beta)
  with inv False K cli sessions_ok_AddSession[OF ok, of sock "now w" addr prt] show ?thesis
    by (auto simp: winv_def)
qed

text \<open>Stopping keeps every session; the clients' tasks remove them.\<close>

lemma wp_RemoveFriendCache:
  "(\<And>c. R () (w\<lparr>cachedFriendLists := c\<rparr>)) \<Longrightarrow> wp (RemoveFriendCache name) R w"
proof -
  assume R: "\<And>c. R () (w\<lparr>cachedFriendLists := c\<rparr>)"
  from R[of "cachedFriendLists w"] have "R () w" by simp
  with R show ?thesis by (auto simp: RemoveFriendCache_def wp_simps)
qed

text \<open>The state after the entries \<open>ys\<close> of the session table have been visited by \<open>Stop\<close>.\<close>

definition stopped :: "libs \<Rightarrow> world \<Rightarrow> (int \<times> nat) list \<Rightarrow> world \<Rightarrow> bool" where
  "stopped L w0 ys w \<longleftrightarrow> smgr w = smgr w0 \<and> server w = server w0
     \<and> events (network w) = events (network w0) @ map Shutdown (filter (\<lambda>s. s \<noteq> -1) (map fst ys))
     \<and> (calm w0 \<and> has_userManager (server w0) \<longrightarrow> calm w \<and>
         dbase w = fold (offline L) (filter (\<lambda>name. name \<noteq> []) (map (\<lambda>(_, p). username (deref (smgr w0) p)) ys)) (dbase w0))"

lemma wp_stop_session:
  assumes ok: "sessions_ok (smgr w0)" and I: "stopped L w0 ys w"
    and live: "umap_find (cliSessionMap (smgr w0)) sock = Some p"
  shows "wp (stop_session L (sock, p)) (\<lambda>_. stopped L w0 (ys @ [(sock, p)])) w"
proof -
  let ?name = "username (deref (smgr w0) p)"
  define J where "J = (\<lambda>w1. smgr w1 = smgr w0 \<and> server w1 = server w0 \<and> network w1 = network w
    \<and> (calm w0 \<and> has_userManager (server w0) \<longrightarrow> calm w1 \<and>
        dbase w1 = (if ?name = [] then dbase w else offline L ?name (dbase w))))"
  have same: "smgr w = smgr w0" "server w = server w0" using I by (simp_all add: stopped_def)
  have t: "touch p (smgr w0) = smgr w0" by (rule sessions_ok_touch[OF ok live])
  have s: "socket (deref (smgr w0) p) = sock" using sessions_okD[OF ok live] by auto
  have J0: "J w" if "\<not> (?name \<noteq> [] \<and> has_userManager (server w0))"
    using I that by (auto simp: J_def stopped_def)
  have J1: "wp (UpdateUserOnlineStatus L ?name False) (\<lambda>_. J) w" if "?name \<noteq> []"
    using wp_status[of L ?name False w] I that
    by (auto simp: J_def stopped_def sql_offline elim!: wp_mono)
  have J2: "wp (RemoveFriendCache ?name) (\<lambda>_. J) w1" if "J w1" for w1
    using that by (intro wp_RemoveFriendCache) (simp add: J_def)
  have J3: "wp (do { s \<leftarrow> session_get p GetSocket; guarded (s \<noteq> -1) (shutdown_socket s) })
      (\<lambda>_. stopped L w0 (ys @ [(sock, p)])) w1" if "J w1" for w1
    using that I by (auto simp: J_def stopped_def wp_simps t s sys_shutdown_def calm_def)
  have J4: "wp (guarded (?name \<noteq> [] \<and> has_userManager (server w0)) (do {
       _ \<leftarrow> UpdateUserOnlineStatus L ?name False;
       friendMgr \<leftarrow> gets (\<lambda>w. has_friendManager (server w));
       guarded friendMgr (RemoveFriendCache ?name) })) (\<lambda>_. J) w"
    using J0 wp_mono[OF J1] J2 by (auto simp: wp_simps)
  have "wp (session_get p GetUsername) (\<lambda>name w1. name = ?name \<and> w1 = w) w"
    by (simp add: wp_simps same t)
  with wp_mono[OF J4 J3] show ?thesis
    unfolding stop_session_def prod.case wp_bind
    by (auto simp: same wp_gets elim!: wp_mono)
qed


lemma wp_Stop_sessions:
  assumes "sessions_ok (smgr w)"
  shows "wp (foreach (cliSessionMap (smgr w)) (stop_session L)) (\<lambda>_. stopped L w (cliSessionMap (smgr w))) w"
proof (rule wp_foreach_prefix[of "stopped L w"])
  show "stopped L w [] w" by (simp add: stopped_def)
next
  fix ys x w'
  assume pre: "prefix (ys @ [x]) (cliSessionMap (smgr w))" and I: "stopped L w ys w'"
  obtain sock p where x: "x = (sock, p)" by fastforce
  from pre have "x \<in> set (cliSessionMap (smgr w))" by (auto simp: prefix_def)
  moreover have "umap_wf (cliSessionMap (smgr w))" using assms by (simp add: sessions_ok_def)
  ultimately have "umap_find (cliSessionMap (smgr w)) sock = Some p" by (simp add: x umap_find_iff)
  then show "wp (stop_session L x) (\<lambda>_. stopped L w (ys @ [x])) w'"
    unfolding x by (rule wp_stop_session[OF assms I])
qed

lemma stop_world:
  assumes ok: "sessions_ok (smgr w)" and sm: "has_sessionManager (server w)"
    and run: "run_state (Stop L) w = ((), w')"
  shows "smgr w' = smgr w" "\<not> running (server w')" "serverSocket (server w') = -1"
    "server w' = (server w)\<lparr>running := False, serverSocket := -1\<rparr>"
    "events (network w') = events (network w)
       @ map Shutdown (filter (\<lambda>s. s \<noteq> -1) (map fst (cliSessionMap (smgr w))))
       @ (if serverSocket (server w) = -1 then [] else [Shutdown (serverSocket (server w)), Closed (serverSocket (server w))])"
    "calm w \<and> has_userManager (server w) \<Longrightarrow> dbase w' = fold (offline L)
       (filter (\<lambda>name. name \<noteq> []) (map (\<lambda>(_, p). username (deref (smgr w) p)) (cliSessionMap (smgr w)))) (dbase w)"
proof -
  let ?w0 = "w\<lparr>server := (server w)\<lparr>running := False\<rparr>\<rparr>"
  let ?w1 = "snd (run_state (foreach (cliSessionMap (smgr w)) (stop_session L)) ?w0)"
  have S: "stopped L ?w0 (cliSessionMap (smgr w)) ?w1"
    using wp_Stop_sessions[of ?w0 L] ok by (simp add: wp_def)
  have w': "w' = (if serverSocket (server w) = -1 then ?w1
     else ?w1\<lparr>network := sys_close (serverSocket (server w)) (sys_shutdown (serverSocket (server w)) (network ?w1)),
              server := (server ?w1)\<lparr>serverSocket := -1\<rparr>\<rparr>)"
    using run sm S by (auto simp: Stop_def set_server_def GetAllSessions_def shutdown_socket_def close_socket_def
        case_prod_beta stopped_def split: if_splits)
  have same: "(server w)\<lparr>running := False\<rparr> = (server w)\<lparr>running := False, serverSocket := -1\<rparr>"
    if "serverSocket (server w) = -1"
    using that by (cases "server w") simp
  show "smgr w' = smgr w" "\<not> running (server w')" "serverSocket (server w') = -1"
    using S by (auto simp: w' stopped_def)
  show "server w' = (server w)\<lparr>running := False, serverSocket := -1\<rparr>"
    using S same by (auto simp: w' stopped_def)
  show "events (network w') = events (network w)
       @ map Shutdown (filter (\<lambda>s. s \<noteq> -1) (map fst (cliSessionMap (smgr w))))
       @ (if serverSocket (server w) = -1 then [] else [Shutdown (serverSocket (server w)), Closed (serverSocket (server w))])"
    using S by (simp add: w' stopped_def sys_close_def sys_shutdown_def)
  show "dbase w' = fold (offline L)
       (filter (\<lambda>name. name \<noteq> []) (map (\<lambda>(_, p). username (deref (smgr w) p)) (cliSessionMap (smgr w)))) (dbase w)"
    if "calm w \<and> has_userManager (server w)"
    using S that by (simp add: w' stopped_def)
qed

lemma Stop_keeps:
  assumes "handler_inv (mysql_of L) I UNIV"
    and "\<And>w f. I (w\<lparr>server := f\<rparr>) = I w" and "\<And>w f. I (w\<lparr>network := f\<rparr>) = I w"
  shows "keeps I (Stop L)"
  unfolding Stop_def set_server_def close_socket_def shutdown_socket_def
  by (intro keeps_bind keeps_intros handler_inv.keeps_stop_session[OF assms(1)] keepsI) (simp_all add: assms)

lemma winv_Stop:
  assumes inv: "winv (mysql_of L) M K S w" and run: "run_state (Stop L) w = ((), w')"
  shows "winv (mysql_of L) M K S w'"
proof -
  have "smgr w' = smgr w \<and> currentConnections (server w') = currentConnections (server w)
      \<and> maxConnections (server w') = maxConnections (server w)"
  proof (cases "has_sessionManager (server w)")
    case True
    from stop_world[OF winv_sessions[OF inv] True run] show ?thesis by simp
  next
    case False
    with run show ?thesis
      by (auto simp: Stop_def set_server_def close_socket_def split: if_splits)
  qed
  moreover have "w' = snd (run_state (Stop L) w)" using run by simp
  moreover have "keeps (\<lambda>w. db_ok (mysql_of L) (dbase w)) (Stop L)"
    by (rule Stop_keeps[OF schema.handler_inv_axioms]) simp_all
  moreover have "keeps (\<lambda>w. mset (connectionPool (dbm w)) = M) (Stop L)"
    by (rule Stop_keeps[OF pool.handler_inv_axioms]) simp_all
  ultimately show ?thesis
    using inv by (auto simp: winv_def dest: keepsD)
qed

end
