(* ===== verification/Server_System.thy ===== *)
theory Server_System
  imports Server
begin

text \<open>
  The server as a transition system: the threads of \<^verbatim>\<open>src/src/connection/server.cpp\<close> interleaved at the
  level of their rounds, the invariant of the reachable states, and the properties of the life of a
  connection (admission, service, disconnection, heartbeat timeout, shutdown).
\<close>

section \<open>The running server\<close>

text \<open>
  The world together with the sockets that a \<open>HandleClient\<close> task owns, queued or running.  The steps
  are the critical activities of the threads, each taken as a whole: a connection is accepted, a
  client's next request is served or its handler ends, the heartbeat thread makes a round, the
  monitor collects its report, time passes and bytes arrive, and the server is stopped.  The kernel
  gives \<open>accept\<close> a descriptor that is not open.
\<close>

record system =
  host :: world
  serving :: "int list"

inductive sys_step :: "libs \<Rightarrow> system \<Rightarrow> system \<Rightarrow> bool" for L where
  accept: "running (server (host s)) \<Longrightarrow> sock \<notin> set (serving s)
     \<Longrightarrow> run_state (accept_round (Accepted sock addr prt)) (host s) = (r, w)
     \<Longrightarrow> sys_step L s (s\<lparr>host := w, serving := (if r = Submit sock then sock # serving s else serving s)\<rparr>)"
| serve: "sock \<in> set (serving s) \<Longrightarrow> run_state (client_round L junk sock) (host s) = (Served, w)
     \<Longrightarrow> sys_step L s (s\<lparr>host := w\<rparr>)"
| finish: "sock \<in> set (serving s) \<Longrightarrow> run_state (client_round L junk sock) (host s) = (Ended, w)
     \<Longrightarrow> run_state (finish_client L sock) w = ((), w')
     \<Longrightarrow> sys_step L s (s\<lparr>host := w', serving := remove1 sock (serving s)\<rparr>)"
| fail: "sock \<in> set (serving s) \<Longrightarrow> run_state (client_round L junk sock) (host s) = (Threw, w)
     \<Longrightarrow> run_state (fail_client L sock) w = ((), w')
     \<Longrightarrow> sys_step L s (s\<lparr>host := w', serving := remove1 sock (serving s)\<rparr>)"
| heartbeat: "run_state (heartbeat_round L) (host s) = ((), w) \<Longrightarrow> sys_step L s (s\<lparr>host := w\<rparr>)"
| monitor: "run_state (CollectStatus L usage) (host s) = (report, w) \<Longrightarrow> sys_step L s (s\<lparr>host := w\<rparr>)"
| environment: "now (host s) \<le> t
     \<Longrightarrow> sys_step L s (s\<lparr>host := (host s)\<lparr>now := t, inbox := ib\<rparr>\<rparr>)"
| stop: "run_state (Stop L) (host s) = ((), w) \<Longrightarrow> sys_step L s (s\<lparr>host := w\<rparr>)"

inductive sys_reachable :: "libs \<Rightarrow> world \<Rightarrow> system \<Rightarrow> bool" for L w0 where
  sys_start: "run_state (Start env) w0 = (True, w) \<Longrightarrow> sys_reachable L w0 \<lparr>host = w, serving = []\<rparr>"
| sys_next: "sys_reachable L w0 s \<Longrightarrow> sys_step L s s' \<Longrightarrow> sys_reachable L w0 s'"

inductive_cases sys_stepE: "sys_step L s s'"

section \<open>The invariant of the reachable states\<close>

lemma winv_Start:
  assumes run: "run_state (Start env) w0 = (True, w)" and db: "db_ok Q (dbase w0)"
    and zero: "currentConnections (server w0) = 0" and limit: "0 \<le> maxConnections (server w0)"
  shows "winv Q (mset (connectionPool (dbm w0))) (maxConnections (server w0)) {} w"
  using assms sessions_ok_new
  by (auto simp: Start_def create_managers_def set_server_def winv_def SessionManager_new_def close_socket_def
      split: if_splits)

lemma winv_monitor:
  assumes "winv Q M K S w" and "run_state (CollectStatus L usage) w = (report, w')"
  shows "winv Q M K S w' \<and> server w' = server w"
  using assms collect_keeps_pool[of L usage w] collect_world[of L usage w] by (simp add: winv_def)

text \<open>The serving tasks own their sockets, and every session has its task.\<close>

definition sinv :: "mysql \<Rightarrow> nat multiset \<Rightarrow> int \<Rightarrow> system \<Rightarrow> bool" where
  "sinv Q M K s \<longleftrightarrow> winv Q M K (set (serving s)) (host s) \<and> distinct (serving s)"

lemma winv_run:
  assumes "winv (mysql_of L) M K S w"
  shows "run_state (heartbeat_round L) w = ((), w') \<Longrightarrow> winv (mysql_of L) M K S w'"
  using wp_run[OF wp_heartbeat_round[OF assms], of "()" w'] by (simp add: beaten_def)

lemma sinv_step:
  assumes inv: "sinv (mysql_of L) M K s" and step: "sys_step L s s'"
  shows "sinv (mysql_of L) M K s'"
  using step
proof cases
  case (accept sock addr prt r w)
  with winv_accept[of "mysql_of L" M K "set (serving s)" "host s" sock addr prt r w] inv
  show ?thesis by (auto simp: sinv_def)
next
  case (serve sock junk w)
  with winv_client_round[of L M K "set (serving s)" "host s" junk sock] inv
  show ?thesis by (simp add: sinv_def)
next
  case (finish sock junk w w')
  with winv_client_round[of L M K "set (serving s)" "host s" junk sock]
    winv_finish[of L M K "set (serving s)" w sock w'] inv
  show ?thesis by (simp add: sinv_def set_remove1_eq)
next
  case (fail sock junk w w')
  with winv_client_round[of L M K "set (serving s)" "host s" junk sock]
    winv_fail[of L M K "set (serving s)" w sock w'] inv
  show ?thesis by (simp add: sinv_def set_remove1_eq)
next
  case (heartbeat w)
  with winv_run inv show ?thesis by (auto simp: sinv_def)
next
  case (monitor usage report w)
  with winv_monitor inv show ?thesis by (fastforce simp: sinv_def)
next
  case (environment t ib)
  with inv show ?thesis by (simp add: sinv_def)
next
  case (stop w)
  with winv_Stop inv show ?thesis by (auto simp: sinv_def)
qed

lemma sinv_reachable:
  assumes "sys_reachable L w0 s" and "db_ok (mysql_of L) (dbase w0)"
    and "currentConnections (server w0) = 0" and "0 \<le> maxConnections (server w0)"
  shows "sinv (mysql_of L) (mset (connectionPool (dbm w0))) (maxConnections (server w0)) s"
  using assms
proof induction
  case (sys_start env w)
  then show ?case using winv_Start[of env w0 w] by (simp add: sinv_def)
next
  case (sys_next s s')
  then show ?case using sinv_step by blast
qed


section \<open>Disconnecting\<close>

lemma finish_world:
  assumes ok: "sessions_ok (smgr w)" and live: "umap_find (cliSessionMap (smgr w)) sock = Some p"
    and name: "username (deref (smgr w) p) = name" "name \<noteq> []"
    and run: "run_state (finish_client L sock) w = ((), w')"
  shows "\<exists>w1. departed L name w w1 \<and> smgr w' = RemoveSession sock (smgr w) \<and> dbase w' = dbase w1
    \<and> cachedFriendLists w' = cachedFriendLists w1 \<and> events (network w') = events (network w1) @ [Closed sock]
    \<and> currentConnections (server w') = currentConnections (server w) - 1"
proof -
  define w1 where "w1 = snd (run_state (announce_offline L name) w)"
  have d: "departed L name w w1" using wp_departed[OF ok, of L name] by (simp add: wp_def w1_def)
  have "w' = (snd (run_state (forget_session sock) w1))\<lparr>network := sys_close sock (network (snd (run_state (forget_session sock) w1)))\<rparr>"
    using run live name run_session_get_live[OF ok live, of GetUsername]
    by (auto simp: finish_client_def GetSession_def close_socket_def w1_def case_prod_beta simp del: run_session_get)
  with d have "departed L name w w1 \<and> smgr w' = RemoveSession sock (smgr w) \<and> dbase w' = dbase w1
    \<and> cachedFriendLists w' = cachedFriendLists w1 \<and> events (network w') = events (network w1) @ [Closed sock]
    \<and> currentConnections (server w') = currentConnections (server w) - 1"
    by (simp add: forget_world sys_close_def departed_def)
  then show ?thesis by blast
qed

section \<open>Serving to the end\<close>

lemma client_loop_winv:
  assumes "winv (mysql_of L) M K S w" and "client_loop L junk sock w = (r, w')"
  shows "winv (mysql_of L) M K S w' \<and> r \<noteq> Served"
  using assms
proof (induction L junk sock w arbitrary: r w' rule: client_loop.induct)
  case (1 L junk sock w)
  obtain r1 w1 where step: "run_state (client_round L junk sock) w = (r1, w1)" by fastforce
  have inv1: "winv (mysql_of L) M K S w1" by (rule winv_client_round[OF "1.prems"(1) step])
  show ?case
  proof (cases r1)
    case Served
    with step "1.prems"(2) have "client_loop L junk sock w1 = (r, w')"
      by (simp add: client_loop.simps[of L junk sock w])
    with "1.IH"[OF step[symmetric] Served] inv1 Served show ?thesis by simp
  qed (use step inv1 "1.prems"(2) in \<open>auto simp: client_loop.simps[of L junk sock w]\<close>)
qed

lemma finish_closes:
  "run_state (finish_client L sock) w = ((), w') \<Longrightarrow> Closed sock \<in> set (events (network w'))"
  by (auto simp: finish_client_def close_socket_def sys_close_def case_prod_beta split: option.splits if_splits)

lemma fail_closes:
  assumes run: "run_state (fail_client L sock) w = ((), w')"
  shows "Closed sock \<in> set (events (network w'))"
proof -
  have status: "network (snd (run_state (UpdateUserOnlineStatus L name False) w1)) = network w1" for name w1
    using wp_status[of L name False w1] by (simp add: wp_def)
  have forget: "run_state (forget_session sock) w1 = ((), w2) \<Longrightarrow> network w2 = network w1" for w1 w2
    using forget_world(3)[of sock w1] by simp
  show ?thesis
    using run by (auto simp: fail_client_def HandleClientException_def close_socket_def case_prod_beta
        guarded_def status sys_close_def split: option.splits if_splits dest!: forget)
qed

lemma demo_winv: "winv (mysql_of demo_libs) {#0#} 128 {4, 5, 6} demo_world"
  using demo_db_ok demo_sessions_ok
  by (simp add: winv_def) (simp add: demo_world_def demo_sessions_def demo_server_def)

section \<open>Properties\<close>



text \<open>C20: At the limit a new connection gets the busy answer and is closed, and nothing else changes; below the
  limit it gets a fresh session without a user, is counted, and its task is submitted.\<close>

theorem accept_admission:
  assumes "run_state (accept_round (Accepted sock addr prt)) w = (r, w')"
  shows "if maxConnections (server w) \<le> currentConnections (server w)
     then r = Again \<and> (\<exists>ns. w' = w\<lparr>network := ns\<rparr> \<and> (send_script (network w) = []
        \<longrightarrow> events ns = events (network w) @ [Sent sock (PackageMessage busy_text), Closed sock]))
     else r = Submit sock \<and> network w' = network w \<and> dbase w' = dbase w
        \<and> currentConnections (server w') = currentConnections (server w) + 1
        \<and> session_user (smgr w') sock = []
        \<and> (\<exists>p. GetSession sock (smgr w') = Some p \<and> lastHeartbeat (deref (smgr w') p) = now w \<and> isConnected (deref (smgr w') p))"
proof (cases "maxConnections (server w) \<le> currentConnections (server w)")
  case True
  with assms show ?thesis
    by (auto simp: accept_round_def raw_send_def close_socket_def sys_close_def sys_send_def busy_text_def
        split: list.splits)
next
  case False
  then have "w' = w\<lparr>smgr := AddSession sock (next_ptr (smgr w)) (snd (alloc (ClientSession_new (now w) sock addr prt) (smgr w))),
      server := (server w)\<lparr>currentConnections := currentConnections (server w) + 1\<rparr>\<rparr> \<and> r = Submit sock"
    using assms by (auto simp: accept_round_def new_session_def count_connections_def set_server_def case_prod_beta)
  with False show ?thesis
    by (auto simp: AddSession_def Let_def touch_def deref_def ClientSession_new_def session_user_def GetSession_def um_simps)
qed

theorem accept_admission_witness:
  "GetSession 9 (smgr (snd (run_state (accept_round (Accepted 9 ''10.0.0.9'' 40000)) demo_world))) \<noteq> None"
proof -
  let ?run = "run_state (accept_round (Accepted 9 ''10.0.0.9'' 40000)) demo_world"
  have "?run = (fst ?run, snd ?run)" by simp
  from accept_admission[OF this] show ?thesis by (auto simp: demo_server_def)
qed

text \<open>C17: Serving a client ends, for every byte stream it sends and under every fault; afterwards its socket has been
  closed and has no session, and the connection counter is again the number of sessions.\<close>

theorem handle_client_cleans_up:
  assumes "run_state (HandleClient L junk sock) w = ((), w')" and "winv (mysql_of L) M K S w"
  shows "GetSession sock (smgr w') = None \<and> Closed sock \<in> set (events (network w'))
    \<and> currentConnections (server w') = int (length (cliSessionMap (smgr w')))
    \<and> winv (mysql_of L) M K (S - {sock}) w'"
proof -
  obtain r w1 where loop: "client_loop L junk sock w = (r, w1)" by fastforce
  note inv1 = client_loop_winv[OF assms(2) loop]
  have w': "run_state (if r = Threw then fail_client L sock else finish_client L sock) w1 = ((), w')"
    using assms(1) inv1 by (cases r) (simp_all add: HandleClient_def loop)
  have "winv (mysql_of L) M K (S - {sock}) w'"
    using w' inv1 winv_fail winv_finish by (auto split: if_splits)
  moreover have "Closed sock \<in> set (events (network w'))"
    using w' finish_closes fail_closes by (auto split: if_splits)
  ultimately show ?thesis by (auto simp: winv_def GetSession_def umap_none_keys)
qed

theorem handle_client_cleans_up_witness:
  "GetSession 4 (smgr (snd (run_state (HandleClient demo_libs ([], 0) 4) demo_world))) = None
   \<and> Closed 4 \<in> set (events (network (snd (run_state (HandleClient demo_libs ([], 0) 4) demo_world))))"
proof -
  let ?run = "run_state (HandleClient demo_libs ([], 0) 4) demo_world"
  have "?run = ((), snd ?run)" by (rule prod_eqI) simp_all
  from handle_client_cleans_up[OF this demo_winv] show ?thesis by simp
qed

text \<open>When the connection of a logged-in user ends, the session is gone and the socket closed, the user's row (and
  no other data) is set offline unless the database failed, the user's cached friend list is dropped, and in between
  only online friends are told.\<close>

lemma disconnect_effect:
  assumes "run_state (finish_client L sock) w = ((), w')" and "sessions_ok (smgr w)"
    and "umap_find (cliSessionMap (smgr w)) sock = Some p" and "username (deref (smgr w) p) = name" and "name \<noteq> []"
  shows "smgr w' = RemoveSession sock (smgr w)
    \<and> (dbase w' = offline L name (dbase w) \<or> \<not> calm w \<and> dbase w' = dbase w)
    \<and> (has_friendManager (server w) \<longrightarrow> umap_find (cachedFriendLists w') name = None)
    \<and> currentConnections (server w') = currentConnections (server w) - 1
    \<and> (\<exists>evs. events (network w') = events (network w) @ evs @ [Closed sock]
         \<and> (\<forall>e\<in>set evs. notice_target L name (dbase w') (smgr w) e))"
  using finish_world[OF assms(2-5,1)] by (auto simp: departed_def)

lemma disconnect_effect_witness:
  "dbase (snd (run_state (finish_client demo_libs 4) demo_world)) = offline demo_libs ''alice'' demo_db
   \<and> \<not> u_online (hd (users (dbase (snd (run_state (finish_client demo_libs 4) demo_world)))))"
proof -
  let ?run = "run_state (finish_client demo_libs 4) demo_world"
  have run: "?run = ((), snd ?run)" by (rule prod_eqI) simp_all
  have live: "umap_find (cliSessionMap (smgr demo_world)) 4 = Some 0"
    "username (deref (smgr demo_world) 0) = ''alice''"
    by (simp_all add: demo_sessions_def demo_session_def umap_find_def deref_def)
  have "dbase (snd ?run) = offline demo_libs ''alice'' demo_db"
    using disconnect_effect[OF run demo_sessions_ok live] demo_calm by simp
  then show ?thesis by (simp add: offline_def map_users_def lower_char_def)
qed

text \<open>C18: A round of the heartbeat check removes exactly the sessions of logged-in users that have been silent for more
  than 600 seconds and shuts their sockets down; the others keep their session object, and, without database faults,
  exactly the users of the removed sessions are set offline.\<close>

theorem heartbeat_removes_idle:
  assumes "run_state (heartbeat_round L) w = ((), w')" and "winv (mysql_of L) M K S w"
  shows "(\<forall>sock p. umap_find (cliSessionMap (smgr w)) sock = Some p \<longrightarrow>
       (if idle (now w) (deref (smgr w) p)
        then GetSession sock (smgr w') = None \<and> Shutdown sock \<in> set (events (network w'))
        else GetSession sock (smgr w') = Some p \<and> deref (smgr w') p = deref (smgr w) p))
    \<and> currentConnections (server w') = int (length (cliSessionMap (smgr w')))
    \<and> (calm w \<longrightarrow> dbase w' = fold (offline L) (idle_names w (cliSessionMap (smgr w))) (dbase w))"
proof -
  have wf: "umap_wf (cliSessionMap (smgr w))" using assms(2) by (simp add: winv_def sessions_ok_def)
  have "beaten L M K S w (cliSessionMap (smgr w)) w'"
    by (rule wp_run[OF wp_heartbeat_round[OF assms(2)] assms(1)])
  note B = this[unfolded beaten_def]
  have "if idle (now w) (deref (smgr w) p)
      then GetSession sock (smgr w') = None \<and> Shutdown sock \<in> set (events (network w'))
      else GetSession sock (smgr w') = Some p \<and> deref (smgr w') p = deref (smgr w) p"
    if live: "umap_find (cliSessionMap (smgr w)) sock = Some p" for sock p
  proof -
    have "(sock, q) \<in> set (cliSessionMap (smgr w)) \<longleftrightarrow> q = p" for q
      using live umap_find_iff[OF wf, of sock] by (metis option.inject)
    with B live have "umap_find (cliSessionMap (smgr w')) sock = (if idle (now w) (deref (smgr w) p) then None else Some p)"
      and "idle (now w) (deref (smgr w) p) \<Longrightarrow> Shutdown sock \<in> set (events (network w'))" by simp_all
    moreover from B have "umap_find (cliSessionMap (smgr w')) sock = Some p \<Longrightarrow> deref (smgr w') p = deref (smgr w) p"
      by blast
    ultimately show ?thesis by (simp add: GetSession_def)
  qed
  with B show ?thesis by (simp add: winv_def)
qed

theorem heartbeat_removes_idle_witness:
  "let w' = snd (run_state (heartbeat_round demo_libs) (demo_world\<lparr>now := 601\<rparr>))
   in GetSession 4 (smgr w') = None \<and> Shutdown 5 \<in> set (events (network w')) \<and> GetSession 6 (smgr w') = Some 2
      \<and> dbase w' = offline demo_libs ''bob'' (offline demo_libs ''alice'' demo_db)"
proof -
  let ?w = "demo_world\<lparr>now := 601\<rparr>"
  let ?run = "run_state (heartbeat_round demo_libs) ?w"
  have run: "?run = ((), snd ?run)" by (rule prod_eqI) simp_all
  have inv: "winv (mysql_of demo_libs) {#0#} 128 {4, 5, 6} ?w" using demo_winv by simp
  have calm: "calm ?w" using demo_calm by (simp add: calm_def)
  have find: "umap_find (cliSessionMap (smgr ?w)) 4 = Some 0" "umap_find (cliSessionMap (smgr ?w)) 5 = Some 1"
    "umap_find (cliSessionMap (smgr ?w)) 6 = Some 2"
    by (simp_all add: demo_sessions_def umap_find_def)
  have idle: "idle 601 (deref demo_sessions 0)" "idle 601 (deref demo_sessions 1)" "\<not> idle 601 (deref demo_sessions 2)"
    "idle_names ?w (cliSessionMap (smgr ?w)) = [''alice'', ''bob'']"
    by (simp_all add: demo_sessions_def demo_session_def deref_def idle_def ClientSession_new_def SetUsername_def
        idle_names_def)
  note all = heartbeat_removes_idle[OF run inv]
  from all[THEN conjunct1, rule_format, OF find(1)] all[THEN conjunct1, rule_format, OF find(2)]
    all[THEN conjunct1, rule_format, OF find(3)] all[THEN conjunct2, THEN conjunct2] idle calm
  show ?thesis by (simp add: Let_def)
qed

text \<open>Stopping shuts down every connection and the listening socket in this order, closes the latter, keeps the
  sessions for their tasks to remove, and, without database faults, sets every logged-in user offline.\<close>

lemma stop_shuts_down:
  assumes "run_state (Stop L) w = ((), w')" and "sessions_ok (smgr w)" and "has_sessionManager (server w)"
  shows "server w' = (server w)\<lparr>running := False, serverSocket := -1\<rparr> \<and> smgr w' = smgr w
    \<and> events (network w') = events (network w)
       @ map Shutdown (filter (\<lambda>s. s \<noteq> -1) (map fst (cliSessionMap (smgr w))))
       @ (if serverSocket (server w) = -1 then []
          else [Shutdown (serverSocket (server w)), Closed (serverSocket (server w))])
    \<and> (calm w \<and> has_userManager (server w) \<longrightarrow> dbase w' = fold (offline L)
         (filter (\<lambda>name. name \<noteq> []) (map (\<lambda>(_, p). username (deref (smgr w) p)) (cliSessionMap (smgr w)))) (dbase w))"
  using stop_world[OF assms(2,3,1)] by simp


lemma stop_shuts_down_witness:
  "events (network (snd (run_state (Stop demo_libs) demo_world)))
     = [Shutdown 4, Shutdown 5, Shutdown 6, Shutdown 3, Closed 3]
   \<and> map u_online (users (dbase (snd (run_state (Stop demo_libs) demo_world)))) = [False, False, False]"
proof -
  let ?run = "run_state (Stop demo_libs) demo_world"
  have run: "?run = ((), snd ?run)" by (rule prod_eqI) simp_all
  have sm: "has_sessionManager (server demo_world)" "has_userManager (server demo_world)"
    by (simp_all add: demo_server_def)
  have names: "filter (\<lambda>name. name \<noteq> []) (map (\<lambda>(_, p). username (deref (smgr demo_world) p))
      (cliSessionMap (smgr demo_world))) = [''alice'', ''bob'']"
    by (simp add: demo_sessions_def demo_session_def deref_def ClientSession_new_def)
  note all = stop_shuts_down[OF run demo_sessions_ok sm(1)]
  from all have "events (network (snd ?run)) = [Shutdown 4, Shutdown 5, Shutdown 6, Shutdown 3, Closed 3]"
    by (simp add: demo_sessions_def demo_server_def)
  moreover from all have "dbase (snd ?run) = fold (offline demo_libs) [''alice'', ''bob''] demo_db"
    unfolding names using demo_calm sm by simp
  then have "map u_online (users (dbase (snd ?run))) = [False, False, False]"
    by (simp add: offline_def map_users_def lower_char_def)
  ultimately show ?thesis by simp
qed

text \<open>When \<open>Start\<close> fails after the socket was created, it closes the socket but keeps its number, so the \<open>Stop\<close> of the
  destructor shuts down and closes the same number again, which may belong to something else by then.\<close>

lemma failed_start_closes_twice:
  assumes "run_state (Start env) w = (False, w1)" and "has_dbManager (server w)" and "socket_result env \<noteq> -1"
    and "run_state (Stop L) w1 = ((), w2)"
  shows "events (network w2) = events (network w)
    @ [Closed (socket_result env), Shutdown (socket_result env), Closed (socket_result env)]"
proof -
  have w1: "smgr w1 = SessionManager_new" "has_sessionManager (server w1)" "serverSocket (server w1) = socket_result env"
    "events (network w1) = events (network w) @ [Closed (socket_result env)]"
    using assms(1-3) by (auto simp: Start_def create_managers_def set_server_def close_socket_def sys_close_def split: if_splits)
  have "sessions_ok (smgr w1)" using w1(1) sessions_ok_new by simp
  from stop_world[OF this w1(2) assms(4)] w1 assms(3) show ?thesis by (simp add: SessionManager_new_def)
qed

end
