(* ===== verification/Chat_Service.thy ===== *)
theory Chat_Service
  imports Dispatch
begin

text \<open>
  What the server promises its clients, without the program: accounts, the relation ``has added'', the
  letters that were sent, and who is connected under which name.  There is no pool, no statement, no
  pointer, no cache and no socket traffic here, and the people are a map from the collation key of
  the name.  Every request is one function that returns the answer code and the new state;
  \<open>serve_request\<close> is their union.  The theory \<open>Chat_Refinement\<close> shows that the dispatcher of
  \<^verbatim>\<open>src/src/connection/server.cpp\<close> implements it.
\<close>

section \<open>The state\<close>

record person =
  p_id :: int
  p_name :: string
  p_hash :: string
  p_online :: bool

record letter =
  l_from :: int
  l_to :: int
  l_text :: string
  l_read :: bool

record service =
  people :: "string \<Rightarrow> person option"
  next_id :: int
  added :: "(int \<times> int) set"
  letters :: "letter list"
  connected :: "int \<Rightarrow> string option"
  routes :: "string \<Rightarrow> int option"

section \<open>The operations\<close>

definition find_person :: "libs \<Rightarrow> string \<Rightarrow> service \<Rightarrow> person option" where
  "find_person L n s = people s (collation_key (mysql_of L) n)"

definition put_person :: "libs \<Rightarrow> person \<Rightarrow> service \<Rightarrow> service" where
  "put_person L p s = s\<lparr>people := (people s)(collation_key (mysql_of L) (p_name p) \<mapsto> p)\<rparr>"

definition drop_person :: "libs \<Rightarrow> person \<Rightarrow> service \<Rightarrow> service" where
  "drop_person L p s = s\<lparr>people := (people s)(collation_key (mysql_of L) (p_name p) := None)\<rparr>"

definition read_letters :: "(letter \<Rightarrow> bool) \<Rightarrow> service \<Rightarrow> service" where
  "read_letters P s = s\<lparr>letters := map (\<lambda>l. if P l then l\<lparr>l_read := True\<rparr> else l) (letters s)\<rparr>"

definition serve_register :: "libs \<Rightarrow> Request \<Rightarrow> service \<Rightarrow> int \<times> service" where
  "serve_register L rq s =
     (if \<not> ValidateUsername (rusername rq) \<or> \<not> ValidatePassword (rpassword rq) then (2001, s)
      else if find_person L (rusername rq) s \<noteq> None then (2002, s)
      else (0, put_person L \<lparr>p_id = next_id s, p_name = rusername rq, p_hash = MD5Encrypt L (rpassword rq),
                             p_online = False\<rparr> (s\<lparr>next_id := next_id s + 1\<rparr>)))"

text \<open>An earlier session under the name loses it; the new connection gets it.\<close>

definition end_session :: "string \<Rightarrow> service \<Rightarrow> service" where
  "end_session n s = (case routes s n of
     None \<Rightarrow> s | Some old \<Rightarrow> s\<lparr>connected := (connected s)(old \<mapsto> [])\<rparr>)"

definition begin_session :: "int \<Rightarrow> string \<Rightarrow> service \<Rightarrow> service" where
  "begin_session sock n s = (case connected s sock of
     None \<Rightarrow> s
   | Some _ \<Rightarrow> s\<lparr>connected := (connected s)(sock \<mapsto> n), routes := (routes s)(n \<mapsto> sock)\<rparr>)"

definition admit :: "libs \<Rightarrow> Request \<Rightarrow> service \<Rightarrow> int \<times> service" where
  "admit L rq s =
     (if \<not> ValidateUsername (rusername rq) then (2001, s)
      else case find_person L (rusername rq) s of
        None \<Rightarrow> (2003, s)
      | Some p \<Rightarrow>
          if p_hash p \<noteq> MD5Encrypt L (rpassword rq) then (2004, s)
          else (0, begin_session (clientSocket rq) (rusername rq)
                     ((if p_online p then end_session (rusername rq) else id)
                       (put_person L (p\<lparr>p_online := True\<rparr>) s))))"

text \<open>
  After a login the waiting letters are handed over: if the name as typed has a connection, and the
  name as registered has one too.
\<close>

definition hand_over :: "libs \<Rightarrow> string \<Rightarrow> service \<Rightarrow> service" where
  "hand_over L n s = (case find_person L n s of
     None \<Rightarrow> s
   | Some p \<Rightarrow> if routes s n \<noteq> None \<and> routes s (p_name p) \<noteq> None
              then read_letters (\<lambda>l. l_to l = p_id p) s else s)"

definition serve_login :: "libs \<Rightarrow> Request \<Rightarrow> service \<Rightarrow> int \<times> service" where
  "serve_login L rq s = (case admit L rq s of (c, s') \<Rightarrow>
     (c, if c = 0 then hand_over L (rusername rq) s' else s'))"

text \<open>A bad password after a good name leaves the name changed.\<close>

definition serve_update :: "libs \<Rightarrow> Request \<Rightarrow> service \<Rightarrow> int \<times> service" where
  "serve_update L rq s =
     (case find_person L (rusername rq) s of
        None \<Rightarrow> (2003, s)
      | Some p \<Rightarrow>
          if p_hash p \<noteq> MD5Encrypt L (verifyPassword rq) then (2006, s)
          else if newUsername rq \<noteq> [] \<and> \<not> ValidateUsername (newUsername rq) then (2001, s)
          else if newUsername rq \<noteq> [] \<and> find_person L (newUsername rq) s \<noteq> None then (2002, s)
          else let p1 = (if newUsername rq = [] then p else p\<lparr>p_name := newUsername rq\<rparr>);
                   s1 = put_person L p1 (drop_person L p s)
               in if newPassword rq \<noteq> [] \<and> \<not> ValidatePassword (newPassword rq) then (2001, s1)
                  else if newPassword rq \<noteq> []
                  then (0, put_person L (p1\<lparr>p_hash := MD5Encrypt L (newPassword rq)\<rparr>) s1)
                  else if newUsername rq \<noteq> [] then (0, s1)
                  else (1001, s))"

definition serve_add_friend :: "libs \<Rightarrow> Request \<Rightarrow> service \<Rightarrow> int \<times> service" where
  "serve_add_friend L rq s =
     (if target_of rq = [] then (1001, s)
      else if rusername rq = target_of rq then (3003, s)
      else case (find_person L (rusername rq) s, find_person L (target_of rq) s) of
        (None, _) \<Rightarrow> (2003, s)
      | (_, None) \<Rightarrow> (3001, s)
      | (Some p, Some q) \<Rightarrow>
          if (p_id p, p_id q) \<in> added s then (3002, s)
          else (0, s\<lparr>added := insert (p_id p, p_id q) (added s)\<rparr>))"

definition serve_delete_friend :: "libs \<Rightarrow> Request \<Rightarrow> service \<Rightarrow> int \<times> service" where
  "serve_delete_friend L rq s =
     (if target_of rq = [] then (1001, s)
      else case (find_person L (rusername rq) s, find_person L (target_of rq) s) of
        (None, _) \<Rightarrow> (2003, s)
      | (_, None) \<Rightarrow> (3001, s)
      | (Some p, Some q) \<Rightarrow>
          if (p_id p, p_id q) \<notin> added s then (3004, s)
          else (0, s\<lparr>added := added s - {(p_id p, p_id q)},
                    letters := filter (\<lambda>l. {l_from l, l_to l} \<noteq> {p_id p, p_id q}) (letters s)\<rparr>))"

text \<open>A text of 65536 bytes passes the check of the server but not the column of the table.\<close>

definition serve_send :: "libs \<Rightarrow> Request \<Rightarrow> service \<Rightarrow> int \<times> service" where
  "serve_send L rq s =
     (if \<not> ValidateMessageContent (rcontent rq) then (4001, s)
      else if 65536 < length (rcontent rq) then (4002, s)
      else case (find_person L (rusername rq) s, find_person L (targetUsername rq) s) of
        (Some p, Some q) \<Rightarrow>
          if 65535 < length (rcontent rq) then (5001, s)
          else let s1 = s\<lparr>letters := letters s @ [\<lparr>l_from = p_id p, l_to = p_id q, l_text = rcontent rq, l_read = False\<rparr>]\<rparr>
               in (0, if p_online q \<and> routes s (targetUsername rq) \<noteq> None
                      then read_letters (\<lambda>l. l_from l = p_id p \<and> l_to l = p_id q) s1 else s1)
      | _ \<Rightarrow> (4003, s))"

text \<open>The queries change nothing.\<close>

definition query_code :: "libs \<Rightarrow> Request \<Rightarrow> service \<Rightarrow> int" where
  "query_code L rq s =
     (let known = (\<lambda>n. find_person L n s \<noteq> None)
      in if rtype rq \<in> {''QUERY_STATUS'', ''FRIEND_LIST''} then (if known (rusername rq) then 0 else 2003)
         else if rtype rq \<in> {''FRIEND_STATUS'', ''QUERY_FRIEND''}
         then (if target_of rq = [] then 1001 else if known (target_of rq) then 0 else 3001)
         else if rtype rq = ''HISTORY_MSG''
         then (if targetUsername rq = [] then 1001
               else if known (rusername rq) \<and> known (targetUsername rq) then 0 else 4003)
         else if rtype rq = ''HEARTBEAT'' then 0
         else 4002)"

definition serve_request :: "libs \<Rightarrow> Request \<Rightarrow> service \<Rightarrow> int \<times> service" where
  "serve_request L rq s =
     (if rtype rq = ''REGISTER'' then serve_register L rq s
      else if rtype rq = ''LOGIN'' then serve_login L rq s
      else if rtype rq = ''UPDATE_USER'' then serve_update L rq s
      else if rtype rq = ''ADD_FRIEND'' then serve_add_friend L rq s
      else if rtype rq = ''DEL_FRIEND'' then serve_delete_friend L rq s
      else if rtype rq = ''SEND_MSG'' then serve_send L rq s
      else (query_code L rq s, s))"

section \<open>Accounts\<close>

definition keyed :: "libs \<Rightarrow> service \<Rightarrow> bool" where
  "keyed L s \<longleftrightarrow> (\<forall>k p. people s k = Some p \<longrightarrow> collation_key (mysql_of L) (p_name p) = k)"

definition has_account :: "string \<Rightarrow> person \<Rightarrow> service \<Rightarrow> bool" where
  "has_account k p s \<longleftrightarrow> (\<exists>b. people s k = Some (p\<lparr>p_online := b\<rparr>))"

lemma people_simps [simp]:
  "people (begin_session sock n s) = people s" "people (end_session n s) = people s"
  "people (read_letters P s) = people s" "people (hand_over L n s) = people s"
  "people (put_person L p s) = (people s)(collation_key (mysql_of L) (p_name p) \<mapsto> p)"
  "people (drop_person L p s) = (people s)(collation_key (mysql_of L) (p_name p) := None)"
  by (simp_all add: begin_session_def end_session_def read_letters_def hand_over_def put_person_def drop_person_def
      split: option.splits)

lemma account_login:
  assumes "keyed L s" and "has_account k p s"
  shows "has_account k p (snd (serve_login L rq s))"
proof (cases "fst (admit L rq s) = 0")
  case False
  with assms(2) show ?thesis by (auto simp: serve_login_def admit_def split: option.splits if_splits)
next
  case True
  then obtain q where q: "people s (collation_key (mysql_of L) (rusername rq)) = Some q"
    and out: "people (snd (serve_login L rq s)) = (people s)(collation_key (mysql_of L) (p_name q) \<mapsto> q\<lparr>p_online := True\<rparr>)"
    by (auto simp: serve_login_def admit_def find_person_def split: option.splits if_splits)
  have "collation_key (mysql_of L) (p_name q) = collation_key (mysql_of L) (rusername rq)"
    using assms(1) q by (simp add: keyed_def)
  with assms(2) q out show ?thesis by (auto simp: has_account_def) blast
qed

lemma account_update:
  assumes "keyed L s" and acc: "has_account k p s" and "MD5Encrypt L (verifyPassword rq) \<noteq> p_hash p"
  shows "has_account k p (snd (serve_update L rq s))"
proof (cases "find_person L (rusername rq) s")
  case None
  with acc show ?thesis by (simp add: serve_update_def)
next
  case (Some q)
  then have key: "collation_key (mysql_of L) (p_name q) = collation_key (mysql_of L) (rusername rq)"
    using assms(1) by (simp add: keyed_def find_person_def)
  have "collation_key (mysql_of L) (p_name q) \<noteq> k" if "p_hash q = MD5Encrypt L (verifyPassword rq)"
    using Some acc that assms(3) key by (auto simp: has_account_def find_person_def)
  moreover have "collation_key (mysql_of L) n \<noteq> k" if "find_person L n s = None" for n
    using that acc by (auto simp: has_account_def find_person_def)
  ultimately show ?thesis
    using Some acc by (auto simp: serve_update_def has_account_def Let_def)
qed

lemma account_kept:
  assumes "keyed L s" and acc: "has_account k p s" and "MD5Encrypt L (verifyPassword rq) \<noteq> p_hash p"
  shows "has_account k p (snd (serve_request L rq s))"
proof -
  have "has_account k p (snd (serve_register L rq s))"
    using acc by (auto simp: serve_register_def has_account_def find_person_def)
  moreover have "people (snd (serve_add_friend L rq s)) = people s" "people (snd (serve_delete_friend L rq s)) = people s"
    "people (snd (serve_send L rq s)) = people s"
    by (auto simp: serve_add_friend_def serve_delete_friend_def serve_send_def Let_def split: option.splits)
  then have "has_account k p (snd (serve_add_friend L rq s))" "has_account k p (snd (serve_delete_friend L rq s))"
    "has_account k p (snd (serve_send L rq s))"
    using acc by (simp_all add: has_account_def)
  ultimately show ?thesis
    using account_login[OF assms(1) acc] account_update[OF assms] acc by (simp add: serve_request_def)
qed

end
