(* ===== verification/Chat_Abstraction.thy ===== *)
theory Chat_Abstraction
  imports Chat_Service
begin

text \<open>
  The chat service read off the state of the server: people from the rows of \<open>users\<close>, the relation
  ``has added'' from \<open>friends\<close>, letters from \<open>messages\<close>, connections and routes from the session manager;
  and every statement on the tables as an update of that abstract state.
\<close>

section \<open>The abstraction\<close>

definition person_of :: "user_row \<Rightarrow> person" where
  "person_of r = \<lparr>p_id = u_id r, p_name = u_name r, p_hash = u_hash r, p_online = u_online r\<rparr>"

definition letter_of :: "message_row \<Rightarrow> letter" where
  "letter_of m = \<lparr>l_from = m_sender m, l_to = m_receiver m, l_text = m_content m, l_read = m_read m\<rparr>"

definition people_of :: "mysql \<Rightarrow> database \<Rightarrow> string \<Rightarrow> person option" where
  "people_of Q d k = map_option person_of (List.find (\<lambda>r. collation_key Q (u_name r) = k) (users d))"

definition connected_of :: "sessions \<Rightarrow> int \<Rightarrow> string option" where
  "connected_of st sock = map_option (\<lambda>p. username (deref st p)) (GetSession sock st)"

definition routes_of :: "sessions \<Rightarrow> string \<Rightarrow> int option" where
  "routes_of st n = map_option (\<lambda>p. socket (deref st p)) (GetSessionByUsername n st)"

definition service_of :: "libs \<Rightarrow> database \<Rightarrow> sessions \<Rightarrow> service" where
  "service_of L d st = \<lparr>people = people_of (mysql_of L) d, next_id = next_user_id d,
     added = (\<lambda>f. (f_user1 f, f_user2 f)) ` set (friends d), letters = map letter_of (messages d),
     connected = connected_of st, routes = routes_of st\<rparr>"

lemma person_of_simps [simp]:
  "p_id (person_of r) = u_id r" "p_name (person_of r) = u_name r" "p_hash (person_of r) = u_hash r"
  "p_online (person_of r) = u_online r" "person_of (r\<lparr>u_name := n\<rparr>) = (person_of r)\<lparr>p_name := n\<rparr>"
  "person_of (r\<lparr>u_hash := h\<rparr>) = (person_of r)\<lparr>p_hash := h\<rparr>"
  "person_of (r\<lparr>u_online := b\<rparr>) = (person_of r)\<lparr>p_online := b\<rparr>"
  "person_of (r\<lparr>u_last_login := t\<rparr>) = person_of r"
  by (simp_all add: person_of_def)

lemma letter_of_simps [simp]:
  "l_from (letter_of m) = m_sender m" "l_to (letter_of m) = m_receiver m"
  "l_text (letter_of m) = m_content m" "l_read (letter_of m) = m_read m"
  "letter_of (m\<lparr>m_read := b\<rparr>) = (letter_of m)\<lparr>l_read := b\<rparr>"
  by (simp_all add: letter_of_def)

lemma service_of_simps [simp]:
  "people (service_of L d st) = people_of (mysql_of L) d" "next_id (service_of L d st) = next_user_id d"
  "added (service_of L d st) = (\<lambda>f. (f_user1 f, f_user2 f)) ` set (friends d)"
  "letters (service_of L d st) = map letter_of (messages d)"
  "connected (service_of L d st) = connected_of st" "routes (service_of L d st) = routes_of st"
  by (simp_all add: service_of_def)

lemma service_eqI:
  fixes s t :: service
  assumes "people s = people t" "next_id s = next_id t" "added s = added t" "letters s = letters t"
    "connected s = connected t" "routes s = routes t"
  shows "s = t"
  using assms by (cases s; cases t) simp

lemma find_person_service [simp]:
  "find_person L n (service_of L d st) = map_option person_of (sql_user_by_name (mysql_of L) n d)"
  by (simp add: find_person_def people_of_def sql_user_by_name_def same_name_def)

text \<open>The statements on rows as updates of the map of people.\<close>

lemma people_of_Some:
  assumes "users_ok Q d"
  shows "people_of Q d k = Some p \<longleftrightarrow> (\<exists>r\<in>set (users d). collation_key Q (u_name r) = k \<and> person_of r = p)"
proof
  assume "people_of Q d k = Some p"
  then show "\<exists>r\<in>set (users d). collation_key Q (u_name r) = k \<and> person_of r = p"
    by (auto simp: people_of_def dest: find_Some_in)
next
  assume "\<exists>r\<in>set (users d). collation_key Q (u_name r) = k \<and> person_of r = p"
  then obtain r where r: "r \<in> set (users d)" "collation_key Q (u_name r) = k" "person_of r = p" by blast
  have "distinct (map (\<lambda>r. collation_key Q (u_name r)) (users d))"
    using assms by (simp add: users_ok_def)
  from find_by_key[OF this r(1)] r(2,3) show "people_of Q d k = Some p" by (simp add: people_of_def)
qed

lemma people_map_users:
  assumes ok: "users_ok Q d" and u: "u \<in> set (users d)"
    and ok': "users_ok Q (map_users (\<lambda>r. u_id r = u_id u) f d)"
  shows "people_of Q (map_users (\<lambda>r. u_id r = u_id u) f d)
    = (people_of Q d)(collation_key Q (u_name u) := None, collation_key Q (u_name (f u)) \<mapsto> person_of (f u))"
proof (rule ext, rule option_eqI_Some)
  fix k p
  have same_id: "r = u" if "r \<in> set (users d)" "u_id r = u_id u" for r
    using ok that u by (auto simp: users_ok_def dest: distinct_map_inj)
  have same_key: "r = u" if "r \<in> set (users d)" "collation_key Q (u_name r) = collation_key Q (u_name u)" for r
    using ok that u distinct_map_inj[of "\<lambda>r. collation_key Q (u_name r)" "users d" r u] by (simp add: users_ok_def)
  have other: "set (users (map_users (\<lambda>r. u_id r = u_id u) f d)) = insert (f u) (set (users d) - {u})"
  proof -
    have "(if u_id r = u_id u then f r else r) = (if r = u then f u else r)" if "r \<in> set (users d)" for r
      using same_id[OF that] by (cases "r = u") auto
    then have "map (\<lambda>r. if u_id r = u_id u then f r else r) (users d) = map (\<lambda>r. if r = u then f u else r) (users d)"
      by simp
    then show ?thesis using u by auto
  qed
  then have fu: "f u \<in> set (users (map_users (\<lambda>r. u_id r = u_id u) f d))" by simp
  have fresh: "r = f u" if "r \<in> set (users (map_users (\<lambda>r. u_id r = u_id u) f d))"
      "collation_key Q (u_name r) = collation_key Q (u_name (f u))" for r
    using ok' that fu distinct_map_inj[of "\<lambda>r. collation_key Q (u_name r)" "users (map_users (\<lambda>r. u_id r = u_id u) f d)" r "f u"]
    by (simp add: users_ok_def del: map_users_simps)
  show "people_of Q (map_users (\<lambda>r. u_id r = u_id u) f d) k = Some p
    \<longleftrightarrow> ((people_of Q d)(collation_key Q (u_name u) := None, collation_key Q (u_name (f u)) \<mapsto> person_of (f u))) k = Some p"
    unfolding people_of_Some[OF ok'] using fresh other same_key people_of_Some[OF ok, of k p]
    by (auto simp del: map_users_simps)
qed

lemma people_insert:
  assumes "users_ok Q d" and "sql_insert_user Q n h d = Some d'"
  shows "people_of Q d' = (people_of Q d)(collation_key Q n \<mapsto>
      \<lparr>p_id = next_user_id d, p_name = n, p_hash = h, p_online = False\<rparr>)
    \<and> next_user_id d' = next_user_id d + 1 \<and> friends d' = friends d \<and> messages d' = messages d"
proof -
  have "List.find P (xs @ [y]) = (case List.find P xs of None \<Rightarrow> if P y then Some y else None | Some x \<Rightarrow> Some x)"
    for P :: "user_row \<Rightarrow> bool" and xs y by (induction xs) auto
  moreover have "List.find (\<lambda>r. collation_key Q (u_name r) = collation_key Q n) (users d) = None"
    using assms(2) by (auto simp: find_None_iff sql_insert_user_def same_name_def split: if_splits)
  ultimately show ?thesis
    using assms(2) by (auto simp: sql_insert_user_def people_of_def fun_eq_iff person_of_def split: if_splits option.splits)
qed


text \<open>The abstraction of the updates.\<close>

lemma people_of_users: "users d' = users d \<Longrightarrow> people_of Q d' = people_of Q d"
  by (simp add: people_of_def fun_eq_iff)

lemma service_of_user:
  assumes "users_ok (mysql_of L) d" and "u \<in> set (users d)" and "db_ok (mysql_of L) (map_users (\<lambda>r. u_id r = u_id u) f d)"
  shows "service_of L (map_users (\<lambda>r. u_id r = u_id u) f d) st
    = put_person L (person_of (f u)) (drop_person L (person_of u) (service_of L d st))"
  using people_map_users[OF assms(1,2), of f] assms(3)
  by (auto simp: db_ok_def put_person_def drop_person_def intro!: service_eqI)

lemma service_of_befriended:
  "service_of L (befriended a b d) st = (service_of L d st)\<lparr>added := insert (a, b) (added (service_of L d st))\<rparr>"
  by (auto simp: befriended_def intro!: service_eqI people_of_users)

lemma service_of_unfriended:
  "service_of L (unfriended a b d) st = (service_of L d st)\<lparr>added := added (service_of L d st) - {(a, b)},
     letters := filter (\<lambda>l. {l_from l, l_to l} \<noteq> {a, b}) (letters (service_of L d st))\<rparr>"
  by (auto simp: unfriended_def between_def filter_map comp_def doubleton_eq_iff
      intro!: service_eqI people_of_users arg_cong[of _ _ "map letter_of"] filter_cong)

lemma service_of_message:
  assumes "sql_insert_message t a b c d = Some d'"
  shows "service_of L d' st = (service_of L d st)\<lparr>letters := letters (service_of L d st)
     @ [\<lparr>l_from = a, l_to = b, l_text = c, l_read = False\<rparr>]\<rparr>"
  using insert_message_Some[OF assms]
  by (auto simp: new_message_def letter_of_def intro!: service_eqI people_of_users)

lemma service_of_marked:
  assumes "\<And>m. m \<in> set (messages d) \<Longrightarrow> \<not> m_read m \<Longrightarrow> P (letter_of m) \<longleftrightarrow> R m"
  shows "service_of L (d\<lparr>messages := map (\<lambda>m. if R m \<and> \<not> m_read m then m\<lparr>m_read := True\<rparr> else m) (messages d)\<rparr>) st
    = read_letters P (service_of L d st)"
proof -
  have "letter_of (if R m \<and> \<not> m_read m then m\<lparr>m_read := True\<rparr> else m)
      = (if P (letter_of m) then (letter_of m)\<lparr>l_read := True\<rparr> else letter_of m)" if "m \<in> set (messages d)" for m
  proof -
    have "m_read m \<Longrightarrow> (letter_of m)\<lparr>l_read := True\<rparr> = letter_of m" by (simp add: letter_of_def)
    with assms[OF that] show ?thesis by (cases "m_read m") auto
  qed
  then show ?thesis
    by (auto simp: read_letters_def simp del: letter_of_simps intro!: service_eqI people_of_users)
qed

lemma service_of_marked_pair:
  "service_of L (d\<lparr>messages := marked a b (messages d)\<rparr>) st
    = read_letters (\<lambda>l. l_from l = a \<and> l_to l = b) (service_of L d st)"
  using service_of_marked[of d "\<lambda>l. l_from l = a \<and> l_to l = b" "\<lambda>m. m_sender m = a \<and> m_receiver m = b" L st]
  by (simp add: marked_def)

lemma map_users_comp:
  "(\<And>r. P (g r) = P r) \<Longrightarrow> map_users P f (map_users P g d) = map_users P (\<lambda>r. f (g r)) d"
  by (simp add: map_users_def comp_def if_distrib cong: if_cong)

end
