(* ===== verification/Chat_Refinement.thy ===== *)
theory Chat_Refinement
  imports Server_System Chat_Abstraction
begin

text \<open>
  The server implements the chat service: \<open>service_at\<close> reads the abstract state off the tables and the
  session table, and every handler of \<^verbatim>\<open>user_manager.cpp\<close>, \<^verbatim>\<open>friend_manager.cpp\<close> and
  \<^verbatim>\<open>message_manager.cpp\<close>, run without faults, commutes with it (\<open>refines\<close>).  The lemmas are combined for
  \<open>call_manager\<close> and \<open>DispatchRequest\<close>, and the locale \<open>simulation\<close> carries the result over to sequences of
  requests.
\<close>

section \<open>Refinement\<close>

text \<open>
  Where the refinement holds: all managers are there, the driver and the sockets are calm, JsonCpp writes
  texts that fit a message, and MD5 has 16 bytes.
\<close>

definition service_ready :: "server_state \<Rightarrow> bool" where
  "service_ready sv \<longleftrightarrow> has_userManager sv \<and> has_friendManager sv \<and> has_messageManager sv
     \<and> um_userDAO sv \<and> um_sendCallback sv \<and> mm_sendCallback sv"

definition libs_ok :: "libs \<Rightarrow> bool" where
  "libs_ok L \<longleftrightarrow> (\<forall>v. length (json_write (json_of L) v) < 2 ^ 30)
     \<and> (\<forall>p. \<exists>digest. evp_md5 L p = Some digest \<and> length digest = 16)"

definition serving_world :: "libs \<Rightarrow> world \<Rightarrow> bool" where
  "serving_world L w \<longleftrightarrow> libs_ok L \<and> calm w \<and> sessions_ok (smgr w) \<and> db_ok (mysql_of L) (dbase w)
     \<and> service_ready (server w)"

text \<open>
  The abstract state of the server, and what it means that a handler implements an operation of the
  service: the same answer code, and the abstract state that the operation yields.
\<close>

definition service_at :: "libs \<Rightarrow> world \<Rightarrow> service" where
  "service_at L w = service_of L (dbase w) (smgr w)"

definition refines :: "libs \<Rightarrow> Response act \<Rightarrow> (service \<Rightarrow> int \<times> service) \<Rightarrow> bool" where
  "refines L m f \<longleftrightarrow> (\<forall>w. serving_world L w \<longrightarrow>
     wp m (\<lambda>r w'. (code r, service_at L w') = f (service_at L w)) w)"

lemma write_bound: "libs_ok L \<Longrightarrow> length (write_json L v) < 1073741824"
  by (simp add: libs_ok_def write_json_def)

lemma serving_worldD:
  assumes "serving_world L w"
  shows "libs_ok L" "calm w" "sessions_ok (smgr w)" "users_ok (mysql_of L) (dbase w)" "db_ok (mysql_of L) (dbase w)"
    "has_userManager (server w)" "has_friendManager (server w)" "has_messageManager (server w)"
    "um_userDAO (server w)" "um_sendCallback (server w)" "mm_sendCallback (server w)"
  using assms by (simp_all add: serving_world_def service_ready_def db_ok_def)

lemma refinesI:
  "(\<And>w. serving_world L w \<Longrightarrow> wp m (\<lambda>r w'. (code r, service_at L w') = f (service_at L w)) w) \<Longrightarrow> refines L m f"
  by (simp add: refines_def)

lemma count_username_None: "0 < sql_count_username Q n d \<longleftrightarrow> sql_user_by_name Q n d \<noteq> None"
  by (simp add: count_username_pos user_by_name_None)

lemma refines_register: "refines L (HandleRegister L rq) (serve_register L rq)"
proof (rule refinesI)
  fix w assume w: "serving_world L w"
  note ok = serving_worldD[OF w]
  let ?n = "rusername rq" and ?h = "MD5Encrypt L (rpassword rq)"
  show "wp (HandleRegister L rq) (\<lambda>r w'. (code r, service_at L w') = serve_register L rq (service_at L w)) w"
  proof (cases "ValidateUsername ?n \<and> ValidatePassword (rpassword rq) \<and> sql_user_by_name (mysql_of L) ?n (dbase w) = None")
    case False
    then show ?thesis using ok count_username_None[of "mysql_of L" ?n "dbase w"]
      by (auto simp: wp_def run_HandleRegister_calm serve_register_def service_at_def)
  next
    case True
    then have none: "sql_count_username (mysql_of L) ?n (dbase w) = 0"
      using count_username_None[of "mysql_of L" ?n "dbase w"] by simp
    obtain digest where "evp_md5 L (rpassword rq) = Some digest" "length digest = 16"
      using ok(1) by (auto simp: libs_ok_def)
    then have "varchar_fits 32 ?h" by (rule hash_fits)
    then obtain d where ins: "sql_insert_user (mysql_of L) ?n ?h (dbase w) = Some d"
      using True valid_name_fits[of ?n] by (auto simp: sql_insert_user_def user_by_name_None)
    from people_insert[OF ok(4) this] True none ins ok show ?thesis
      by (auto simp: wp_def run_HandleRegister_calm serve_register_def service_at_def put_person_def
          intro!: service_eqI)
  qed
qed

lemma pair_in_added: "(a, b) \<in> (\<lambda>f. (f_user1 f, f_user2 f)) ` set (friends d) \<longleftrightarrow> 0 < sql_count_friends a b d"
  by (auto simp: count_friends_pos image_iff)

lemma refines_add_friend: "refines L (HandleAddFriend L rq) (serve_add_friend L rq)"
proof (rule refinesI)
  fix w assume w: "serving_world L w"
  note ok = serving_worldD[OF w]
  have ins: "d = befriended (u_id u) (u_id v) (dbase w)"
    if "sql_insert_friend (u_id u) (u_id v) (dbase w) = Some d" "sql_user_by_name (mysql_of L) n (dbase w) = Some u" "sql_user_by_name (mysql_of L) n' (dbase w) = Some v"
      "sql_count_friends (u_id u) (u_id v) (dbase w) = 0" for u v n n' d
    using that insert_friend_Some[OF ok(4), of u v] by (simp add: user_by_name_iff[OF ok(4)])
  have ins': "sql_insert_friend (u_id u) (u_id v) (dbase w) \<noteq> None"
    if "sql_user_by_name (mysql_of L) n (dbase w) = Some u" "sql_user_by_name (mysql_of L) n' (dbase w) = Some v"
      "sql_count_friends (u_id u) (u_id v) (dbase w) = 0" for u v n n'
    using that insert_friend_Some[OF ok(4), of u v] by (simp add: user_by_name_iff[OF ok(4)])
  show "wp (HandleAddFriend L rq) (\<lambda>r w'. (code r, service_at L w') = serve_add_friend L rq (service_at L w)) w"
    using ok(2)
    by (auto simp: HandleAddFriend_def wp_simps calm_wp serve_add_friend_def service_at_def pair_in_added
        service_of_befriended dest: ins ins' split: option.splits)
qed

lemma refines_delete_friend: "refines L (HandleDeleteFriend L rq) (serve_delete_friend L rq)"
proof (rule refinesI)
  fix w assume w: "serving_world L w"
  note ok = serving_worldD[OF w]
  have del: "dbase w\<lparr>friends := filter (\<lambda>f. f_user1 f = a \<longrightarrow> f_user2 f \<noteq> b) (friends (dbase w)),
      messages := filter (\<lambda>m. (m_sender m = a \<longrightarrow> m_receiver m \<noteq> b) \<and> (m_sender m = b \<longrightarrow> m_receiver m \<noteq> a)) (messages (dbase w))\<rparr>
      = unfriended a b (dbase w)" for a b
    by (simp add: unfriended_def between_def)
  show "wp (HandleDeleteFriend L rq) (\<lambda>r w'. (code r, service_at L w') = serve_delete_friend L rq (service_at L w)) w"
    using ok(2)
    by (auto simp: HandleDeleteFriend_def wp_simps calm_wp serve_delete_friend_def service_at_def pair_in_added
        sql_delete_friend_def sql_delete_messages_def del service_of_unfriended split: option.splits)
qed


lemma refines_queries:
  "refines L (HandleQueryStatus L rq) (\<lambda>s. (if find_person L (rusername rq) s \<noteq> None then 0 else 2003, s))"
  "refines L (HandleFriendList L rq) (\<lambda>s. (if find_person L (rusername rq) s \<noteq> None then 0 else 2003, s))"
  "refines L (HandleFriendStatus L rq)
     (\<lambda>s. (if target_of rq = [] then 1001 else if find_person L (target_of rq) s \<noteq> None then 0 else 3001, s))"
  "refines L (HandleQueryFriend L rq)
     (\<lambda>s. (if target_of rq = [] then 1001 else if find_person L (target_of rq) s \<noteq> None then 0 else 3001, s))"
  "refines L (HandleHistoryMessages L rq)
     (\<lambda>s. (if targetUsername rq = [] then 1001
           else if find_person L (rusername rq) s \<noteq> None \<and> find_person L (targetUsername rq) s \<noteq> None
           then 0 else 4003, s))"
proof -
  have id: "sql_user_by_id (u_id u) (dbase w) = Some u"
    if "users_ok (mysql_of L) (dbase w)" "sql_user_by_name (mysql_of L) n (dbase w) = Some u" for w n u
    using that by (simp add: user_by_name_iff user_by_id_iff[OF that(1)])
  show "refines L (HandleQueryStatus L rq) (\<lambda>s. (if find_person L (rusername rq) s \<noteq> None then 0 else 2003, s))"
    "refines L (HandleFriendList L rq) (\<lambda>s. (if find_person L (rusername rq) s \<noteq> None then 0 else 2003, s))"
    "refines L (HandleFriendStatus L rq)
       (\<lambda>s. (if target_of rq = [] then 1001 else if find_person L (target_of rq) s \<noteq> None then 0 else 3001, s))"
    "refines L (HandleQueryFriend L rq)
       (\<lambda>s. (if target_of rq = [] then 1001 else if find_person L (target_of rq) s \<noteq> None then 0 else 3001, s))"
    "refines L (HandleHistoryMessages L rq)
       (\<lambda>s. (if targetUsername rq = [] then 1001
             else if find_person L (rusername rq) s \<noteq> None \<and> find_person L (targetUsername rq) s \<noteq> None
             then 0 else 4003, s))"
    by (rule refinesI; frule serving_worldD(2); drule serving_worldD(4);
        auto simp: service_at_def wp_simps calm_wp id comp_def HandleQueryStatus_def HandleFriendList_def
          HandleFriendStatus_def HandleQueryFriend_def HandleHistoryMessages_def split: option.splits)+
qed

text \<open>The two statements of a profile update on checked values.\<close>

lemma users_rename_ok:
  assumes "db_ok Q d" and "ValidateUsername n" and "sql_user_by_name Q n d = None"
  shows "sql_update_username Q uid n d = Some (map_users (\<lambda>r. u_id r = uid) (\<lambda>r. r\<lparr>u_name := n\<rparr>) d)
    \<and> db_ok Q (map_users (\<lambda>r. u_id r = uid) (\<lambda>r. r\<lparr>u_name := n\<rparr>) d)"
proof -
  have "sql_update_username Q uid n d = Some (map_users (\<lambda>r. u_id r = uid) (\<lambda>r. r\<lparr>u_name := n\<rparr>) d)"
    using assms(2,3) valid_name_fits by (auto simp: sql_update_username_def user_by_name_None)
  with db_ok_update_username[OF assms(1) this] show ?thesis by simp
qed

lemma users_rehash_ok:
  assumes "db_ok (mysql_of L) d" and "libs_ok L"
  shows "sql_update_password uid (MD5Encrypt L p) d
      = Some (map_users (\<lambda>r. u_id r = uid) (\<lambda>r. r\<lparr>u_hash := MD5Encrypt L p\<rparr>) d)
    \<and> db_ok (mysql_of L) (map_users (\<lambda>r. u_id r = uid) (\<lambda>r. r\<lparr>u_hash := MD5Encrypt L p\<rparr>) d)"
proof -
  obtain digest where "evp_md5 L p = Some digest" "length digest = 16"
    using assms(2) by (auto simp: libs_ok_def)
  then have "varchar_fits 32 (MD5Encrypt L p)" by (rule hash_fits)
  then have "sql_update_password uid (MD5Encrypt L p) d
      = Some (map_users (\<lambda>r. u_id r = uid) (\<lambda>r. r\<lparr>u_hash := MD5Encrypt L p\<rparr>) d)"
    by (auto simp: sql_update_password_def)
  with db_ok_update_password[OF assms(1) this] show ?thesis by simp
qed

lemma refines_send: "refines L (HandleSendMessage L rq) (serve_send L rq)"
proof (rule refinesI)
  fix w assume w: "serving_world L w"
  note ok = serving_worldD[OF w]
  let ?Q = "mysql_of L" and ?d = "dbase w" and ?c = "rcontent rq"
  show "wp (HandleSendMessage L rq) (\<lambda>r w'. (code r, service_at L w') = serve_send L rq (service_at L w)) w"
  proof (cases "ValidateMessageContent ?c \<and> length ?c \<le> 65536
      \<and> sql_user_by_name ?Q (rusername rq) ?d \<noteq> None \<and> sql_user_by_name ?Q (targetUsername rq) ?d \<noteq> None")
    case False
    then show ?thesis using ok(2)
      by (auto simp: HandleSendMessage_def wp_simps calm_wp serve_send_def service_at_def maxMessageSize_def
          split: option.splits)
  next
    case True
    then obtain u v where ids: "sql_user_by_name ?Q (rusername rq) ?d = Some u"
      "sql_user_by_name ?Q (targetUsername rq) ?d = Some v" by auto
    show ?thesis
    proof (cases "length ?c \<le> 65535")
      case False
      then have "sql_insert_message (now w) (u_id u) (u_id v) ?c ?d = None"
        by (auto simp: sql_insert_message_def text_fits_def)
      with False True ids ok(2) show ?thesis
        by (simp add: HandleSendMessage_def StoreMessage_def wp_simps calm_wp serve_send_def service_at_def maxMessageSize_def)
    next
      case short: True
      have mem: "u \<in> set (users ?d)" "v \<in> set (users ?d)"
        using ids by (simp_all add: user_by_name_iff[OF ok(4)])
      then obtain d1 where ins: "sql_insert_message (now w) (u_id u) (u_id v) ?c ?d = Some d1"
        using short by (cases "sql_insert_message (now w) (u_id u) (u_id v) ?c ?d")
          (auto simp: sql_insert_message_def user_exists_def text_fits_def split: if_splits)
      then have "users d1 = users ?d" by (auto dest: insert_message_Some)
      then have online: "sql_user_by_id (u_id v) d1 = Some v"
        using mem(2) user_by_id_iff[OF ok(4), of "u_id v" v] by (simp add: sql_user_by_id_def)
      have touch: "touch p (smgr w) = smgr w" if "GetSessionByUsername n (smgr w) = Some p" for n p
        using that by (simp add: touch_by_username[OF ok(3)])
      show ?thesis
        using ok ids ins online touch True short
        by (auto simp: HandleSendMessage_def StoreMessage_def deliver_online_def ForwardMessage_def SendNotification_def
            maxMessageSize_def sql_mark_read_marked wp_simps calm_wp serve_send_def service_at_def write_bound
            forward_json_def notification_json_def service_of_message service_of_marked_pair routes_of_def
            split: option.splits)
    qed
  qed
qed


lemma put_person_twice: "p_name p = p_name q \<Longrightarrow> put_person L p (put_person L q s) = put_person L p s"
  by (simp add: put_person_def)

lemma put_drop: "p_name p = p_name q \<Longrightarrow> put_person L p (drop_person L q s) = put_person L p s"
  by (simp add: put_person_def drop_person_def)

lemma put_same:
  assumes "users_ok (mysql_of L) d" and "u \<in> set (users d)"
  shows "put_person L (person_of u) (service_of L d st) = service_of L d st"
proof -
  have "people_of (mysql_of L) d (collation_key (mysql_of L) (u_name u)) = Some (person_of u)"
    using assms by (auto simp: people_of_Some)
  then show ?thesis by (auto simp: put_person_def fun_upd_idem intro!: service_eqI)
qed

lemma refines_update: "refines L (HandleUpdateUser L rq) (serve_update L rq)"
proof (rule refinesI)
  fix w assume w: "serving_world L w"
  note ok = serving_worldD[OF w]
  let ?Q = "mysql_of L" and ?d = "dbase w" and ?n = "newUsername rq" and ?pw = "newPassword rq"
  show "wp (HandleUpdateUser L rq) (\<lambda>r w'. (code r, service_at L w') = serve_update L rq (service_at L w)) w"
  proof (cases "sql_user_by_name ?Q (rusername rq) ?d")
    case None
    then show ?thesis using ok(2)
      by (simp add: HandleUpdateUser_def wp_simps calm_wp serve_update_def service_at_def)
  next
    case (Some u)
    then have u: "u \<in> set (users ?d)" by (simp add: user_by_name_iff[OF ok(4)])
    let ?is = "\<lambda>r. u_id r = u_id u" and ?h = "MD5Encrypt L ?pw"
    note hash = users_rehash_ok[OF _ ok(1), of _ "u_id u" ?pw]
    show ?thesis
    proof (cases "u_hash u = MD5Encrypt L (verifyPassword rq)
        \<and> (?n \<noteq> [] \<longrightarrow> ValidateUsername ?n \<and> sql_user_by_name ?Q ?n ?d = None)")
      case False
      then show ?thesis using Some ok(2) count_username_None[of ?Q ?n ?d]
        by (auto simp: HandleUpdateUser_def change_username_def wp_simps calm_wp serve_update_def service_at_def)
    next
      case True
      show ?thesis
      proof (cases "?n = []")
        case old: True
        show ?thesis
          using True Some old ok(2) hash[OF ok(5)] service_of_user[OF ok(4) u, of "\<lambda>r. r\<lparr>u_hash := ?h\<rparr>"]
          by (auto simp: HandleUpdateUser_def change_username_def change_password_def wp_simps calm_wp
              serve_update_def service_at_def put_person_twice put_drop put_same[OF ok(4) u] Let_def)
      next
        case new: False
        with True have free: "ValidateUsername ?n" "sql_user_by_name ?Q ?n ?d = None"
          "sql_count_username ?Q ?n ?d = 0" using count_username_None[of ?Q ?n ?d] by auto
        note name = users_rename_ok[OF ok(5) free(1,2), of "u_id u"]
        show ?thesis
          using True Some new ok(2) free name hash[OF conjunct2[OF name]]
            service_of_user[OF ok(4) u, of "\<lambda>r. r\<lparr>u_name := ?n\<rparr>"]
            service_of_user[OF ok(4) u, of "\<lambda>r. r\<lparr>u_name := ?n, u_hash := ?h\<rparr>"]
          by (auto simp: HandleUpdateUser_def change_username_def change_password_def wp_simps calm_wp
              serve_update_def service_at_def put_person_twice map_users_comp Let_def)
      qed
    qed
  qed
qed

section \<open>Login\<close>

text \<open>Setters and \<open>BindUsername\<close> as updates of connections and routes.\<close>

lemma connected_update:
  assumes ok: "sessions_ok st" and p: "umap_find (cliSessionMap st) sock = Some p"
  shows "connected_of (update_at p (SetUsername n) st) = (connected_of st)(sock \<mapsto> n)"
    and "routes_of (update_at p (SetUsername n) st) = routes_of st"
    and "connected_of (update_at p (UpdateHeartbeat t) st) = connected_of st"
    and "routes_of (update_at p (UpdateHeartbeat t) st) = routes_of st"
proof -
  from sessions_okD[OF ok p] obtain c where c: "heap st p = Some c" by auto
  have "q \<noteq> p" if "umap_find (cliSessionMap st) s = Some q" "s \<noteq> sock" for s q
    using sessions_ok_ptr_inj[OF ok p, of s] that by auto
  then show "connected_of (update_at p (SetUsername n) st) = (connected_of st)(sock \<mapsto> n)"
    using p c by (auto simp: fun_eq_iff connected_of_def GetSession_def update_at_live deref_def)
      (auto simp: map_option_case split: option.splits)
  show "routes_of (update_at p (SetUsername n) st) = routes_of st"
    using c by (auto simp: fun_eq_iff routes_of_def GetSessionByUsername_def update_at_live deref_def map_option_case split: option.splits)
  show "connected_of (update_at p (UpdateHeartbeat t) st) = connected_of st"
    using c by (auto simp: fun_eq_iff connected_of_def GetSession_def update_at_live deref_def map_option_case split: option.splits)
  show "routes_of (update_at p (UpdateHeartbeat t) st) = routes_of st"
    using c by (auto simp: fun_eq_iff routes_of_def GetSessionByUsername_def update_at_live deref_def map_option_case split: option.splits)
qed


lemma wp_keeps: "keeps I m \<Longrightarrow> I w \<Longrightarrow> wp m Q w \<Longrightarrow> wp m (\<lambda>r w'. Q r w' \<and> I w') w"
  by (simp add: wp_def keepsD)

text \<open>What all interpretations of the interface keep.\<close>

lemma serving_kept:
  assumes "keeps (\<lambda>w. db_ok (mysql_of L) (dbase w)) m" and "\<And>mp. keeps (safe_sessions mp) m"
    and "keeps calm m" and "\<And>sv ib t. keeps (\<lambda>w. server w = sv \<and> inbox w = ib \<and> now w = t) m"
  shows "keeps (serving_world L) m"
proof (rule keepsI)
  fix w assume w: "serving_world L w"
  have "safe_sessions (cliSessionMap (smgr w)) w" using w by (simp add: safe_sessions_def serving_world_def)
  from keepsD[OF assms(2) this] have "sessions_ok (smgr (snd (run_state m w)))" by (simp add: safe_sessions_def)
  moreover from keepsD[OF assms(4)[of "server w" "inbox w" "now w"], of w] have "server (snd (run_state m w)) = server w" by simp
  ultimately show "serving_world L (snd (run_state m w))"
    using w keepsD[OF assms(1), of w] keepsD[OF assms(3), of w] by (simp add: serving_world_def)
qed

text \<open>The session part of a login, for any data.\<close>

lemma wp_kick_service:
  assumes w: "serving_world L w"
  shows "wp (kick_old_session L n) (\<lambda>_ w'. serving_world L w' \<and> dbase w' = dbase w \<and> now w' = now w
    \<and> (\<forall>d. service_of L d (smgr w') = end_session n (service_of L d (smgr w)))) w"
proof (cases "GetSessionByUsername n (smgr w)")
  case None
  then show ?thesis using w
    by (simp add: kick_old_session_def wp_simps end_session_def routes_of_def)
next
  case (Some p)
  note ok = serving_worldD[OF w]
  obtain sock where p: "umap_find (cliSessionMap (smgr w)) sock = Some p"
    using Some by (auto dest: GetSessionByUsername_mem)
  note upd = connected_update(1,2)[OF ok(3) p, where n = "[]"]
  have sock: "socket (deref (smgr w) p) = sock" using sessions_okD[OF ok(3) p] by auto
  have "routes_of (smgr w) n = Some sock" using Some sock by (simp add: routes_of_def)
  then have "service_of L d (update_at p (SetUsername []) (smgr w)) = end_session n (service_of L d (smgr w))" for d
    using upd by (auto simp: end_session_def intro!: service_eqI)
  moreover have "sessions_ok (update_at p (SetUsername []) (smgr w))"
    by (rule sessions_ok_update_at[OF ok(3) p]) simp
  ultimately show ?thesis
    using w ok Some sessions_ok_touch[OF ok(3) p]
    by (simp add: kick_old_session_def wp_simps calm_wp kicked_notice_def write_bound serving_world_def service_ready_def)
qed

lemma bind_service:
  assumes ok: "sessions_ok st" and p: "umap_find (cliSessionMap st) sock = Some p"
  shows "connected_of (BindUsername sock n st) = connected_of st"
    and "routes_of (BindUsername sock n st) = (routes_of st)(n \<mapsto> sock)"
proof -
  have "deref (BindUsername sock n st) = deref st" by (simp add: fun_eq_iff deref_def BindUsername_def)
  moreover have "socket (deref st p) = sock" using sessions_okD[OF ok p] by auto
  ultimately show "connected_of (BindUsername sock n st) = connected_of st"
      "routes_of (BindUsername sock n st) = (routes_of st)(n \<mapsto> sock)"
    using p by (auto simp: fun_eq_iff connected_of_def routes_of_def GetSession_def GetSessionByUsername_def)
      (auto simp: BindUsername_def um_simps GetSession_def split: option.splits)
qed

lemma wp_bind_service:
  assumes w: "serving_world L w"
  shows "wp (bind_session rq) (\<lambda>_ w'. serving_world L w' \<and> dbase w' = dbase w
    \<and> (\<forall>d. service_of L d (smgr w') = begin_session (clientSocket rq) (rusername rq) (service_of L d (smgr w)))) w"
proof (cases "GetSession (clientSocket rq) (smgr w)")
  case None
  then show ?thesis using w
    by (simp add: bind_session_def wp_simps begin_session_def connected_of_def)
next
  case (Some p)
  note ok = serving_worldD[OF w]
  let ?s = "clientSocket rq" and ?n = "rusername rq"
  let ?st1 = "update_at p (SetUsername ?n) (smgr w)"
  let ?st2 = "BindUsername ?s ?n ?st1"
  from Some have p: "umap_find (cliSessionMap (smgr w)) ?s = Some p" by (simp add: GetSession_def)
  then have p1: "umap_find (cliSessionMap ?st1) ?s = Some p" and p2: "umap_find (cliSessionMap ?st2) ?s = Some p"
    by (simp_all add: BindUsername_def)
  have ok1: "sessions_ok ?st1" by (rule sessions_ok_update_at[OF ok(3) p]) simp
  then have ok2: "sessions_ok ?st2" by (rule sessions_ok_BindUsername)
  have "connected_of (smgr w) ?s \<noteq> None" using Some by (simp add: connected_of_def)
  then have "service_of L d (update_at p (UpdateHeartbeat t) ?st2) = begin_session ?s ?n (service_of L d (smgr w))" for d t
    using connected_update(3,4)[OF ok2 p2] bind_service[OF ok1 p1] connected_update(1,2)[OF ok(3) p]
    by (auto simp: begin_session_def intro!: service_eqI)
  moreover have "sessions_ok (update_at p (UpdateHeartbeat t) ?st2)" for t
    by (rule sessions_ok_update_at[OF ok2 p2]) simp
  ultimately show ?thesis
    using w Some by (simp add: bind_session_def wp_simps serving_world_def)
qed

lemma wp_notify_service:
  assumes w: "serving_world L w"
  shows "wp (NotifyFriendsStatusChange L n st) (\<lambda>_ w'. serving_world L w' \<and> service_at L w' = service_at L w) w"
proof -
  have "keeps (serving_world L) (NotifyFriendsStatusChange L n st)"
    by (intro serving_kept schema.keeps_user_manager[OF refl] memory.keeps_user_manager[OF refl]
        quiet.keeps_user_manager[OF refl] steady.keeps_user_manager[OF refl])
  moreover have "wp (NotifyFriendsStatusChange L n st) (\<lambda>_ w'. service_at L w' = service_at L w) w"
    by (rule wp_notify[OF serving_worldD(3)[OF w]]) (auto simp: service_at_def dest: noticed_world)
  ultimately show ?thesis using w by (auto intro: wp_mono[OF wp_keeps])
qed

text \<open>What follows the check of the password and the end of the earlier session.\<close>

definition login_tail :: "int \<Rightarrow> libs \<Rightarrow> Request \<Rightarrow> Response act" where
  "login_tail uid L rq = do {
     _ \<leftarrow> UpdateOnlineStatus uid True;
     _ \<leftarrow> UpdateLastLoginTime uid;
     bind_session rq;
     NotifyFriendsStatusChange L (rusername rq) Online;
     State_Monad.return (reply 0 txt_login_ok)
   }"

lemma rotate_pool_dbase: "rotate_pool (w\<lparr>dbase := d\<rparr>) = (rotate_pool w)\<lparr>dbase := d\<rparr>"
  by (simp add: rotate_pool_def split: option.splits)

lemma wp_login_tail:
  assumes w: "serving_world L w" and d: "db_ok (mysql_of L) d" and u: "u \<in> set (users d)"
    and dw: "dbase w = map_users (\<lambda>r. u_id r = u_id u) (\<lambda>r. r\<lparr>u_online := g r\<rparr>) d"
  shows "wp (login_tail (u_id u) L rq) (\<lambda>r w'. code r = 0
     \<and> service_at L w' = begin_session (clientSocket rq) (rusername rq)
       (put_person L ((person_of u)\<lparr>p_online := True\<rparr>) (service_of L d (smgr w)))) w"
proof -
  let ?f = "\<lambda>r. r\<lparr>u_online := True, u_last_login := Some (now w)\<rparr>"
  let ?d = "map_users (\<lambda>r. u_id r = u_id u) ?f d"
  have ok': "db_ok (mysql_of L) ?d" by (rule db_ok_map_users[OF d]) (auto dest: db_ok_user_row[OF d])
  have uok: "users_ok (mysql_of L) d" using d by (simp add: db_ok_def)
  have new: "service_of L ?d st = put_person L ((person_of u)\<lparr>p_online := True\<rparr>) (service_of L d st)" for st
    using service_of_user[OF uok u ok', of st] by (simp add: put_drop)
  have rows: "map_users (\<lambda>r. u_id r = u_id u) (\<lambda>r. r\<lparr>u_last_login := Some (now w)\<rparr>)
      (map_users (\<lambda>r. u_id r = u_id u) (\<lambda>r. r\<lparr>u_online := True\<rparr>) (dbase w)) = ?d"
    by (simp add: dw map_users_comp)
  let ?w1 = "(rotate_pool (rotate_pool w))\<lparr>dbase := ?d\<rparr>"
  have w1: "serving_world L ?w1" using w ok' by (simp add: serving_world_def)
  let ?G = "begin_session (clientSocket rq) (rusername rq) (service_of L ?d (smgr w))"
  have "wp (bind_session rq) (\<lambda>_. wp (NotifyFriendsStatusChange L (rusername rq) Online) (\<lambda>_ w'. service_at L w' = ?G)) ?w1"
  proof (rule wp_mono[OF wp_bind_service[OF w1]])
    fix x w2 assume "serving_world L w2 \<and> dbase w2 = dbase ?w1 \<and> (\<forall>d. service_of L d (smgr w2)
      = begin_session (clientSocket rq) (rusername rq) (service_of L d (smgr ?w1)))"
    then have w2: "serving_world L w2" and "service_at L w2 = ?G" by (simp_all add: service_at_def)
    then show "wp (NotifyFriendsStatusChange L (rusername rq) Online) (\<lambda>_ w'. service_at L w' = ?G) w2"
      by (auto intro!: wp_mono[OF wp_notify_service[OF w2]])
  qed
  then show ?thesis
    using serving_worldD(2)[OF w] rows
    by (simp add: login_tail_def wp_simps calm_wp sql_update_online_def sql_update_last_login_def rotate_pool_dbase new)
qed

lemma put_end: "put_person L p (end_session n s) = end_session n (put_person L p s)"
  by (cases s) (simp add: put_person_def end_session_def split: option.splits)

lemma login_accepted:
  assumes w: "serving_world L w" and "ValidateUsername (rusername rq)"
    and look: "sql_user_by_name (mysql_of L) (rusername rq) (dbase w) = Some u" and "u_hash u = MD5Encrypt L (rpassword rq)"
  shows "wp (HandleLogin L rq) R w \<longleftrightarrow> wp (do {
      guarded (u_online u) (do { _ \<leftarrow> UpdateOnlineStatus (u_id u) False; kick_old_session L (rusername rq) });
      login_tail (u_id u) L rq }) R (rotate_pool (rotate_pool w))"
proof -
  note ok = serving_worldD[OF w]
  have "sql_user_by_id (u_id u) (dbase w) = Some u"
    using look by (simp add: user_by_name_iff[OF ok(4)] user_by_id_iff[OF ok(4)])
  with assms(2-4) ok(2) show ?thesis
    by (simp add: HandleLogin_def login_tail_def wp_simps calm_wp comp_def)
qed

text \<open>The end of the earlier session and the rest of the login.\<close>

lemma wp_login_online:
  assumes w: "serving_world L w" and u: "u \<in> set (users (dbase w))"
  shows "wp (do { _ \<leftarrow> UpdateOnlineStatus (u_id u) False; kick_old_session L (rusername rq); login_tail (u_id u) L rq })
    (\<lambda>r w'. code r = 0 \<and> service_at L w' = begin_session (clientSocket rq) (rusername rq)
       (end_session (rusername rq) (put_person L ((person_of u)\<lparr>p_online := True\<rparr>) (service_at L w)))) w"
    (is "wp _ ?P w")
proof -
  note ok = serving_worldD[OF w]
  let ?d1 = "map_users (\<lambda>r. u_id r = u_id u) (\<lambda>r. r\<lparr>u_online := False\<rparr>) (dbase w)"
  let ?w1 = "(rotate_pool w)\<lparr>dbase := ?d1\<rparr>"
  have "db_ok (mysql_of L) ?d1" by (rule db_ok_map_users[OF ok(5)]) (auto dest: db_ok_user_row[OF ok(5)])
  then have w1: "serving_world L ?w1" using w by (simp add: serving_world_def)
  have "wp (kick_old_session L (rusername rq)) (\<lambda>_. wp (login_tail (u_id u) L rq) ?P) ?w1"
  proof (rule wp_mono[OF wp_kick_service[OF w1]])
    fix x w2 assume "serving_world L w2 \<and> dbase w2 = dbase ?w1 \<and> now w2 = now ?w1
      \<and> (\<forall>d. service_of L d (smgr w2) = end_session (rusername rq) (service_of L d (smgr ?w1)))"
    then have w2: "serving_world L w2" "dbase w2 = ?d1"
      "service_of L (dbase w) (smgr w2) = end_session (rusername rq) (service_at L w)"
      by (simp_all add: service_at_def)
    from wp_login_tail[OF w2(1) ok(5) u w2(2), of rq] show "wp (login_tail (u_id u) L rq) ?P w2"
      by (simp add: w2(3) put_end)
  qed
  then show ?thesis using ok(2) by (simp add: wp_simps calm_wp sql_update_online_def)
qed

lemma refines_login: "refines L (HandleLogin L rq) (admit L rq)"
proof (rule refinesI)
  fix w assume w: "serving_world L w"
  note ok = serving_worldD[OF w]
  let ?Q = "mysql_of L" and ?n = "rusername rq" and ?d = "dbase w"
  let ?w2 = "rotate_pool (rotate_pool w)"
  have w2: "serving_world L ?w2" using w by (simp add: serving_world_def)
  show "wp (HandleLogin L rq) (\<lambda>r w'. (code r, service_at L w') = admit L rq (service_at L w)) w"
  proof (cases "\<exists>u. ValidateUsername ?n \<and> sql_user_by_name ?Q ?n ?d = Some u \<and> u_hash u = MD5Encrypt L (rpassword rq)")
    case False
    then show ?thesis using ok(2)
      by (auto simp: HandleLogin_def wp_simps calm_wp admit_def service_at_def comp_def split: option.splits)
  next
    case True
    then obtain u where u: "ValidateUsername ?n" "sql_user_by_name ?Q ?n ?d = Some u"
      "u_hash u = MD5Encrypt L (rpassword rq)" by blast
    then have mem: "u \<in> set (users ?d)" by (simp add: user_by_name_iff[OF ok(4)])
    have same: "map_users (\<lambda>r. u_id r = u_id u) (\<lambda>r. r\<lparr>u_online := u_online r\<rparr>) ?d = ?d"
      by (simp add: map_users_def)
    show ?thesis
      using wp_login_tail[OF w2 ok(5) mem, of u_online rq] wp_login_online[OF w2, of u rq] same mem u
      unfolding login_accepted[OF w u]
      by (cases "u_online u") (auto simp: wp_bind wp_guarded admit_def service_at_def intro: wp_mono)
  qed
qed

section \<open>Offline messages\<close>

text \<open>The world after a part of the offline messages has been pushed.\<close>

definition pushing :: "world \<Rightarrow> bool \<Rightarrow> message list \<Rightarrow> world \<Rightarrow> bool" where
  "pushing w route ys w' \<longleftrightarrow> calm w' \<and> smgr w' = smgr w \<and> server w' = server w
     \<and> dbase w' = (if route then (dbase w)\<lparr>messages := fold (\<lambda>x. marked (senderId x) (receiverId x)) ys (messages (dbase w))\<rparr>
                   else dbase w)"

lemma wp_pushing:
  assumes w: "serving_world L w" and I: "pushing w (GetSessionByUsername (receiverUsername x) (smgr w) \<noteq> None) ys w'"
  shows "wp (push_message L sock x) (\<lambda>_. pushing w (GetSessionByUsername (receiverUsername x) (smgr w) \<noteq> None) (ys @ [x])) w'"
proof -
  note ok = serving_worldD[OF w]
  have touch: "touch p (smgr w) = smgr w" if "GetSessionByUsername n (smgr w) = Some p" for n p
    using that by (simp add: touch_by_username[OF ok(3)])
  show ?thesis
    using I ok touch
    by (auto simp: pushing_def push_message_def ForwardMessage_def SendNotification_def wp_simps calm_wp
        write_bound forward_json_def notification_json_def sql_mark_read_marked split: option.splits)
qed

lemma wp_offline:
  assumes w: "serving_world L w"
  shows "wp (PushOfflineMessages L n) (\<lambda>_ w'. service_at L w' = hand_over L n (service_at L w)) w"
proof (cases "sql_user_by_name (mysql_of L) n (dbase w)")
  case None
  then show ?thesis using serving_worldD(2)[OF w]
    by (simp add: PushOfflineMessages_def wp_simps calm_wp hand_over_def service_at_def)
next
  case (Some u)
  note ok = serving_worldD[OF w]
  let ?d = "dbase w"
  let ?ms = "unread_messages L (u_id u) ?d" and ?route = "GetSessionByUsername (u_name u) (smgr w) \<noteq> None"
  let ?all = "map (\<lambda>m. if m_receiver m = u_id u \<and> \<not> m_read m then m\<lparr>m_read := True\<rparr> else m) (messages ?d)"
  have u: "u \<in> set (users ?d)" using Some by (simp add: user_by_name_iff[OF ok(4)])
  have name: "name_of ?d (u_id u) = u_name u"
    using user_by_id_iff[OF ok(4), of "u_id u" u] u by (simp add: name_of_def)
  have recv: "receiverUsername m = u_name u" if "m \<in> set ?ms" for m
    using that name by (auto simp: unread_messages_def unread_rows_def)
  have read: "service_of L (?d\<lparr>messages := ?all\<rparr>) st = read_letters (\<lambda>l. l_to l = u_id u) (service_of L ?d st)" for st
    by (rule service_of_marked) simp
  show ?thesis
  proof (cases "?ms = []")
    case True
    then have "?all = messages ?d" using fold_unread[of L "u_id u" ?d] by simp
    with read[of "smgr w"] have "read_letters (\<lambda>l. l_to l = u_id u) (service_of L ?d (smgr w)) = service_of L ?d (smgr w)"
      by simp
    with True Some ok(2) unread_query[OF ok(5), of "u_id u"] show ?thesis
      by (simp add: PushOfflineMessages_def wp_simps calm_wp hand_over_def service_at_def)
  next
    case False
    have loop: "wp (foreach ?ms (push_message L sock)) (\<lambda>_. pushing w ?route ?ms) (rotate_pool (rotate_pool w))" for sock
    proof (rule wp_foreach_prefix[of "pushing w ?route"])
      show "pushing w ?route [] (rotate_pool (rotate_pool w))" using ok(2) by (simp add: pushing_def)
    next
      fix ys x w1
      assume "prefix (ys @ [x]) ?ms" and I: "pushing w ?route ys w1"
      then have "x \<in> set ?ms" by (auto simp: prefix_def)
      with wp_pushing[OF w, of x ys w1 sock] I recv show "wp (push_message L sock x) (\<lambda>_. pushing w ?route (ys @ [x])) w1" by simp
    qed
    have fin: "service_at L w' = hand_over L n (service_at L w)"
      if "pushing w ?route ?ms w'" "GetSessionByUsername n (smgr w) \<noteq> None" for w'
      using that read Some by (auto simp: pushing_def service_at_def hand_over_def routes_of_def fold_unread)
    have touch: "touch p (smgr w) = smgr w" if "GetSessionByUsername n (smgr w) = Some p" for p
      using that by (simp add: touch_by_username[OF ok(3)])
    show ?thesis
    proof (cases "GetSessionByUsername n (smgr w)")
      case None
      with False Some ok(2) unread_query[OF ok(5), of "u_id u"] show ?thesis
        by (simp add: PushOfflineMessages_def wp_simps calm_wp hand_over_def service_at_def routes_of_def)
    next
      case (Some p)
      then have "wp (foreach ?ms (push_message L sock)) (\<lambda>_ w'. service_at L w' = hand_over L n (service_at L w))
          (rotate_pool (rotate_pool w))" for sock
        by (intro wp_mono[OF loop]) (simp add: fin)
      with False Some \<open>sql_user_by_name (mysql_of L) n ?d = Some u\<close> ok unread_query[OF ok(5), of "u_id u"] touch
      show ?thesis by (simp add: PushOfflineMessages_def wp_simps calm_wp)
    qed
  qed
qed

section \<open>Requests\<close>

lemma refinesD: "refines L m f \<Longrightarrow> serving_world L w
    \<Longrightarrow> wp m (\<lambda>r w'. (code r, service_at L w') = f (service_at L w)) w"
  by (simp add: refines_def)

lemma refines_if: "(b \<Longrightarrow> refines L m f) \<Longrightarrow> (\<not> b \<Longrightarrow> refines L n f) \<Longrightarrow> refines L (if b then m else n) f"
  by simp

lemma refines_eq: "refines L m g \<Longrightarrow> (\<And>s. f s = g s) \<Longrightarrow> refines L m f"
  by (simp add: refines_def)

lemma refines_user:
  assumes "refines L m f"
  shows "refines L (do { b \<leftarrow> gets (\<lambda>w. has_userManager (server w)); if \<not> b then m' else m }) f"
  using assms by (auto simp: refines_def wp_bind wp_gets dest: serving_worldD(6))

lemma refines_return: "refines L (State_Monad.return (reply c t)) (\<lambda>s. (c, s))"
  by (simp add: refines_def wp_return)

lemma refines_manager:
  "refines L m f \<Longrightarrow> refines L (if_manager has_friendManager m) f"
  "refines L m f \<Longrightarrow> refines L (if_manager has_messageManager m) f"
  by (auto simp: refines_def if_manager_def wp_simps dest: serving_worldD)

lemma wp_cache_service:
  assumes "serving_world L w"
  shows "wp (CacheFriendList L n) (\<lambda>_ w'. serving_world L w' \<and> service_at L w' = service_at L w) w"
  using assms serving_worldD(2)[OF assms]
  by (auto simp: CacheFriendList_def wp_simps calm_wp service_at_def serving_world_def split: option.splits)

lemma refines_login_request: "refines L (handle_login_request L rq) (serve_login L rq)"
proof (rule refinesI)
  fix w assume w: "serving_world L w"
  have keep: "keeps (serving_world L) (HandleLogin L rq)"
    by (intro serving_kept schema.keeps_HandleLogin[OF refl] memory.keeps_HandleLogin[OF refl]
        quiet.keeps_HandleLogin[OF refl] steady.keeps_HandleLogin[OF refl])
  let ?P = "\<lambda>r w'. (code r, service_at L w') = serve_login L rq (service_at L w)"
  show "wp (handle_login_request L rq) ?P w"
    unfolding handle_login_request_def wp_bind
  proof (rule wp_mono[OF wp_keeps[OF keep w refinesD[OF refines_login w]]])
    fix r w1 assume "(code r, service_at L w1) = admit L rq (service_at L w) \<and> serving_world L w1"
    then have admit: "admit L rq (service_at L w) = (code r, service_at L w1)" and w1: "serving_world L w1" by simp_all
    note ok = serving_worldD[OF w1]
    have push: "wp (PushOfflineMessages L (rusername rq)) (\<lambda>_. ?P r) w2"
      if w2: "serving_world L w2 \<and> service_at L w2 = service_at L w1" and "code r = 0" for w2
      using that(2) admit by (intro wp_mono[OF wp_offline[OF conjunct1[OF w2]]]) (simp add: w2 serve_login_def)
    show "wp (gets (\<lambda>w. has_friendManager (server w))) (\<lambda>x. wp (guarded (code r = 0 \<and> x) (CacheFriendList L (rusername rq)))
      (\<lambda>_. wp (gets (\<lambda>w. has_messageManager (server w))) (\<lambda>x. wp (guarded (code r = 0 \<and> x)
        (PushOfflineMessages L (rusername rq))) (\<lambda>_. wp (State_Monad.return r) ?P)))) w1"
    proof (cases "code r = 0")
      case False
      with admit show ?thesis by (simp add: wp_simps serve_login_def)
    next
      case True
      with ok push show ?thesis
        by (auto simp: wp_simps dest: serving_worldD(8) intro!: wp_mono[OF wp_cache_service[OF w1]])
    qed
  qed
qed

lemma refines_call_manager: "refines L (call_manager L rq) (serve_request L rq)"
proof -
  note handlers = refines_register refines_login_request refines_update refines_queries(1)
    refines_manager(1)[OF refines_add_friend] refines_manager(1)[OF refines_delete_friend]
    refines_manager(1)[OF refines_queries(2)] refines_manager(1)[OF refines_queries(3)]
    refines_manager(1)[OF refines_queries(4)] refines_manager(2)[OF refines_send]
    refines_manager(2)[OF refines_queries(5)] refines_return
  show ?thesis
    unfolding call_manager_def
    by (intro refines_user refines_if; rule handlers[THEN refines_eq]; simp add: serve_request_def query_code_def)
qed

section \<open>Dispatching\<close>

text \<open>The bytes as a request: nothing for a text that is not JSON or has values of the wrong kind.\<close>

definition read_request :: "libs \<Rightarrow> int \<Rightarrow> int \<Rightarrow> string \<Rightarrow> Request option" where
  "read_request L junk sock data =
     (case json_parse (json_of L) data of
        None \<Rightarrow> None
      | Some doc \<Rightarrow>
          (case (Option.bind (json_index (json_of L) doc ''type'') (json_string (json_of L)),
                 json_index (json_of L) doc ''data'') of
             (Some typ, Some node) \<Rightarrow> read_fields (json_of L) junk typ sock (if is_null node then doc else node)
           | _ \<Rightarrow> None))"

definition user_on :: "int \<Rightarrow> service \<Rightarrow> string" where
  "user_on sock s = (case connected s sock of Some n \<Rightarrow> n | None \<Rightarrow> [])"

definition serve_bytes :: "libs \<Rightarrow> int \<times> int \<times> string \<Rightarrow> service \<Rightarrow> int option \<times> service" where
  "serve_bytes L x s = (case x of (junk, sock, data) \<Rightarrow>
     (case read_request L junk sock data of
        None \<Rightarrow> (None, s)
      | Some rq \<Rightarrow> (case serve_request L (identify (user_on sock s) rq) s of (c, s') \<Rightarrow> (Some c, s'))))"

text \<open>The last thing sent is an answer with the given code, to the given connection.\<close>

definition answered :: "libs \<Rightarrow> int \<Rightarrow> int \<Rightarrow> world \<Rightarrow> bool" where
  "answered L sock c w \<longleftrightarrow> (\<exists>typ r. code r = c
     \<and> last (events (network w)) = Sent sock (PackageMessage (response_json L typ r)))"

lemma refreshed_service:
  assumes w: "serving_world L w"
  shows "serving_world L (refreshed sock w) \<and> service_at L (refreshed sock w) = service_at L w"
proof -
  note ok = serving_worldD(3)[OF w] and ref = refreshed_ok[OF serving_worldD(3)[OF w], of sock]
  have "service_of L d (smgr (refreshed sock w)) = service_of L d (smgr w)" for d
  proof (cases "GetSession sock (smgr w)")
    case None
    then show ?thesis by (simp add: refreshed_def touch_session_def)
  next
    case (Some p)
    then have "umap_find (cliSessionMap (smgr w)) sock = Some p" by (simp add: GetSession_def)
    from connected_update(3,4)[OF ok this] Some show ?thesis
      by (auto simp: refreshed_def touch_session_def session_touch_heartbeat_def intro!: service_eqI)
  qed
  with w ref show ?thesis by (simp add: serving_world_def service_at_def)
qed

lemma session_user_service: "session_user (smgr w) sock = user_on sock (service_at L w)"
  by (simp add: session_user_def user_on_def service_at_def connected_of_def GetSession_def split: option.splits)

lemma keeps_serving_Dispatch: "keeps (serving_world L) (DispatchRequest L junk sock data)"
  by (intro serving_kept schema.keeps_DispatchRequest[OF refl] memory.keeps_DispatchRequest[OF refl]
      quiet.keeps_DispatchRequest[OF refl] steady.keeps_DispatchRequest[OF refl])

lemma answered_send: "answered L sock (code r)
    (w\<lparr>network := (network w)\<lparr>events := evs @ [Sent sock (PackageMessage (response_json L typ r))]\<rparr>\<rparr>)"
  unfolding answered_def by (rule exI[of _ "typ"], rule exI[of _ r]) simp

lemma length_response: "libs_ok L \<Longrightarrow> length (response_json L typ r) < 1073741824"
  unfolding response_json_def by (rule write_bound)

lemma wp_answer_service:
  assumes w: "serving_world L w"
  shows "wp (answer_request L sock rq) (\<lambda>_ w'. \<exists>c.
      (c, service_at L w') = serve_request L (identify (user_on sock (service_at L w)) rq) (service_at L w)
      \<and> answered L sock c w') w"
proof -
  let ?rq = "identify (user_on sock (service_at L w)) rq"
  have name: "run_state (session_name sock) w = (user_on sock (service_at L w), w)"
    using run_session_name[OF serving_worldD(3)[OF w]] session_user_service by simp
  have keep: "keeps (serving_world L) (call_manager L ?rq)"
    by (intro serving_kept schema.keeps_call_manager[OF refl] memory.keeps_call_manager[OF refl]
        quiet.keeps_call_manager[OF refl] steady.keeps_call_manager[OF refl])
  have "wp (call_manager L ?rq) (\<lambda>r. wp (send_data sock (response_json L (rtype rq) r)) (\<lambda>_ w'. \<exists>c.
      (c, service_at L w') = serve_request L ?rq (service_at L w) \<and> answered L sock c w')) w"
  proof (rule wp_mono[OF wp_keeps[OF keep w refinesD[OF refines_call_manager w]]])
    fix r :: Response and w1
    assume "(code r, service_at L w1) = serve_request L ?rq (service_at L w) \<and> serving_world L w1"
    then show "wp (send_data sock (response_json L (rtype rq) r)) (\<lambda>_ w'. \<exists>c.
        (c, service_at L w') = serve_request L ?rq (service_at L w) \<and> answered L sock c w') w1"
      by (auto simp: calm_wp serving_worldD length_response service_at_def intro!: exI[of _ "code r"] answered_send)
  qed
  then show ?thesis
    using name by (simp add: answer_request_def wp_bind wp_return) (simp add: wp_def)
qed

lemma dispatch_service:
  assumes w: "serving_world L w"
  shows "wp (DispatchRequest L junk sock data) (\<lambda>_ w'.
      case serve_bytes L (junk, sock, data) (service_at L w) of
        (None, s') \<Rightarrow> service_at L w' = s'
      | (Some c, s') \<Rightarrow> service_at L w' = s' \<and> answered L sock c w') w"
proof -
  let ?w = "refreshed sock w"
  note ref = refreshed_service[OF w, of sock]
  have touch: "wp (touch_session sock) Q w \<longleftrightarrow> Q () ?w" for Q
    by (simp add: wp_def run_touch_session)
  show ?thesis
  proof (cases "read_request L junk sock data")
    case None
    have "wp (send_data sock parse_error_text) (\<lambda>_ w'. service_at L w' = service_at L w) w"
      by (simp add: wp_def service_at_def)
    with None ref show ?thesis
      by (auto simp: serve_bytes_def read_request_def DispatchRequest_def wp_bind wp_return touch split: option.splits)
  next
    case (Some rq)
    have "wp (answer_request L sock rq) (\<lambda>_ w'. case serve_bytes L (junk, sock, data) (service_at L w) of
        (None, s') \<Rightarrow> service_at L w' = s'
      | (Some c, s') \<Rightarrow> service_at L w' = s' \<and> answered L sock c w') ?w"
      using Some ref
      by (intro wp_mono[OF wp_answer_service]) (auto simp: serve_bytes_def split: prod.splits)
    moreover obtain doc t node where "json_parse (json_of L) data = Some doc"
      "Option.bind (json_index (json_of L) doc ''type'') (json_string (json_of L)) = Some t"
      "json_index (json_of L) doc ''data'' = Some node"
      "read_fields (json_of L) junk t sock (if is_null node then doc else node) = Some rq"
      using Some by (auto simp: read_request_def split: option.splits)
    ultimately show ?thesis
      by (simp add: DispatchRequest_def wp_bind wp_return touch)
  qed
qed

section \<open>Sequences of requests\<close>

text \<open>The requests that the server handles one after the other: uninitialised memory, socket and bytes.\<close>

definition handle_bytes :: "libs \<Rightarrow> int \<times> int \<times> string \<Rightarrow> world \<Rightarrow> world" where
  "handle_bytes L x w = (case x of (junk, sock, data) \<Rightarrow> snd (run_state (DispatchRequest L junk sock data) w))"

interpretation chat: simulation "handle_bytes L" "\<lambda>x s. snd (serve_bytes L x s)" "service_at L" "serving_world L" for L
proof
  fix w :: world and i :: "int \<times> int \<times> string" assume w: "serving_world L w"
  obtain junk sock data where i: "i = (junk, sock, data)" by (cases i)
  from dispatch_service[OF w, of junk sock data] show "service_at L (handle_bytes L i w) = snd (serve_bytes L i (service_at L w))"
    by (auto simp: wp_def i handle_bytes_def split: prod.splits option.splits)
  show "serving_world L (handle_bytes L i w)"
    using keepsD[OF keeps_serving_Dispatch w] by (simp add: i handle_bytes_def)
qed

lemma keyed_service: "keyed L (service_at L w)"
  by (auto simp: keyed_def service_at_def people_of_def dest: find_Some_in)

lemma account_bytes:
  assumes "has_account k p (service_at L w)"
    and "\<And>rq. read_request L junk sock data = Some rq \<Longrightarrow> MD5Encrypt L (verifyPassword rq) \<noteq> p_hash p"
  shows "has_account k p (snd (serve_bytes L (junk, sock, data) (service_at L w)))"
proof -
  have "verifyPassword (identify n rq) = verifyPassword rq" for n rq by (simp add: identify_def)
  with account_kept[OF keyed_service assms(1)] assms(2) show ?thesis
    using assms(1) by (auto simp: serve_bytes_def case_prod_beta split: option.splits)
qed

section \<open>Requests for the witnesses\<close>

lemma short_serving: "serving_world short_libs demo_world"
proof -
  have "libs_ok short_libs" using demo_digest by (simp add: libs_ok_def min_less_iff_disj)
  then show ?thesis
    using demo_calm demo_sessions_ok demo_db_ok
    by (simp add: serving_world_def service_ready_def demo_server_def)
qed

abbreviation demo_bytes :: string where
  "demo_bytes \<equiv> demo_text [(''type'', ''DEL_FRIEND''), (''username'', ''alice''), (''targetUsername'', ''bob'')]"

lemma demo_read_request: "read_request short_libs 0 6 demo_bytes
    = Some ((demo_request ''alice'' [] 6)\<lparr>rtype := ''DEL_FRIEND'', targetUsername := ''bob''\<rparr>)"
  using demo_read by (simp add: read_request_def demo_parse) (simp add: demo_jsoncpp_def is_null_def)

lemma demo_serve: "serve_bytes short_libs (0, 6, demo_bytes) (service_at short_libs demo_world)
  = (Some 0, (service_at short_libs demo_world)\<lparr>added := {}\<rparr>)"
proof -
  have "user_on 6 (service_at short_libs demo_world) = []"
    using session_user_service[of demo_world 6 short_libs] by simp
  then show ?thesis
    by (simp add: serve_bytes_def demo_read_request identify_def serve_request_def serve_delete_friend_def target_of_def
        service_at_def) (simp add: demo_db_def doubleton_eq_iff letter_of_def service_of_def)
qed

section \<open>Properties\<close>



text \<open>Without faults any sequence of requests, on whatever connections, leaves the server in the state in which
  the chat service is after the same sequence.\<close>

lemma requests_refine:
  assumes "serving_world L w"
  shows "service_at L (fold (handle_bytes L) reqs w) = fold (\<lambda>x s. snd (serve_bytes L x s)) reqs (service_at L w)"
  by (rule chat.run[OF assms])

lemma requests_refine_witness:
  "added (service_at short_libs (fold (handle_bytes short_libs) [(0, 6, demo_bytes)] demo_world)) = {}"
  using requests_refine[OF short_serving, of "[(0, 6, demo_bytes)]"] by (simp add: demo_serve)




end
