(* ===== verification/Chat_Security.thy ===== *)
theory Chat_Security
  imports Chat_Refinement
begin

text \<open>
  Who may do what, over whole sequences of requests: how a connection gets a user, and how a message gets
  lost.  Both are read backwards from the state at the end to the request that is responsible, first for
  the operations of the chat service (theory \<open>Chat_Service\<close>), then by the simulation \<open>chat\<close> for the
  server.
\<close>

section \<open>How a connection gets a user\<close>

lemma user_on_simps [simp]:
  "user_on sock (put_person L p s) = user_on sock s" "user_on sock (hand_over L n s) = user_on sock s"
  "user_on sock (s\<lparr>next_id := i\<rparr>) = user_on sock s" "user_on sock (s\<lparr>added := a\<rparr>) = user_on sock s"
  "user_on sock (s\<lparr>letters := ls\<rparr>) = user_on sock s" "user_on sock (drop_person L p s) = user_on sock s"
  "user_on sock (read_letters P s) = user_on sock s"
  by (simp_all add: user_on_def put_person_def drop_person_def hand_over_def read_letters_def split: option.splits)

lemma user_on_end: "user_on sock (end_session n s) \<in> {user_on sock s, []}"
  by (simp add: user_on_def end_session_def split: option.splits)

lemma user_on_begin:
  "user_on sock (begin_session sock' n s) = user_on sock s \<or> sock = sock' \<and> user_on sock (begin_session sock' n s) = n"
  by (auto simp: user_on_def begin_session_def split: option.splits)

lemma user_on_serve:
  assumes "user_on sock (snd (serve_request L rq s)) \<noteq> user_on sock s" and "user_on sock (snd (serve_request L rq s)) \<noteq> []"
  shows "rtype rq = ''LOGIN'' \<and> clientSocket rq = sock \<and> rusername rq = user_on sock (snd (serve_request L rq s))
    \<and> (\<exists>p. find_person L (rusername rq) s = Some p \<and> p_hash p = MD5Encrypt L (rpassword rq))"
proof -
  have still: "user_on sock (snd (serve_register L rq s)) = user_on sock s" "user_on sock (snd (serve_update L rq s)) = user_on sock s"
    "user_on sock (snd (serve_add_friend L rq s)) = user_on sock s" "user_on sock (snd (serve_delete_friend L rq s)) = user_on sock s"
    "user_on sock (snd (serve_send L rq s)) = user_on sock s"
    by (auto simp: serve_register_def serve_update_def serve_add_friend_def serve_delete_friend_def serve_send_def Let_def
        split: option.splits)
  then have login: "rtype rq = ''LOGIN''" and serve: "serve_request L rq s = serve_login L rq s"
    using assms(1) by (auto simp: serve_request_def split: if_splits)
  have same: "user_on sock (snd (serve_login L rq s)) = user_on sock (snd (admit L rq s))"
    by (simp add: serve_login_def case_prod_beta)
  obtain p where p: "find_person L (rusername rq) s = Some p" "p_hash p = MD5Encrypt L (rpassword rq)"
    and out: "snd (admit L rq s) = begin_session (clientSocket rq) (rusername rq)
      ((if p_online p then end_session (rusername rq) else id) (put_person L (p\<lparr>p_online := True\<rparr>) s))"
    using assms(1) unfolding serve same by (auto simp: admit_def split: option.splits if_splits)
  let ?s1 = "(if p_online p then end_session (rusername rq) else id) (put_person L (p\<lparr>p_online := True\<rparr>) s)"
  have "user_on sock ?s1 \<in> {user_on sock s, []}"
    using user_on_end[of sock "rusername rq" "put_person L (p\<lparr>p_online := True\<rparr>) s"] by auto
  with user_on_begin[of sock "clientSocket rq" "rusername rq" ?s1] assms login p show ?thesis
    unfolding serve same out by auto
qed

section \<open>Conversations\<close>

text \<open>A letter stays as it is, but it may be read.\<close>

definition kept_letter :: "letter \<Rightarrow> letter \<Rightarrow> bool" where
  "kept_letter l l' \<longleftrightarrow> (\<exists>b. l' = l\<lparr>l_read := b\<rparr> \<and> (l_read l \<longrightarrow> b))"

definition grown :: "letter list \<Rightarrow> letter list \<Rightarrow> bool" where
  "grown xs ys \<longleftrightarrow> (\<exists>zs us. ys = zs @ us \<and> list_all2 kept_letter xs zs)"

text \<open>The letters between two users, of the service and of the tables.\<close>

definition conv :: "int \<Rightarrow> int \<Rightarrow> service \<Rightarrow> letter list" where
  "conv a b s = filter (\<lambda>l. {l_from l, l_to l} = {a, b}) (letters s)"

definition conversation :: "int \<Rightarrow> int \<Rightarrow> database \<Rightarrow> letter list" where
  "conversation a b d = map letter_of (filter (between a b) (messages d))"

lemma kept_letter_refl: "kept_letter l l"
  unfolding kept_letter_def by (intro exI[of _ "l_read l"]) simp

lemma kept_letter_trans: "kept_letter l m \<Longrightarrow> kept_letter m n \<Longrightarrow> kept_letter l n"
  by (auto simp: kept_letter_def)

lemma grown_refl: "grown xs xs"
  unfolding grown_def by (intro exI[of _ xs] exI[of _ "[]"]) (simp add: list_all2_refl kept_letter_refl)

lemma grown_trans:
  assumes "grown xs ys" and "grown ys zs"
  shows "grown xs zs"
proof -
  obtain ys1 us where ys: "ys = ys1 @ us" "list_all2 kept_letter xs ys1" using assms(1) by (auto simp: grown_def)
  obtain zs1 vs where zs: "zs = zs1 @ vs" "list_all2 kept_letter ys zs1" using assms(2) by (auto simp: grown_def)
  from ys zs obtain zs2 us2 where "zs1 = zs2 @ us2" "list_all2 kept_letter ys1 zs2" by (auto simp: list_all2_append1)
  with ys zs show ?thesis
    unfolding grown_def by (intro exI[of _ zs2] exI[of _ "us2 @ vs"]) (auto intro: list_all2_trans[OF kept_letter_trans])
qed

lemma grown_append: "grown xs (xs @ us)"
  unfolding grown_def by (intro exI[of _ xs] exI[of _ us]) (simp add: list_all2_refl kept_letter_refl)

lemma grown_read: "grown xs (map (\<lambda>l. if P l then l\<lparr>l_read := True\<rparr> else l) xs)"
proof -
  have "kept_letter l (if P l then l\<lparr>l_read := True\<rparr> else l)" for l
    using kept_letter_refl[of l] by (auto simp: kept_letter_def)
  then have "list_all2 kept_letter xs (map (\<lambda>l. if P l then l\<lparr>l_read := True\<rparr> else l) xs)"
    unfolding list_all2_map2 by (rule list_all2_refl)
  then show ?thesis unfolding grown_def by (intro exI conjI) (auto intro: append_Nil2[symmetric])
qed

lemma conv_read_letters: "grown (conv a b s) (conv a b (read_letters P s))"
proof -
  have "conv a b (read_letters P s) = map (\<lambda>l. if P l then l\<lparr>l_read := True\<rparr> else l) (conv a b s)"
    by (simp add: conv_def read_letters_def filter_map comp_def if_distrib[of l_from] if_distrib[of l_to] cong: if_cong)
  then show ?thesis by (simp add: grown_read)
qed

lemma conv_simps:
  "letters t = letters s \<Longrightarrow> conv a b t = conv a b s"
  by (simp add: conv_def)

lemma letters_simps [simp]:
  "letters (put_person L p s) = letters s" "letters (drop_person L p s) = letters s"
  "letters (begin_session sock n s) = letters s" "letters (end_session n s) = letters s"
  by (simp_all add: put_person_def drop_person_def begin_session_def end_session_def split: option.splits)

lemma conv_hand_over: "grown (conv a b s) (conv a b (hand_over L n s))"
  by (simp add: hand_over_def conv_read_letters grown_refl split: option.splits)

lemma conv_login: "grown (conv a b s) (conv a b (snd (serve_login L rq s)))"
proof -
  have "letters (snd (admit L rq s)) = letters s"
    by (auto simp: admit_def split: option.splits)
  then have "conv a b (snd (admit L rq s)) = conv a b s" by (rule conv_simps)
  with conv_hand_over[of a b "snd (admit L rq s)" L "rusername rq"] show ?thesis
    by (auto simp: serve_login_def case_prod_beta grown_refl)
qed

lemma conv_send: "grown (conv a b s) (conv a b (snd (serve_send L rq s)))"
proof -
  have "grown (conv a b s) (conv a b (s\<lparr>letters := letters s @ ls\<rparr>))" for ls
    by (simp add: conv_def grown_append)
  with grown_trans[OF this conv_read_letters] show ?thesis
    by (auto simp: serve_send_def Let_def grown_refl split: option.splits)
qed

lemma conv_deleted:
  assumes "\<not> grown (conv a b s) (conv a b (snd (serve_request L rq s)))"
  shows "rtype rq = ''DEL_FRIEND'' \<and> (\<exists>p q. find_person L (rusername rq) s = Some p \<and> find_person L (target_of rq) s = Some q
     \<and> (p_id p, p_id q) \<in> added s \<and> {p_id p, p_id q} = {a, b})"
proof -
  have "letters (snd (serve_register L rq s)) = letters s" "letters (snd (serve_update L rq s)) = letters s"
    "letters (snd (serve_add_friend L rq s)) = letters s"
    by (auto simp: serve_register_def serve_update_def serve_add_friend_def Let_def split: option.splits)
  note still = this[THEN conv_simps, of a b]
  have del: "rtype rq = ''DEL_FRIEND''" and serve: "serve_request L rq s = serve_delete_friend L rq s"
    using assms conv_login[of a b s L rq] conv_send[of a b s L rq] grown_refl[of "conv a b s"]
    by (auto simp: serve_request_def still split: if_splits)
  then obtain p q where pq: "find_person L (rusername rq) s = Some p" "find_person L (target_of rq) s = Some q"
      "(p_id p, p_id q) \<in> added s"
    and out: "letters (snd (serve_request L rq s)) = filter (\<lambda>l. {l_from l, l_to l} \<noteq> {p_id p, p_id q}) (letters s)"
    using assms grown_refl[of "conv a b s"] unfolding serve
    by (auto simp: serve_delete_friend_def split: option.splits if_splits)
  have "{p_id p, p_id q} = {a, b}"
  proof (rule ccontr)
    assume other: "{p_id p, p_id q} \<noteq> {a, b}"
    have "conv a b (snd (serve_request L rq s)) = conv a b s"
      unfolding conv_def out filter_filter by (rule filter_cong) (use other in auto)
    with assms grown_refl show False by simp
  qed
  with del pq show ?thesis by blast
qed

lemma conversation_service: "conversation a b (dbase w) = conv a b (service_at L w)"
  by (auto simp: conversation_def conv_def service_at_def filter_map comp_def between_def doubleton_eq_iff
      intro!: arg_cong[of _ _ "map letter_of"] filter_cong)

section \<open>Requests for the witnesses\<close>

abbreviation demo_login :: string where
  "demo_login \<equiv> demo_text [(''type'', ''LOGIN''), (''username'', ''alice''), (''password'', ''secret1'')]"

lemma demo_read_login: "read_request short_libs 0 6 demo_login
    = Some ((demo_request ''alice'' ''secret1'' 6)\<lparr>rtype := ''LOGIN''\<rparr>)"
proof -
  have "json_parse demo_jsoncpp demo_login
      = Some (JObj [(''type'', JStr ''LOGIN''), (''username'', JStr ''alice''), (''password'', JStr ''secret1'')])"
    by (simp add: demo_text_def demo_jsoncpp_def)
  then show ?thesis
    by (simp add: read_request_def) (simp add: read_fields_def get_string_def get_int_def demo_jsoncpp_def demo_request_def is_null_def)
qed

lemma demo_secret: "MD5Encrypt short_libs ''secret1'' = u_hash alice"
proof -
  have "MD5Encrypt short_libs p = MD5Encrypt demo_libs p" for p by (simp add: MD5Encrypt_def)
  then show ?thesis by simp
qed

lemma demo_serve_login: "user_on 6 (snd (serve_bytes short_libs (0, 6, demo_login) (service_at short_libs demo_world))) = ''alice''"
proof -
  have "user_on 6 (service_at short_libs demo_world) = []"
    using session_user_service[of demo_world 6 short_libs] by simp
  moreover have "user_on 6 (begin_session 6 ''alice'' (end_session ''alice'' s)) = ''alice''" if "connected s 6 \<noteq> None" for s
    using that by (auto simp: user_on_def begin_session_def end_session_def split: option.splits)
  moreover have "connected_of demo_sessions 6 \<noteq> None" by (simp add: connected_of_def)
  ultimately show ?thesis
    by (simp add: serve_bytes_def demo_read_login identify_def serve_request_def serve_login_def admit_def
        service_at_def demo_secret put_person_def)
qed

definition demo_mail :: world where
  "demo_mail = demo_world\<lparr>dbase := demo_db\<lparr>next_message_id := 3, messages := messages demo_db @
     [\<lparr>m_id = 2, m_sender = 1, m_receiver = 2, m_content = ''yo'', m_time = 6, m_read = True\<rparr>]\<rparr>\<rparr>"

lemma demo_mail_serving: "serving_world short_libs demo_mail"
proof -
  have "messages_ok (dbase demo_mail)"
    by (simp add: demo_mail_def demo_eval messages_ok_def user_exists_def text_fits_def)
  with short_serving show ?thesis
    by (simp add: serving_world_def db_ok_def demo_mail_def users_ok_def friends_ok_def user_exists_def)
qed

lemma demo_mail_serve: "letters (snd (serve_bytes short_libs (0, 6, demo_bytes) (service_at short_libs demo_mail)))
  = map letter_of (messages demo_db)"
proof -
  have "user_on 6 (service_at short_libs demo_mail) = []"
    using session_user_service[of demo_mail 6 short_libs] by (simp add: demo_mail_def)
  moreover have "sql_user_by_name Q n (demo_db\<lparr>next_message_id := i, messages := ms\<rparr>) = sql_user_by_name Q n demo_db" for Q n i ms
    by (simp add: sql_user_by_name_def)
  ultimately show ?thesis
    by (simp add: serve_bytes_def demo_read_request identify_def serve_request_def serve_delete_friend_def target_of_def
        service_at_def demo_mail_def) (simp add: demo_db_def doubleton_eq_iff letter_of_def)
qed

section \<open>Properties\<close>






end
