(* ===== verification/Server_Threads.thy ===== *)
theory Server_Threads
  imports Server_System
begin

text \<open>
  The threads of \<^verbatim>\<open>src/src/connection/server.cpp\<close> statement by statement.  The steps of \<open>Server_System\<close> are
  whole rounds; here a round of the heartbeat thread, the end of a client's task, the exception handler of
  a task and the loop of \<open>Stop\<close> are programs of atomic actions --- one getter, one manager function, one
  socket call, one change of the counter --- and the actions of all threads interleave.  Accepting a connection and
  serving one request stay single steps.  Shown: what every interleaving keeps, and that a thread that is not
  interfered with does what the rounds of the theory \<open>Server\<close> do.
\<close>

section \<open>Threads\<close>

text \<open>A thread is what it still has to do: the next atomic action, and what follows in the state it finds.\<close>

datatype thread = Done | Atom "world \<Rightarrow> world" "world \<Rightarrow> thread"

definition atom :: "'a act \<Rightarrow> ('a \<Rightarrow> thread) \<Rightarrow> thread" where
  "atom m k = Atom (\<lambda>w. snd (run_state m w)) (\<lambda>w. k (fst (run_state m w)))"

primrec run_thread :: "thread \<Rightarrow> world \<Rightarrow> world" where
  "run_thread Done = (\<lambda>w. w)"
| "run_thread (Atom f k) = (\<lambda>w. run_thread (k w) (f w))"

primrec thread_keeps :: "(world \<Rightarrow> bool) \<Rightarrow> thread \<Rightarrow> bool" where
  "thread_keeps I Done = True"
| "thread_keeps I (Atom f k) = ((\<forall>w. I w \<longrightarrow> I (f w)) \<and> (\<forall>w. thread_keeps I (k w)))"

text \<open>
  What \<open>HandleClient\<close> and the heartbeat thread do for a user that leaves, reading the name anew for every
  call, and the removal of the session.
\<close>

definition depart_thread :: "libs \<Rightarrow> nat \<Rightarrow> thread \<Rightarrow> thread" where
  "depart_thread L p rest =
     atom (session_get p GetUsername) (\<lambda>name. atom (UpdateUserOnlineStatus L name False) (\<lambda>_.
     atom (session_get p GetUsername) (\<lambda>name. atom (NotifyFriendsStatusChange L name Offline) (\<lambda>_.
     atom (gets (\<lambda>w. has_friendManager (server w))) (\<lambda>friendMgr.
       if friendMgr
       then atom (session_get p GetUsername) (\<lambda>name. atom (RemoveFriendCache name) (\<lambda>_. rest))
       else rest)))))"

definition forget_thread :: "int \<Rightarrow> thread \<Rightarrow> thread" where
  "forget_thread sock rest = atom (remove_session sock) (\<lambda>_. atom (count_connections (-1)) (\<lambda>_. rest))"

text \<open>One entry of the snapshot of \<open>HeartbeatCheckThread\<close>; the name is also read for the log and for the console.\<close>

definition heartbeat_entry :: "libs \<Rightarrow> int \<Rightarrow> int \<times> nat \<Rightarrow> thread \<Rightarrow> thread" where
  "heartbeat_entry L currentTime entry rest = (case entry of (sock, p) \<Rightarrow>
     atom (session_get p GetIsConnected) (\<lambda>connected. if \<not> connected then rest else
     atom (session_get p GetUsername) (\<lambda>name. if name = [] then rest else
     atom (session_get p GetLastHeartbeat) (\<lambda>beat. if \<not> 600 < currentTime - beat then rest else
     atom (session_get p GetUsername) (\<lambda>_. atom (session_get p GetUsername) (\<lambda>_.
     depart_thread L p (atom (shutdown_socket sock) (\<lambda>_. forget_thread sock rest))))))))"

primrec heartbeat_entries :: "libs \<Rightarrow> int \<Rightarrow> (int \<times> nat) list \<Rightarrow> thread" where
  "heartbeat_entries L currentTime [] = Done"
| "heartbeat_entries L currentTime (e # es) = heartbeat_entry L currentTime e (heartbeat_entries L currentTime es)"

definition heartbeat_thread :: "libs \<Rightarrow> thread" where
  "heartbeat_thread L =
     atom (gets (\<lambda>w. GetAllSessions (smgr w))) (\<lambda>all.
     atom (gets now) (\<lambda>currentTime. heartbeat_entries L currentTime all))"

text \<open>The end of \<open>HandleClient\<close>, and its exception handler.\<close>

definition end_thread :: "libs \<Rightarrow> int \<Rightarrow> thread" where
  "end_thread L sock =
     atom (get_session sock) (\<lambda>session.
       let close = atom (close_socket sock) (\<lambda>_. Done) in
       case session of
         None \<Rightarrow> close
       | Some p \<Rightarrow> atom (session_get p GetUsername) (\<lambda>name.
           if name \<noteq> [] then depart_thread L p (forget_thread sock close) else forget_thread sock close))"

definition throw_forget :: "libs \<Rightarrow> int \<Rightarrow> thread" where
  "throw_forget L sock =
     atom (get_session sock) (\<lambda>session. case session of
         None \<Rightarrow> Done
       | Some p \<Rightarrow> atom (session_get p GetUsername) (\<lambda>name.
           atom (gets (\<lambda>w. has_userManager (server w))) (\<lambda>userMgr.
             if name \<noteq> [] \<and> userMgr
             then atom (session_get p GetUsername) (\<lambda>name. atom (UpdateUserOnlineStatus L name False) (\<lambda>_.
                    forget_thread sock Done))
             else forget_thread sock Done)))"

definition throw_thread :: "libs \<Rightarrow> int \<Rightarrow> thread" where
  "throw_thread L sock =
     atom (gets (\<lambda>w. has_exceptionHandler (server w))) (\<lambda>handler.
     atom (if handler then HandleClientException sock else close_socket sock) (\<lambda>_. throw_forget L sock))"

text \<open>The loop of \<open>Stop\<close> over the sessions, and what follows it; the joins come before.\<close>

definition stop_entry :: "libs \<Rightarrow> int \<times> nat \<Rightarrow> thread \<Rightarrow> thread" where
  "stop_entry L entry rest = (case entry of (sock, p) \<Rightarrow>
     let shut = atom (session_get p GetSocket) (\<lambda>s.
           if s = -1 then rest
           else atom (session_get p GetSocket) (\<lambda>s. atom (shutdown_socket s) (\<lambda>_. rest)))
     in atom (session_get p GetUsername) (\<lambda>name. atom (gets (\<lambda>w. has_userManager (server w))) (\<lambda>userMgr.
          if name \<noteq> [] \<and> userMgr
          then atom (session_get p GetUsername) (\<lambda>name. atom (UpdateUserOnlineStatus L name False) (\<lambda>_.
               atom (gets (\<lambda>w. has_friendManager (server w))) (\<lambda>friendMgr.
                 if friendMgr
                 then atom (session_get p GetUsername) (\<lambda>name. atom (RemoveFriendCache name) (\<lambda>_. shut))
                 else shut)))
          else shut)))"

primrec stop_entries :: "libs \<Rightarrow> (int \<times> nat) list \<Rightarrow> thread \<Rightarrow> thread" where
  "stop_entries L [] rest = rest"
| "stop_entries L (e # es) rest = stop_entry L e (stop_entries L es rest)"

definition stop_thread :: "libs \<Rightarrow> thread" where
  "stop_thread L =
     (let close = atom (gets (\<lambda>w. serverSocket (server w))) (\<lambda>s.
            if s = -1 then Done
            else atom (shutdown_socket s) (\<lambda>_. atom (close_socket s) (\<lambda>_.
                 atom (set_server (\<lambda>sv. sv\<lparr>serverSocket := -1\<rparr>)) (\<lambda>_. Done))))
      in atom (gets (\<lambda>w. has_sessionManager (server w))) (\<lambda>sessionMgr.
           if sessionMgr
           then atom (gets (\<lambda>w. GetAllSessions (smgr w))) (\<lambda>all. stop_entries L all close)
           else close))"

section \<open>The interleaved server\<close>

text \<open>
  The shared state, the sockets whose tasks are in their loop, the tasks that end, the heartbeat thread, \<open>Stop\<close>, and the
  descriptors that are open.  The kernel gives \<open>accept\<close> any descriptor that is not open, so a closed one may come
  back.  \<open>race_signal\<close> is the first statement of \<open>Stop\<close>, which may run in a signal handler at any time; \<open>Stop\<close> then waits
  for the heartbeat thread.
\<close>

record races =
  shared :: world
  looping :: "int list"
  ending :: "(int \<times> thread) list"
  beating :: thread
  stopping :: thread
  open_fds :: "int set"

definition closed_since :: "world \<Rightarrow> world \<Rightarrow> int set" where
  "closed_since w w' = {sock. Closed sock \<in> set (drop (length (events (network w))) (events (network w')))}"

definition moved :: "world \<Rightarrow> races \<Rightarrow> races" where
  "moved w s = s\<lparr>shared := w, open_fds := open_fds s - closed_since (shared s) w\<rparr>"

definition race_init :: "world \<Rightarrow> races" where
  "race_init w = \<lparr>shared = w, looping = [], ending = [], beating = Done, stopping = Done, open_fds = {serverSocket (server w)}\<rparr>"

lemma race_init_simps [simp]:
  "shared (race_init w) = w" "looping (race_init w) = []" "ending (race_init w) = []" "beating (race_init w) = Done"
  "stopping (race_init w) = Done"
  by (simp_all add: race_init_def)

inductive race_step :: "libs \<Rightarrow> races \<Rightarrow> races \<Rightarrow> bool" for L where
  race_accept: "running (server (shared s)) \<Longrightarrow> 0 \<le> sock \<Longrightarrow> sock \<notin> open_fds s
     \<Longrightarrow> run_state (accept_round (Accepted sock addr prt)) (shared s) = (r, w)
     \<Longrightarrow> race_step L s (moved w (s\<lparr>looping := (if r = Submit sock then sock # looping s else looping s),
                                   open_fds := insert sock (open_fds s)\<rparr>))"
| race_serve: "sock \<in> set (looping s) \<Longrightarrow> run_state (client_round L junk sock) (shared s) = (Served, w)
     \<Longrightarrow> race_step L s (moved w s)"
| race_end: "sock \<in> set (looping s) \<Longrightarrow> run_state (client_round L junk sock) (shared s) = (Ended, w)
     \<Longrightarrow> race_step L s (moved w (s\<lparr>looping := remove1 sock (looping s),
                                   ending := (sock, end_thread L sock) # ending s\<rparr>))"
| race_throw: "sock \<in> set (looping s) \<Longrightarrow> run_state (client_round L junk sock) (shared s) = (Threw, w)
     \<Longrightarrow> race_step L s (moved w (s\<lparr>looping := remove1 sock (looping s),
                                   ending := (sock, throw_thread L sock) # ending s\<rparr>))"
| race_ending: "ending s = xs @ (sock, Atom f k) # ys
     \<Longrightarrow> race_step L s (moved (f (shared s)) (s\<lparr>ending := xs @ (sock, k (shared s)) # ys\<rparr>))"
| race_ended: "ending s = xs @ (sock, Done) # ys \<Longrightarrow> race_step L s (s\<lparr>ending := xs @ ys\<rparr>)"
| race_heartbeat: "running (server (shared s)) \<Longrightarrow> beating s = Done
     \<Longrightarrow> race_step L s (s\<lparr>beating := heartbeat_thread L\<rparr>)"
| race_beating: "beating s = Atom f k
     \<Longrightarrow> race_step L s (moved (f (shared s)) (s\<lparr>beating := k (shared s)\<rparr>))"
| race_signal: "race_step L s (s\<lparr>shared := (shared s)\<lparr>server := (server (shared s))\<lparr>running := False\<rparr>\<rparr>\<rparr>)"
| race_stop: "\<not> running (server (shared s)) \<Longrightarrow> beating s = Done \<Longrightarrow> stopping s = Done
     \<Longrightarrow> race_step L s (s\<lparr>stopping := stop_thread L\<rparr>)"
| race_stopping: "stopping s = Atom f k
     \<Longrightarrow> race_step L s (moved (f (shared s)) (s\<lparr>stopping := k (shared s)\<rparr>))"
| race_monitor: "run_state (CollectStatus L usage) (shared s) = (report, w) \<Longrightarrow> race_step L s (moved w s)"
| race_environment: "now (shared s) \<le> t
     \<Longrightarrow> race_step L s (s\<lparr>shared := (shared s)\<lparr>now := t, inbox := ib\<rparr>\<rparr>)"

inductive race_reachable :: "libs \<Rightarrow> world \<Rightarrow> races \<Rightarrow> bool" for L w0 where
  race_start: "run_state (Start env) w0 = (True, w)
     \<Longrightarrow> race_reachable L w0 (race_init w)"
| race_next: "race_reachable L w0 s \<Longrightarrow> race_step L s s' \<Longrightarrow> race_reachable L w0 s'"

section \<open>What every interleaving keeps\<close>

lemma thread_keeps_atom: "keeps I m \<Longrightarrow> (\<And>x. thread_keeps I (k x)) \<Longrightarrow> thread_keeps I (atom m k)"
  by (simp add: atom_def keepsD)

definition mem_ok :: "sessions \<Rightarrow> bool" where
  "mem_ok st \<longleftrightarrow> ub st \<or> sessions_ok st"

lemma mem_ok_touch: "mem_ok st \<Longrightarrow> mem_ok (touch p st)"
  by (auto simp: mem_ok_def touch_def)

lemma mem_ok_update:
  assumes "mem_ok st" and "\<And>c. socket (f c) = socket c"
  shows "mem_ok (update_at p f st)"
proof (cases "heap st p")
  case None
  then show ?thesis by (simp add: mem_ok_def update_at_def)
next
  case (Some c)
  with assms show ?thesis
    by (fastforce simp: mem_ok_def update_at_def sessions_ok_def)
qed

lemma mem_ok_bind: "mem_ok st \<Longrightarrow> mem_ok (BindUsername sock n st)"
  by (auto simp: mem_ok_def sessions_ok_BindUsername) (simp add: BindUsername_def)

lemma mem_ok_remove: "mem_ok st \<Longrightarrow> mem_ok (RemoveSession sock st)"
  by (auto simp: mem_ok_def sessions_ok_RemoveSession)
    (auto simp: RemoveSession_def Let_def delete_at_def touch_def split: option.splits)

lemma mem_ok_add: "mem_ok st \<Longrightarrow> mem_ok (AddSession sock (next_ptr st) (snd (alloc (ClientSession_new t sock a q) st)))"
  by (auto simp: mem_ok_def sessions_ok_AddSession)
    (simp add: AddSession_def Let_def touch_def)

definition race_ok :: "mysql \<Rightarrow> nat multiset \<Rightarrow> int \<Rightarrow> world \<Rightarrow> bool" where
  "race_ok Q M K w \<longleftrightarrow> db_ok Q (dbase w) \<and> mset (connectionPool (dbm w)) = M \<and> mem_ok (smgr w)
     \<and> currentConnections (server w) \<le> K \<and> maxConnections (server w) = K"

lemma race_ok_simps [simp]:
  "race_ok Q M K (w\<lparr>network := ns\<rparr>) = race_ok Q M K w" "race_ok Q M K (w\<lparr>cachedFriendLists := c\<rparr>) = race_ok Q M K w"
  "race_ok Q M K (w\<lparr>server := (server w)\<lparr>running := b\<rparr>\<rparr>) = race_ok Q M K w"
  "race_ok Q M K (w\<lparr>now := t\<rparr>) = race_ok Q M K w" "race_ok Q M K (w\<lparr>inbox := ib\<rparr>) = race_ok Q M K w"
  by (simp_all add: race_ok_def)

interpretation racing: handler_inv Q "race_ok Q M K" UNIV for Q M K
proof unfold_locales
  show "keeps (race_ok Q M K) (dao_update stmt)" if "is_update Q stmt" for stmt
    using keepsD[OF schema.keeps_update[OF that]] keepsD[OF pool.keeps_update[OF that]]
    by (intro keepsI) (simp add: race_ok_def run_dao_update_world)
  show "keeps (race_ok Q M K) (dao_query (\<lambda>_. ()))"
    by (intro keepsI) (simp add: race_ok_def run_dao_query_world dao_pool_kept)
  show "keeps (race_ok Q M K) (send_data sock data)" for sock data
    by (intro keepsI) (simp add: send_data_def case_prod_beta)
qed (auto intro!: keepsI hoareI simp: race_ok_def mem_ok_touch mem_ok_update mem_ok_bind
    session_get_def session_set_def bind_username_def cache_put_def cache_erase_def get_session_def
    get_session_by_username_def shutdown_socket_def)

lemma thread_keeps_Done: "thread_keeps I Done"
  by simp

lemma thread_keeps_if: "(b \<Longrightarrow> thread_keeps I t) \<Longrightarrow> (\<not> b \<Longrightarrow> thread_keeps I u) \<Longrightarrow> thread_keeps I (if b then t else u)"
  by simp

lemma thread_keeps_option:
  "(x = None \<Longrightarrow> thread_keeps I t) \<Longrightarrow> (\<And>y. x = Some y \<Longrightarrow> thread_keeps I (u y))
    \<Longrightarrow> thread_keeps I (case x of None \<Rightarrow> t | Some y \<Rightarrow> u y)"
  by (cases x) auto

lemma race_ok_sockets:
  "keeps (race_ok Q M K) (close_socket sock)" "keeps (race_ok Q M K) (HandleClientException sock)"
  "keeps (race_ok Q M K) (remove_session sock)" "keeps (race_ok Q M K) (count_connections (-1))"
  "keeps (race_ok Q M K) (get_session sock)" "keeps (race_ok Q M K) (set_server (\<lambda>sv. sv\<lparr>serverSocket := i\<rparr>))"
  by (auto intro!: keepsI simp: race_ok_def close_socket_def HandleClientException_def remove_session_def
      count_connections_def set_server_def mem_ok_remove get_session_def)

lemmas race_keeps = thread_keeps_atom thread_keeps_if thread_keeps_option thread_keeps_Done race_ok_sockets
  keeps_gets keeps_if racing.keeps_session_get[OF UNIV_I] racing.keeps_user_manager[OF refl]
  racing.keeps_RemoveFriendCache racing.keeps_shutdown

lemma race_keeps_depart:
  "thread_keeps (race_ok (mysql_of L) M K) rest \<Longrightarrow> thread_keeps (race_ok (mysql_of L) M K) (depart_thread L p rest)"
  unfolding depart_thread_def by (intro race_keeps)

lemma race_keeps_forget:
  "thread_keeps (race_ok Q M K) rest \<Longrightarrow> thread_keeps (race_ok Q M K) (forget_thread sock rest)"
  unfolding forget_thread_def by (intro race_keeps)

lemma race_keeps_heartbeat: "thread_keeps (race_ok (mysql_of L) M K) (heartbeat_thread L)"
proof -
  have "thread_keeps (race_ok (mysql_of L) M K) (heartbeat_entries L t es)" for t es
  proof (induction es)
    case (Cons e es)
    then show ?case
      by (cases e) (auto simp: heartbeat_entry_def intro!: race_keeps race_keeps_depart race_keeps_forget)
  qed simp
  then show ?thesis unfolding heartbeat_thread_def by (intro race_keeps)
qed

lemma race_keeps_client:
  "thread_keeps (race_ok (mysql_of L) M K) (end_thread L sock)"
  "thread_keeps (race_ok (mysql_of L) M K) (throw_thread L sock)"
  unfolding end_thread_def throw_thread_def throw_forget_def Let_def
  by (intro race_keeps race_keeps_depart race_keeps_forget)+

lemma race_keeps_stop_entries:
  "thread_keeps (race_ok (mysql_of L) M K) rest \<Longrightarrow> thread_keeps (race_ok (mysql_of L) M K) (stop_entries L es rest)"
proof (induction es)
  case (Cons e es)
  then show ?case
    by (cases e) (auto simp: stop_entry_def Let_def intro!: race_keeps)
qed simp

lemma race_keeps_stop: "thread_keeps (race_ok (mysql_of L) M K) (stop_thread L)"
  unfolding stop_thread_def Let_def by (intro race_keeps race_keeps_stop_entries)

lemma race_ok_accept:
  assumes "race_ok Q M K w" and "run_state (accept_round (Accepted sock addr prt)) w = (r, w')"
  shows "race_ok Q M K w'"
  using assms
  by (auto simp: accept_round_def raw_send_def close_socket_def new_session_def count_connections_def set_server_def
      case_prod_beta race_ok_def mem_ok_add split: if_splits)

lemma race_ok_round:
  assumes "race_ok (mysql_of L) M K w" and "run_state (client_round L junk sock) w = (r, w')"
  shows "race_ok (mysql_of L) M K w'"
proof -
  have "keeps (race_ok (mysql_of L) M K) (receive_data (fst junk) sock)"
    by (rule keepsI) (simp add: receive_data_def case_prod_beta)
  then have "keeps (race_ok (mysql_of L) M K) (client_round L junk sock)"
    unfolding client_round_def
    by (intro keeps_bind keeps_intros racing.keeps_DispatchRequest[OF refl])
  from keepsD[OF this assms(1)] assms(2) show ?thesis by simp
qed

definition race_inv :: "libs \<Rightarrow> nat multiset \<Rightarrow> int \<Rightarrow> races \<Rightarrow> bool" where
  "race_inv L M K s \<longleftrightarrow> race_ok (mysql_of L) M K (shared s)
     \<and> (\<forall>(sock, t)\<in>set (ending s). thread_keeps (race_ok (mysql_of L) M K) t)
     \<and> thread_keeps (race_ok (mysql_of L) M K) (beating s) \<and> thread_keeps (race_ok (mysql_of L) M K) (stopping s)"

lemma moved_simps [simp]:
  "shared (moved w s) = w" "looping (moved w s) = looping s" "ending (moved w s) = ending s"
  "beating (moved w s) = beating s" "stopping (moved w s) = stopping s"
  by (simp_all add: moved_def)

lemma race_inv_step:
  assumes "race_inv L M K s" and "race_step L s s'"
  shows "race_inv L M K s'"
  using assms(2)
proof cases
  case (race_monitor usage report w)
  with assms(1) collect_keeps_pool[of L usage "shared s"] collect_world[of L usage "shared s"]
  show ?thesis by (simp add: race_inv_def race_ok_def)
qed (use assms(1) in \<open>auto simp: race_inv_def race_keeps_client race_keeps_heartbeat race_keeps_stop
    intro: race_ok_accept race_ok_round\<close>)

lemma Start_world:
  assumes "run_state (Start env) w0 = (True, w)"
  shows "smgr w = SessionManager_new" "running (server w)"
  using assms by (auto simp: Start_def create_managers_def set_server_def close_socket_def split: if_splits)

lemma race_inv_reachable:
  assumes "race_reachable L w0 s" and "db_ok (mysql_of L) (dbase w0)"
    and "currentConnections (server w0) \<le> maxConnections (server w0)"
  shows "race_inv L (mset (connectionPool (dbm w0))) (maxConnections (server w0)) s"
  using assms
proof induction
  case (race_start env w)
  then show ?case
    using Start_world[of env w0 w] sessions_ok_new
    by (auto simp: race_inv_def race_ok_def mem_ok_def) 
      (auto simp: Start_def create_managers_def set_server_def close_socket_def split: if_splits)
next
  case (race_next s s')
  then show ?case using race_inv_step by blast
qed

section \<open>Threads that run alone\<close>

text \<open>\<open>leads t w t' w'\<close>: without interference the thread comes from \<open>t\<close> in \<open>w\<close> to \<open>t'\<close> in \<open>w'\<close>.\<close>

inductive leads :: "thread \<Rightarrow> world \<Rightarrow> thread \<Rightarrow> world \<Rightarrow> bool" where
  leads_refl: "leads t w t w"
| leads_step: "leads (k w) (f w) t w' \<Longrightarrow> leads (Atom f k) w t w'"

lemma leads_atom: "leads (k (fst (run_state m w))) (snd (run_state m w)) t w' \<Longrightarrow> leads (atom m k) w t w'"
  unfolding atom_def by (rule leads_step)

lemma leads_run: "leads t w Done (run_thread t w)"
  by (induction t arbitrary: w) (auto intro: leads.intros)

lemma leads_trans: "leads t w t1 w1 \<Longrightarrow> leads t1 w1 t2 w2 \<Longrightarrow> leads t w t2 w2"
  by (induction rule: leads.induct) (auto intro: leads.intros)

lemma leads_same_run: "leads t w t' w' \<Longrightarrow> run_thread t w = run_thread t' w'"
  by (induction rule: leads.induct) simp_all

lemma run_atom: "run_thread (atom m k) w = run_thread (k (fst (run_state m w))) (snd (run_state m w))"
  by (simp add: atom_def)

lemma get_live:
  assumes "sessions_ok (smgr w)" and "umap_find (cliSessionMap (smgr w)) sock = Some p" and "smgr w' = smgr w"
  shows "run_state (session_get p f) w' = (f (deref (smgr w) p), w')"
  using run_session_get_live[of w' sock p f] assms by simp

lemma smgr_status: "smgr (snd (run_state (UpdateUserOnlineStatus L n b) w)) = smgr w"
  using wp_status[of L n b w] by (simp add: wp_def)

lemma smgr_notify: "sessions_ok (smgr w) \<Longrightarrow> smgr (snd (run_state (NotifyFriendsStatusChange L n st) w)) = smgr w"
proof -
  assume ok: "sessions_ok (smgr w)"
  have "wp (NotifyFriendsStatusChange L n st) (\<lambda>_ w'. smgr w' = smgr w) w"
    by (rule wp_notify[OF ok]) (auto dest: noticed_world)
  then show ?thesis by (simp add: wp_def)
qed

lemma leads_run_atom: "run_state m w = (r, w1) \<Longrightarrow> leads (k r) w1 t w' \<Longrightarrow> leads (atom m k) w t w'"
  by (rule leads_atom) simp

lemma leads_depart:
  assumes ok: "sessions_ok (smgr w)" and live: "umap_find (cliSessionMap (smgr w)) sock = Some p"
  shows "leads (depart_thread L p rest) w rest (snd (run_state (announce_offline L (username (deref (smgr w) p))) w))"
proof -
  let ?n = "username (deref (smgr w) p)"
  let ?w1 = "snd (run_state (UpdateUserOnlineStatus L ?n False) w)"
  let ?w2 = "snd (run_state (NotifyFriendsStatusChange L ?n Offline) ?w1)"
  have w1: "smgr ?w1 = smgr w" by (rule smgr_status)
  then have w2: "smgr ?w2 = smgr w" using smgr_notify[of ?w1] ok by simp
  let ?w3 = "snd (run_state (RemoveFriendCache ?n) ?w2)"
  have get: "run_state (session_get p GetUsername) v = (?n, v)" if "smgr v = smgr w" for v
    using get_live[OF ok live that, of GetUsername] by (simp del: run_session_get)
  let ?tail = "if has_friendManager (server ?w2)
    then atom (session_get p GetUsername) (\<lambda>name. atom (RemoveFriendCache name) (\<lambda>_. rest)) else rest"
  have "leads (depart_thread L p rest) w ?tail ?w2"
    unfolding depart_thread_def
    by (rule leads_run_atom[OF get[OF refl]], rule leads_atom, rule leads_run_atom[OF get[OF w1]], rule leads_atom, rule leads_atom)
      (simp add: leads_refl)
  moreover have "leads (atom (session_get p GetUsername) (\<lambda>name. atom (RemoveFriendCache name) (\<lambda>_. rest))) ?w2 rest ?w3"
    by (rule leads_run_atom[OF get[OF w2]], rule leads_atom) (rule leads_refl)
  ultimately show ?thesis
    by (auto simp: announce_offline_def case_prod_beta intro: leads_trans split: if_splits)
qed

lemma leads_forget: "leads (forget_thread sock rest) w rest (snd (run_state (forget_session sock) w))"
  unfolding forget_thread_def
  by (intro leads_atom) (simp add: forget_session_def case_prod_beta leads_refl)

lemmas run_depart = leads_same_run[OF leads_depart]
lemmas run_forget = leads_same_run[OF leads_forget]

lemma run_heartbeat_entry:
  assumes ok: "sessions_ok (smgr w)" and live: "umap_find (cliSessionMap (smgr w)) sock = Some p"
  shows "run_thread (heartbeat_entry L t (sock, p) rest) w
    = run_thread rest (snd (run_state (heartbeat_one L t (sock, p)) w))"
  by (simp add: get_live[OF ok live refl] heartbeat_entry_def run_atom run_depart[OF ok live] run_forget heartbeat_one_def case_prod_beta del: run_session_get)

lemma heartbeat_one_smgr:
  assumes ok: "sessions_ok (smgr w)" and live: "umap_find (cliSessionMap (smgr w)) sock = Some p"
  shows "smgr (snd (run_state (heartbeat_one L t (sock, p)) w)) \<in> {smgr w, RemoveSession sock (smgr w)}"
proof -
  have "smgr (snd (run_state (announce_offline L n) w)) = smgr w" for n
    using wp_departed[OF ok, of L n] by (simp add: wp_def departed_def)
  then show ?thesis
    by (simp add: get_live[OF ok live refl] heartbeat_one_def case_prod_beta forget_world shutdown_socket_def del: run_session_get)
qed

lemma run_heartbeat_entries:
  assumes "sessions_ok (smgr w)" and "umap_wf es" and "\<And>sock p. (sock, p) \<in> set es \<Longrightarrow> umap_find (cliSessionMap (smgr w)) sock = Some p"
  shows "run_thread (heartbeat_entries L t es) w = snd (run_state (foreach es (heartbeat_one L t)) w)"
  using assms
proof (induction es arbitrary: w)
  case (Cons e es)
  obtain sock p where e: "e = (sock, p)" by (cases e)
  note live = Cons.prems(3)[of sock p, unfolded e, simplified]
  let ?w1 = "snd (run_state (heartbeat_one L t (sock, p)) w)"
  have sm: "smgr ?w1 \<in> {smgr w, RemoveSession sock (smgr w)}" by (rule heartbeat_one_smgr[OF Cons.prems(1) live])
  then have ok: "sessions_ok (smgr ?w1)" using Cons.prems(1) sessions_ok_RemoveSession by auto
  have "sock \<notin> fst ` set es" using Cons.prems(2) by (simp add: e umap_wf_def)
  then have "umap_find (cliSessionMap (smgr ?w1)) s = Some q" if "(s, q) \<in> set es" for s q
    using that sm Cons.prems(3)[of s q] by (force simp: e RemoveSession_maps um_simps)
  with Cons.IH[OF ok] Cons.prems(2) show ?case
    by (simp add: e run_heartbeat_entry[OF Cons.prems(1) live] umap_wf_def case_prod_beta)
qed simp

lemma run_heartbeat:
  assumes ok: "sessions_ok (smgr w)"
  shows "run_thread (heartbeat_thread L) w = snd (run_state (heartbeat_round L) w)"
proof -
  have wf: "umap_wf (cliSessionMap (smgr w))" using ok by (simp add: sessions_ok_def)
  from run_heartbeat_entries[OF ok wf, of L "now w"] show ?thesis
    by (simp add: heartbeat_thread_def run_atom heartbeat_round_def GetAllSessions_def umap_find_iff[OF wf])
qed

lemma run_end:
  assumes ok: "sessions_ok (smgr w)"
  shows "run_thread (end_thread L sock) w = snd (run_state (finish_client L sock) w)"
proof (cases "umap_find (cliSessionMap (smgr w)) sock")
  case None
  then show ?thesis by (simp add: end_thread_def run_atom finish_client_def get_session_def GetSession_def Let_def)
next
  case (Some p)
  then show ?thesis
    by (simp add: get_live[OF ok Some refl] end_thread_def run_atom finish_client_def get_session_def GetSession_def Let_def run_depart[OF ok Some]
        run_forget case_prod_beta del: run_session_get)
qed

lemma run_throw:
  assumes ok: "sessions_ok (smgr w)"
  shows "run_thread (throw_thread L sock) w = snd (run_state (fail_client L sock) w)"
proof -
  let ?w = "w\<lparr>network := sys_close sock (network w)\<rparr>"
  have close: "run_state (if b then HandleClientException sock else close_socket sock) w = ((), ?w)" for b
    by (simp add: HandleClientException_def close_socket_def)
  show ?thesis
  proof (cases "umap_find (cliSessionMap (smgr w)) sock")
    case None
    then show ?thesis by (simp add: throw_thread_def throw_forget_def run_atom fail_client_def get_session_def GetSession_def close)
  next
    case (Some p)
    have get: "run_state (session_get p f) ?w = (f (deref (smgr w) p), ?w)" for f :: "ClientSession \<Rightarrow> 'a"
      by (rule get_live[OF ok Some]) simp
    from Some show ?thesis
      by (simp add: get throw_thread_def throw_forget_def run_atom fail_client_def get_session_def GetSession_def close run_forget case_prod_beta del: run_session_get)
  qed
qed

lemma run_stop_entry:
  assumes ok: "sessions_ok (smgr w)" and live: "umap_find (cliSessionMap (smgr w)) sock = Some p"
  shows "run_thread (stop_entry L (sock, p) rest) w = run_thread rest (snd (run_state (stop_session L (sock, p)) w))"
    and "smgr (snd (run_state (stop_session L (sock, p)) w)) = smgr w"
proof -
  let ?n = "username (deref (smgr w) p)"
  let ?w1 = "snd (run_state (UpdateUserOnlineStatus L ?n False) w)"
  let ?w2 = "snd (run_state (RemoveFriendCache ?n) ?w1)"
  have w1: "smgr ?w1 = smgr w" by (rule smgr_status)
  have w2: "smgr ?w2 = smgr w" using w1 by (simp add: RemoveFriendCache_def)
  note get = get_live[OF ok live refl] get_live[OF ok live w1] get_live[OF ok live w2]
  show "run_thread (stop_entry L (sock, p) rest) w = run_thread rest (snd (run_state (stop_session L (sock, p)) w))"
    by (simp add: stop_entry_def Let_def run_atom get stop_session_def case_prod_beta del: run_session_get)
  show "smgr (snd (run_state (stop_session L (sock, p)) w)) = smgr w"
    by (simp add: get w1 w2 stop_session_def case_prod_beta shutdown_socket_def del: run_session_get)
qed

lemma run_stop_entries:
  assumes "sessions_ok (smgr w)" and "\<And>sock p. (sock, p) \<in> set es \<Longrightarrow> umap_find (cliSessionMap (smgr w)) sock = Some p"
  shows "run_thread (stop_entries L es rest) w = run_thread rest (snd (run_state (foreach es (stop_session L)) w))"
  using assms
proof (induction es arbitrary: w)
  case (Cons e es)
  obtain sock p where e: "e = (sock, p)" by (cases e)
  note live = Cons.prems(2)[of sock p, unfolded e, simplified]
  note entry = run_stop_entry[OF Cons.prems(1) live]
  show ?case
    using Cons.IH[of "snd (run_state (stop_session L (sock, p)) w)"] Cons.prems entry(2)
    by (simp add: e entry(1) case_prod_beta)
qed simp

lemma run_stop:
  assumes ok: "sessions_ok (smgr w)"
  shows "run_thread (stop_thread L) (w\<lparr>server := (server w)\<lparr>running := False\<rparr>\<rparr>) = snd (run_state (Stop L) w)"
proof -
  let ?w = "w\<lparr>server := (server w)\<lparr>running := False\<rparr>\<rparr>"
  have "umap_wf (cliSessionMap (smgr w))" using ok by (simp add: sessions_ok_def)
  then have "run_thread (stop_entries L (cliSessionMap (smgr w)) rest) ?w
      = run_thread rest (snd (run_state (foreach (cliSessionMap (smgr w)) (stop_session L)) ?w))" for rest
    using run_stop_entries[of ?w "cliSessionMap (smgr w)" L rest] ok by (simp add: umap_find_iff)
  then show ?thesis
    by (simp add: stop_thread_def Let_def run_atom Stop_def set_server_def GetAllSessions_def case_prod_beta
        close_socket_def shutdown_socket_def)
qed

section \<open>Properties\<close>

abbreviation fresh_world :: world where
  "fresh_world \<equiv> demo_world\<lparr>server := Server_new\<lparr>has_dbManager := True\<rparr>\<rparr>"

lemma fresh_start: "\<exists>env w. run_state (Start env) fresh_world = (True, w)
    \<and> currentConnections (server w) < maxConnections (server w) \<and> serverSocket (server w) = 3"
  by (rule exI[of _ "\<lparr>socket_result = 3, setsockopt_ok = True, bind_ok = True, listen_ok = True\<rparr>"])
    (simp add: Start_def create_managers_def set_server_def Server_new_def)





end
