(* ===== verification/Login_Race.thy ===== *)
theory Login_Race
  imports Chat_Security Server_Threads
begin

text \<open>
  Two logins at the same time.  The tasks of the clients run on the workers of the thread pool, and
  \<open>UserManager::HandleLogin\<close> (\<^verbatim>\<open>src/src/system/user_manager.cpp\<close>) takes no lock between reading the
  status of the user and binding the session.  Here it is a program of atomic actions --- one call of the data access
  object, of the session manager, of a session or of the kernel each --- in the sense of \<open>Server_Threads\<close>, the
  notification of the friends included.  Alone it does what \<open>HandleLogin\<close> does; two of them can
  leave one name on two connections.
\<close>

section \<open>The login, statement by statement\<close>

definition kick_thread :: "libs \<Rightarrow> string \<Rightarrow> thread \<Rightarrow> thread" where
  "kick_thread L name rest =
     atom (get_session_by_username name) (\<lambda>oldSession. case oldSession of
         None \<Rightarrow> rest
       | Some p \<Rightarrow> atom (session_get p GetSocket) (\<lambda>oldSocket. atom (gets (\<lambda>w. um_sendCallback (server w))) (\<lambda>callback.
           let finish = atom (session_set p (SetUsername [])) (\<lambda>_. atom (shutdown_socket oldSocket) (\<lambda>_. rest))
           in if callback then atom (send_data oldSocket (kicked_notice L)) (\<lambda>_. finish) else finish)))"

definition bind_thread :: "Request \<Rightarrow> thread \<Rightarrow> thread" where
  "bind_thread request rest =
     atom (get_session (clientSocket request)) (\<lambda>session. case session of
         None \<Rightarrow> rest
       | Some p \<Rightarrow> atom (session_set p (SetUsername (rusername request))) (\<lambda>_.
           atom (bind_username (clientSocket request) (rusername request)) (\<lambda>_.
           atom (session_touch_heartbeat p) (\<lambda>_. rest))))"

primrec notify_loop :: "libs \<Rightarrow> string \<Rightarrow> UserStatus \<Rightarrow> (string \<times> bool) list \<Rightarrow> thread \<Rightarrow> thread" where
  "notify_loop L name status [] rest = rest"
| "notify_loop L name status (friendPair # friendPairs) rest = (case friendPair of (friendUsername, isOnline) \<Rightarrow>
     let next = notify_loop L name status friendPairs rest
     in if isOnline
        then atom (get_session_by_username friendUsername) (\<lambda>friendSession.
             atom (gets (\<lambda>w. um_sendCallback (server w))) (\<lambda>callback. case friendSession of
                 None \<Rightarrow> next
               | Some p \<Rightarrow> if callback
                   then atom (session_get p GetSocket) (\<lambda>sock. atom (send_data sock (status_notify L name status)) (\<lambda>_. next))
                   else next))
        else next)"

definition notify_thread :: "libs \<Rightarrow> string \<Rightarrow> UserStatus \<Rightarrow> thread \<Rightarrow> thread" where
  "notify_thread L name status rest =
     atom (GetUserIdByUsername L name) (\<lambda>uid. case uid of
         None \<Rightarrow> rest
       | Some userId \<Rightarrow> atom (GetFriendsOfUser L userId) (\<lambda>friends. case friends of
             None \<Rightarrow> rest
           | Some friendPairs \<Rightarrow> notify_loop L name status friendPairs rest))"

definition enter_thread :: "libs \<Rightarrow> Request \<Rightarrow> int \<Rightarrow> thread" where
  "enter_thread L request userId =
     atom (UpdateOnlineStatus userId True) (\<lambda>_. atom (UpdateLastLoginTime userId) (\<lambda>_.
     bind_thread request (notify_thread L (rusername request) Online Done)))"

definition login_thread :: "libs \<Rightarrow> Request \<Rightarrow> thread" where
  "login_thread L request =
     (if \<not> ValidateUsername (rusername request) then Done
      else atom (GetUserByUsername L (rusername request)) (\<lambda>found. case found of
          None \<Rightarrow> Done
        | Some (userId, passwordHash) \<Rightarrow>
            if MD5Encrypt L (rpassword request) \<noteq> passwordHash then Done
            else atom (GetUserOnlineStatus userId) (\<lambda>isOnline.
              if isOnline = Some True
              then atom (UpdateOnlineStatus userId False) (\<lambda>_. kick_thread L (rusername request) (enter_thread L request userId))
              else enter_thread L request userId)))"

text \<open>Threads that share the state: one of them, any, makes its next action.\<close>

inductive threads_step :: "thread list \<times> world \<Rightarrow> thread list \<times> world \<Rightarrow> bool" where
  threads_atom: "threads_step (xs @ Atom f k # ys, w) (xs @ k w # ys, f w)"

abbreviation threads_steps :: "thread list \<times> world \<Rightarrow> thread list \<times> world \<Rightarrow> bool" where
  "threads_steps \<equiv> threads_step\<^sup>*\<^sup>*"

lemma leads_threads: "leads t w t' w' \<Longrightarrow> threads_steps (xs @ t # ys, w) (xs @ t' # ys, w')"
  by (induction rule: leads.induct) (auto intro: converse_rtranclp_into_rtranclp threads_atom)

section \<open>A login alone\<close>

lemma run_kick: "run_thread (kick_thread L name rest) w = run_thread rest (snd (run_state (kick_old_session L name) w))"
  by (simp add: kick_thread_def kick_old_session_def run_atom Let_def case_prod_beta del: run_session_get split: option.split)

lemma run_bind: "run_thread (bind_thread rq rest) w = run_thread rest (snd (run_state (bind_session rq) w))"
  by (simp add: bind_thread_def bind_session_def run_atom case_prod_beta split: option.split)

lemma run_notify_loop:
  "run_thread (notify_loop L name status fs rest) w = run_thread rest (snd (run_state (foreach fs (notify_friend L name status)) w))"
proof (induction fs arbitrary: w)
  case (Cons x fs)
  then show ?case
    by (cases x) (simp add: notify_friend_def run_atom Let_def case_prod_beta del: run_session_get split: option.split)
qed simp

lemma run_notify: "run_thread (notify_thread L name status rest) w = run_thread rest (snd (run_state (NotifyFriendsStatusChange L name status) w))"
  by (simp add: notify_thread_def NotifyFriendsStatusChange_def run_atom run_notify_loop case_prod_beta split: option.split)

lemma run_enter: "run_thread (enter_thread L rq uid) w = snd (run_state (login_tail uid L rq) w)"
  by (simp add: enter_thread_def login_tail_def run_atom run_bind run_notify case_prod_beta)

lemma run_login: "run_thread (login_thread L rq) w = snd (run_state (HandleLogin L rq) w)"
  by (simp add: login_thread_def HandleLogin_def run_atom run_kick run_enter login_tail_def case_prod_beta split: option.split)

text \<open>What the end of a login does to the sessions, whatever faults the database shows.\<close>

lemma wp_tail_sessions:
  assumes "sessions_ok (smgr w)" and "GetSession (clientSocket rq) (smgr w) \<noteq> None"
  shows "wp (login_tail uid L rq) (\<lambda>_ w'. sessions_ok (smgr w') \<and> cliSessionMap (smgr w') = cliSessionMap (smgr w)
    \<and> session_user (smgr w') (clientSocket rq) = rusername rq
    \<and> umap_find (usernameToSocket (smgr w')) (rusername rq) = Some (clientSocket rq)
    \<and> (\<forall>s. s \<noteq> clientSocket rq \<longrightarrow> session_user (smgr w') s = session_user (smgr w) s)) w"
  using assms
  by (auto simp: login_tail_def wp_simps intro!: wp_intros wp_bind_session wp_notify dest!: noticed_world)

text \<open>A correct login of a user who is offline: the thread comes to its writes without a change but to the connection pool.\<close>

lemma login_to_writes:
  assumes w: "serving_world L w" and u: "u \<in> set (users (dbase w))" "\<not> u_online u"
    and rq: "same_name (mysql_of L) (u_name u) (rusername rq)" "u_hash u = MD5Encrypt L (rpassword rq)" "ValidateUsername (rusername rq)"
  shows "leads (login_thread L rq) w (enter_thread L rq (u_id u)) (rotate_pool (rotate_pool w))"
proof -
  note ok = serving_worldD[OF w]
  have look: "sql_user_by_name (mysql_of L) (rusername rq) (dbase w) = Some u" "sql_user_by_id (u_id u) (dbase w) = Some u"
    using u rq by (simp_all add: user_by_name_iff[OF ok(4)] user_by_id_iff[OF ok(4)])
  have "run_state (GetUserByUsername L (rusername rq)) w = (Some (u_id u, u_hash u), rotate_pool w)"
    "run_state (GetUserOnlineStatus (u_id u)) (rotate_pool w) = (Some False, rotate_pool (rotate_pool w))"
    using ok(2) look u(2) by (simp_all add: GetUserByUsername_def GetUserOnlineStatus_def run_dao_query_calm)
  then show ?thesis
    using rq by (auto simp: login_thread_def intro!: leads_run_atom leads_refl)
qed

text \<open>A correct login in the abstract service.\<close>

lemma admit_correct:
  assumes "find_person L (rusername rq) s = Some p" and "collation_key (mysql_of L) (p_name p) = collation_key (mysql_of L) (rusername rq)"
    and "p_hash p = MD5Encrypt L (rpassword rq)" and "ValidateUsername (rusername rq)" and "connected s (clientSocket rq) \<noteq> None"
  shows "connected (snd (admit L rq s)) (clientSocket rq) = Some (rusername rq)"
    and "routes (snd (admit L rq s)) (rusername rq) = Some (clientSocket rq)"
    and "find_person L (rusername rq) (snd (admit L rq s)) = Some (p\<lparr>p_online := True\<rparr>)"
    and "connected s x \<noteq> None \<Longrightarrow> connected (snd (admit L rq s)) x \<noteq> None"
    and "p_online p \<Longrightarrow> routes s (rusername rq) = Some old \<Longrightarrow> old \<noteq> clientSocket rq \<Longrightarrow> connected (snd (admit L rq s)) old = Some []"
proof -
  let ?s1 = "(if p_online p then end_session (rusername rq) else id) (put_person L (p\<lparr>p_online := True\<rparr>) s)"
  have s1: "connected ?s1 (clientSocket rq) \<noteq> None" "connected s x \<noteq> None \<Longrightarrow> connected ?s1 x \<noteq> None"
    "p_online p \<Longrightarrow> routes s (rusername rq) = Some old \<Longrightarrow> connected ?s1 old = Some []" for x old
    using assms(5) by (auto simp: end_session_def put_person_def split: option.split)
  have "snd (admit L rq s) = begin_session (clientSocket rq) (rusername rq) ?s1"
    using assms(1,3,4) by (simp add: admit_def)
  then have admit: "snd (admit L rq s) = ?s1\<lparr>connected := (connected ?s1)(clientSocket rq \<mapsto> rusername rq),
      routes := (routes ?s1)(rusername rq \<mapsto> clientSocket rq)\<rparr>"
    using s1(1) by (auto simp: begin_session_def)
  have people: "people ?s1 (collation_key (mysql_of L) (rusername rq)) = Some (p\<lparr>p_online := True\<rparr>)"
    using assms(2) by auto
  show "connected (snd (admit L rq s)) (clientSocket rq) = Some (rusername rq)"
    and "routes (snd (admit L rq s)) (rusername rq) = Some (clientSocket rq)"
    and "find_person L (rusername rq) (snd (admit L rq s)) = Some (p\<lparr>p_online := True\<rparr>)"
    unfolding admit find_person_def using people by (simp_all del: people_simps)
  show "connected s x \<noteq> None \<Longrightarrow> connected (snd (admit L rq s)) x \<noteq> None"
    and "p_online p \<Longrightarrow> routes s (rusername rq) = Some old \<Longrightarrow> old \<noteq> clientSocket rq \<Longrightarrow> connected (snd (admit L rq s)) old = Some []"
    unfolding admit using s1(2,3) by auto
qed

text \<open>One login after the other, in the abstract service: the first one is ended by the second one.\<close>

lemma logins_in_turn:
  assumes w: "serving_world L w" and u: "u \<in> set (users (dbase w))"
    and rq: "same_name (mysql_of L) (u_name u) (rusername rq)" "u_hash u = MD5Encrypt L (rpassword rq)" "ValidateUsername (rusername rq)"
    and there: "GetSession (clientSocket rq) (smgr w) \<noteq> None" "GetSession sock (smgr w) \<noteq> None" "sock \<noteq> clientSocket rq"
  defines "w1 \<equiv> snd (run_state (HandleLogin L rq) w)"
  defines "w2 \<equiv> snd (run_state (HandleLogin L (rq\<lparr>clientSocket := sock\<rparr>)) w1)"
  shows "session_user (smgr w2) (clientSocket rq) = [] \<and> session_user (smgr w2) sock = rusername rq"
proof -
  have keep: "keeps (serving_world L) (HandleLogin L rq)"
    by (intro serving_kept schema.keeps_HandleLogin[OF refl] memory.keeps_HandleLogin[OF refl]
        quiet.keeps_HandleLogin[OF refl] steady.keeps_HandleLogin[OF refl])
  have w1: "serving_world L w1" unfolding w1_def by (rule keepsD[OF keep w])
  have step: "service_at L (snd (run_state (HandleLogin L r) v)) = snd (admit L r (service_at L v))" if "serving_world L v" for r v
  proof -
    from refinesD[OF refines_login that]
    have "(code (fst (run_state (HandleLogin L r) v)), service_at L (snd (run_state (HandleLogin L r) v))) = admit L r (service_at L v)"
      by (simp add: wp_def)
    then show ?thesis by (metis snd_conv)
  qed
  let ?s = "service_at L w" and ?rq2 = "rq\<lparr>clientSocket := sock\<rparr>"
  have key: "collation_key (mysql_of L) (u_name u) = collation_key (mysql_of L) (rusername rq)"
    using rq(1) by (simp add: same_name_def)
  then have find: "find_person L (rusername rq) ?s = Some (person_of u)"
    using u people_of_Some[OF serving_worldD(4)[OF w], of "collation_key (mysql_of L) (rusername rq)"]
    by (auto simp: find_person_def service_at_def service_of_def)
  have con: "connected ?s (clientSocket rq) \<noteq> None" "connected ?s sock \<noteq> None"
    using there(1,2) by (simp_all add: service_at_def service_of_def connected_of_def)
  note fst = admit_correct[OF find _ _ rq(3) con(1), simplified, OF key rq(2)]
  note snd = admit_correct[of L ?rq2, simplified, OF fst(3) _ _ rq(3) fst(4)[OF con(2)[unfolded not_None_eq]], simplified, OF key rq(2)]
  have "service_at L w2 = snd (admit L ?rq2 (snd (admit L rq ?s)))"
    by (simp add: w2_def step[OF w1]) (simp add: w1_def step[OF w])
  then show ?thesis
    unfolding session_user_service[of w2 _ L] user_on_def
    using snd(1) snd(5)[OF fst(2)] there(3) by auto
qed

section \<open>The property\<close>



end
