(* ===== verification/Server_Races.thy ===== *)
theory Server_Races
  imports Server_Threads
begin

text \<open>
  Who may interfere with whom.  The ends of the client tasks do not disturb each other, statement by statement, as
  long as no descriptor belongs to two of them and a request is served as a whole (\<open>Session_Races\<close> shows what happens otherwise).
  The heartbeat thread, which works on a snapshot of the session table, \<open>Stop\<close>, which does so too, and the exception handler of
  \<open>HandleClient\<close>, which closes the socket before it removes the session, do disturb them; four schedules show how.
\<close>

section \<open>A new client\<close>

definition admitted :: "int \<Rightarrow> string \<Rightarrow> int \<Rightarrow> world \<Rightarrow> world" where
  "admitted sock addr prt w = w\<lparr>smgr := AddSession sock (next_ptr (smgr w)) (snd (alloc (ClientSession_new (now w) sock addr prt) (smgr w))),
     server := (server w)\<lparr>currentConnections := currentConnections (server w) + 1\<rparr>\<rparr>"

lemma run_accept_new:
  "currentConnections (server w) < maxConnections (server w)
    \<Longrightarrow> run_state (accept_round (Accepted sock addr prt)) w = (Submit sock, admitted sock addr prt w)"
  by (simp add: accept_round_def new_session_def count_connections_def set_server_def admitted_def case_prod_beta)

lemma admitted_simps [simp]:
  "running (server (admitted sock addr prt w)) = running (server w)" "inbox (admitted sock addr prt w) = inbox w"
  "maxConnections (server (admitted sock addr prt w)) = maxConnections (server w)"
  "currentConnections (server (admitted sock addr prt w)) = currentConnections (server w) + 1"
  "cliSessionMap (smgr (admitted sock addr prt w)) = umap_set sock (next_ptr (smgr w)) (cliSessionMap (smgr w))"
  "heap (smgr (admitted sock addr prt w)) (next_ptr (smgr w)) = Some (ClientSession_new (now w) sock addr prt)"
  by (simp_all add: admitted_def AddSession_def Let_def)

lemma admitted_ok: "sessions_ok (smgr w) \<Longrightarrow> sessions_ok (smgr (admitted sock addr prt w))"
  by (simp add: admitted_def sessions_ok_AddSession)

section \<open>Client tasks among themselves\<close>

text \<open>
  How far a task that ends has got with its session: it has not looked for it, it holds the pointer, it has removed it
  and still has to count it out, or it is done with it.  \<open>tame sock t\<close>: from the given stage on, the thread \<open>t\<close> touches the
  session table and the counter only as the stages say, whatever the others have done in between.
\<close>

datatype stage = Fresh | Holding nat | Owing | Clear

definition holds :: "int \<Rightarrow> stage \<Rightarrow> sessions \<Rightarrow> bool" where
  "holds sock ph st = (case ph of
     Fresh \<Rightarrow> True
   | Holding p \<Rightarrow> umap_find (cliSessionMap st) sock = Some p
   | _ \<Rightarrow> umap_find (cliSessionMap st) sock = None)"

definition move :: "int \<Rightarrow> stage \<Rightarrow> world \<Rightarrow> stage \<Rightarrow> world \<Rightarrow> bool" where
  "move sock ph w ph' w' \<longleftrightarrow> holds sock ph' (smgr w') \<and>
     (if ph = Owing then ph' = Clear \<and> smgr w' = smgr w
        \<and> server w' = (server w)\<lparr>currentConnections := currentConnections (server w) - 1\<rparr>
      else if ph' = Owing then (\<exists>p. ph = Holding p) \<and> smgr w' = RemoveSession sock (smgr w) \<and> server w' = server w
      else smgr w' = smgr w \<and> server w' = server w)"

primrec tame :: "int \<Rightarrow> thread \<Rightarrow> stage \<Rightarrow> bool" where
  "tame sock Done = (\<lambda>ph. ph = Clear)"
| "tame sock (Atom f k) = (\<lambda>ph. \<forall>w. sessions_ok (smgr w) \<and> holds sock ph (smgr w)
     \<longrightarrow> (\<exists>ph'. move sock ph w ph' (f w) \<and> tame sock (k w) ph'))"

lemma tame_atom:
  assumes "\<And>w. sessions_ok (smgr w) \<Longrightarrow> holds sock ph (smgr w)
    \<Longrightarrow> \<exists>ph'. move sock ph w ph' (snd (run_state m w)) \<and> tame sock (k (fst (run_state m w))) ph'"
  shows "tame sock (atom m k) ph"
  using assms by (simp add: atom_def)

lemma tame_same:
  assumes "\<And>w. sessions_ok (smgr w) \<Longrightarrow> holds sock ph (smgr w) \<Longrightarrow> smgr (snd (run_state m w)) = smgr w \<and> server (snd (run_state m w)) = server w"
    and "ph \<noteq> Owing" and "\<And>x. tame sock (k x) ph"
  shows "tame sock (atom m k) ph"
  using assms by (intro tame_atom exI[of _ ph]) (simp add: move_def)

lemma tame_get: "(\<And>x. tame sock (k x) (Holding p)) \<Longrightarrow> tame sock (atom (session_get p f) k) (Holding p)"
  by (rule tame_same) (auto simp: holds_def sessions_ok_touch)

lemma tame_gets: "ph \<noteq> Owing \<Longrightarrow> (\<And>x. tame sock (k x) ph) \<Longrightarrow> tame sock (atom (gets f) k) ph"
  by (rule tame_same) auto

lemma tame_status: "(\<And>x. tame sock (k x) (Holding p)) \<Longrightarrow> tame sock (atom (UpdateUserOnlineStatus L n b) k) (Holding p)"
  by (rule tame_same) (use wp_status in \<open>auto simp: wp_def\<close>)

lemma tame_notify: "(\<And>x. tame sock (k x) (Holding p)) \<Longrightarrow> tame sock (atom (NotifyFriendsStatusChange L n st) k) (Holding p)"
proof (rule tame_same)
  fix w :: world assume ok: "sessions_ok (smgr w)"
  have "wp (NotifyFriendsStatusChange L n st) (\<lambda>_ w'. smgr w' = smgr w \<and> server w' = server w) w"
    by (rule wp_notify[OF ok]) (auto dest: noticed_world)
  then show "smgr (snd (run_state (NotifyFriendsStatusChange L n st) w)) = smgr w
    \<and> server (snd (run_state (NotifyFriendsStatusChange L n st) w)) = server w"
    by (simp add: wp_def)
qed auto

lemma tame_cache: "(\<And>x. tame sock (k x) (Holding p)) \<Longrightarrow> tame sock (atom (RemoveFriendCache n) k) (Holding p)"
  by (rule tame_same) (auto simp: RemoveFriendCache_def)

lemma tame_close: "ph \<noteq> Owing \<Longrightarrow> (\<And>x. tame sock (k x) ph) \<Longrightarrow> tame sock (atom (close_socket s) k) ph"
  by (rule tame_same) (auto simp: close_socket_def)

lemma tame_forget: "tame sock rest Clear \<Longrightarrow> tame sock (forget_thread sock rest) (Holding p)"
  unfolding forget_thread_def
proof (rule tame_atom, rule exI[of _ Owing], rule conjI)
  fix w :: world assume "holds sock (Holding p) (smgr w)"
  then show "move sock (Holding p) w Owing (snd (run_state (remove_session sock) w))"
    by (simp add: move_def holds_def remove_session_def RemoveSession_maps um_simps)
next
  fix w :: world assume rest: "tame sock rest Clear"
  show "tame sock (atom (count_connections (- 1)) (\<lambda>_. rest)) Owing"
    using rest by (intro tame_atom exI[of _ Clear])
      (simp add: move_def holds_def count_connections_def set_server_def)
qed

lemma tame_get_session:
  assumes "tame sock (k None) Clear" and "\<And>p. tame sock (k (Some p)) (Holding p)"
  shows "tame sock (atom (get_session sock) k) Fresh"
proof (rule tame_atom)
  fix w :: world
  show "\<exists>ph'. move sock Fresh w ph' (snd (run_state (get_session sock) w)) \<and> tame sock (k (fst (run_state (get_session sock) w))) ph'"
    using assms
    by (intro exI[of _ "case GetSession sock (smgr w) of None \<Rightarrow> Clear | Some p \<Rightarrow> Holding p"])
      (simp add: get_session_def GetSession_def move_def holds_def split: option.splits)
qed

lemma tame_if: "(b \<Longrightarrow> tame sock t ph) \<Longrightarrow> (\<not> b \<Longrightarrow> tame sock u ph) \<Longrightarrow> tame sock (if b then t else u) ph"
  by simp

lemma handled: "(if b then HandleClientException sock else close_socket sock) = close_socket sock"
  by (simp add: HandleClientException_def)

lemma tame_client: "tame sock (end_thread L sock) Fresh" "tame sock (throw_thread L sock) Fresh"
proof -
  have close: "tame sock (atom (close_socket sock) (\<lambda>_. Done)) Clear" by (rule tame_close) simp_all
  then show "tame sock (end_thread L sock) Fresh"
    by (auto simp: end_thread_def Let_def depart_thread_def
        intro!: tame_get_session tame_get tame_status tame_notify tame_cache tame_gets tame_forget tame_if)
  have "tame sock (throw_forget L sock) Fresh"
    by (auto simp: throw_forget_def intro!: tame_get_session tame_get tame_status tame_gets tame_forget tame_if)
  then show "tame sock (throw_thread L sock) Fresh"
    by (auto simp: throw_thread_def handled intro!: tame_gets tame_close)
qed

text \<open>The steps in which neither the heartbeat thread nor \<open>Stop\<close> takes part and no descriptor has two tasks.\<close>

definition client_step :: "libs \<Rightarrow> races \<Rightarrow> races \<Rightarrow> bool" where
  "client_step L s s' \<longleftrightarrow> race_step L s s' \<and> beating s' = Done \<and> stopping s' = Done
     \<and> distinct (looping s' @ map fst (ending s'))"

definition owing :: "(int \<Rightarrow> stage) \<Rightarrow> (int \<times> thread) list \<Rightarrow> nat" where
  "owing stg es = length (filter (\<lambda>e. stg (fst e) = Owing) es)"

definition staged :: "(int \<Rightarrow> stage) \<Rightarrow> (int \<times> thread) list \<Rightarrow> sessions \<Rightarrow> bool" where
  "staged stg es st \<longleftrightarrow> (\<forall>(sock, t)\<in>set es. tame sock t (stg sock) \<and> holds sock (stg sock) st)"

text \<open>The invariant: the counter exceeds the number of sessions by the tasks that have removed theirs and not yet counted.\<close>

definition clients_inv :: "races \<Rightarrow> bool" where
  "clients_inv s \<longleftrightarrow> sessions_ok (smgr (shared s)) \<and> beating s = Done \<and> stopping s = Done
     \<and> fst ` set (cliSessionMap (smgr (shared s))) \<subseteq> set (looping s) \<union> fst ` set (ending s)
     \<and> (\<exists>stg. staged stg (ending s) (smgr (shared s))
          \<and> currentConnections (server (shared s)) = int (length (cliSessionMap (smgr (shared s)))) + int (owing stg (ending s)))"

lemma owing_other [simp]: "sock \<notin> fst ` set es \<Longrightarrow> owing (stg(sock := x)) es = owing stg es"
  unfolding owing_def by (rule arg_cong[of _ _ length], rule filter_cong) (auto simp: image_iff)

lemma owing_simps [simp]:
  "owing stg [] = 0" "owing stg (xs @ ys) = owing stg xs + owing stg ys"
  "owing stg ((sock, t) # es) = (if stg sock = Owing then 1 else 0) + owing stg es"
  by (simp_all add: owing_def)

lemma staged_other [simp]: "sock \<notin> fst ` set es \<Longrightarrow> staged (stg(sock := x)) es st = staged stg es st"
proof -
  assume "sock \<notin> fst ` set es"
  then have "a \<noteq> sock" if "(a, t) \<in> set es" for a t using that by force
  then show ?thesis by (auto simp: staged_def)
qed

lemma staged_simps [simp]:
  "staged stg [] st" "staged stg (xs @ ys) st \<longleftrightarrow> staged stg xs st \<and> staged stg ys st"
  "staged stg ((sock, t) # es) st \<longleftrightarrow> tame sock t (stg sock) \<and> holds sock (stg sock) st \<and> staged stg es st"
  by (auto simp: staged_def)

lemma holds_cong: "umap_find (cliSessionMap st') sock = umap_find (cliSessionMap st) sock \<Longrightarrow> holds sock ph st' = holds sock ph st"
  by (cases ph) (simp_all add: holds_def)

lemma staged_cong:
  assumes "\<And>sock. sock \<in> fst ` set es \<Longrightarrow> umap_find (cliSessionMap st') sock = umap_find (cliSessionMap st) sock"
  shows "staged stg es st' = staged stg es st"
proof -
  have "holds a ph st' = holds a ph st" if "(a, t) \<in> set es" for a t ph
    by (rule holds_cong, rule assms) (use that in force)
  then show ?thesis by (auto simp: staged_def)
qed

lemma round_frame:
  assumes ok: "sessions_ok (smgr w)" and run: "run_state (client_round L junk sock) w = (r, w')"
  shows "sessions_ok (smgr w') \<and> cliSessionMap (smgr w') = cliSessionMap (smgr w) \<and> server w' = server w"
proof -
  obtain data segs where rd: "ReceiveData (fst junk) (inbox w sock) = (data, segs)" by fastforce
  let ?w1 = "w\<lparr>inbox := (inbox w)(sock := segs)\<rparr>"
  let ?w2 = "snd (run_state (DispatchRequest L (snd junk) sock data) ?w1)"
  have w': "w' \<in> {w, ?w1, ?w2}"
    using run rd by (auto simp: client_round_def receive_data_def case_prod_beta split: if_splits)
  have "safe_sessions (cliSessionMap (smgr w)) ?w1" using ok by (simp add: safe_sessions_def)
  from keepsD[OF memory.keeps_DispatchRequest[OF refl] this, of L "snd junk" sock data] ok w' show ?thesis
    by (auto simp: safe_sessions_def DispatchRequest_frame)
qed

lemma monitor_frame:
  "run_state (CollectStatus L usage) w = (report, w') \<Longrightarrow> smgr w' = smgr w \<and> server w' = server w"
  using collect_world[of L usage w] by simp

text \<open>One atomic step of a task that ends.\<close>

lemma ending_step:
  assumes ok: "sessions_ok (smgr w)" and st: "staged stg (xs @ (sock, Atom f k) # ys) (smgr w)"
    and cnt: "currentConnections (server w) = int (length (cliSessionMap (smgr w))) + int (owing stg (xs @ (sock, Atom f k) # ys))"
    and new: "sock \<notin> fst ` set (xs @ ys)"
  shows "\<exists>stg'. staged stg' (xs @ (sock, k w) # ys) (smgr (f w)) \<and> sessions_ok (smgr (f w))
    \<and> fst ` set (cliSessionMap (smgr (f w))) \<subseteq> fst ` set (cliSessionMap (smgr w))
    \<and> currentConnections (server (f w)) = int (length (cliSessionMap (smgr (f w)))) + int (owing stg' (xs @ (sock, k w) # ys))"
proof -
  from st ok obtain ph where mv: "move sock (stg sock) w ph (f w)" and tm: "tame sock (k w) ph" by auto
  have other: "sock \<notin> fst ` set xs" "sock \<notin> fst ` set ys" using new by auto
  have wf: "umap_wf (cliSessionMap (smgr w))" using ok by (simp add: sessions_ok_def)
  have removed: "umap_find (cliSessionMap (RemoveSession sock (smgr w))) s = umap_find (cliSessionMap (smgr w)) s" if "s \<noteq> sock" for s
    using that by (simp add: RemoveSession_maps um_simps)
  have kept: "staged stg zs (RemoveSession sock (smgr w)) = staged stg zs (smgr w)" if "sock \<notin> fst ` set zs" for zs
    by (rule staged_cong, rule removed) (use that in blast)
  have keys: "fst ` set (cliSessionMap (RemoveSession sock (smgr w))) \<subseteq> fst ` set (cliSessionMap (smgr w))"
    using dom_delete_subset[of sock "cliSessionMap (smgr w)"] by (simp add: RemoveSession_maps umap_erase_def)
  have ok': "sessions_ok (smgr (f w))" and holds: "holds sock ph (smgr (f w))"
    and keys': "fst ` set (cliSessionMap (smgr (f w))) \<subseteq> fst ` set (cliSessionMap (smgr w))"
    using mv ok keys by (auto simp: move_def sessions_ok_RemoveSession split: if_splits)
  have "staged (stg(sock := ph)) (xs @ (sock, k w) # ys) (smgr (f w))"
    using st tm holds mv kept[OF other(1)] kept[OF other(2)] other by (auto simp: move_def split: if_splits)
  moreover have "currentConnections (server (f w)) = int (length (cliSessionMap (smgr (f w)))) + int (owing (stg(sock := ph)) (xs @ (sock, k w) # ys))"
  proof (cases "stg sock \<noteq> Owing \<and> ph = Owing")
    case True
    then obtain p where "stg sock = Holding p" "smgr (f w) = RemoveSession sock (smgr w)" "server (f w) = server w"
      using mv by (auto simp: move_def)
    moreover have live: "umap_find (cliSessionMap (smgr w)) sock = Some p" using st calculation(1) by (simp add: holds_def)
    moreover from um.count_pos[OF wf live] have "int (length (umap_erase sock (cliSessionMap (smgr w)))) = int (length (cliSessionMap (smgr w))) - 1"
      unfolding um.count_erase[OF wf] live by (cases "length (cliSessionMap (smgr w))") simp_all
    ultimately show ?thesis
      using cnt other True by (simp add: RemoveSession_maps)
  next
    case False
    with mv cnt other show ?thesis by (auto simp: move_def split: if_splits)
  qed
  ultimately show ?thesis using ok' keys' by blast
qed

lemma clients_inv_step:
  assumes inv: "clients_inv s" and uniq: "distinct (looping s @ map fst (ending s))" and "client_step L s s'"
  shows "clients_inv s'"
proof -
  have step: "race_step L s s'" and alone: "beating s' = Done" "stopping s' = Done" and uniq': "distinct (looping s' @ map fst (ending s'))"
    using assms(3) by (simp_all add: client_step_def)
  obtain stg where ok: "sessions_ok (smgr (shared s))" and st: "staged stg (ending s) (smgr (shared s))"
    and keys: "fst ` set (cliSessionMap (smgr (shared s))) \<subseteq> set (looping s) \<union> fst ` set (ending s)"
    and cnt: "currentConnections (server (shared s)) = int (length (cliSessionMap (smgr (shared s)))) + int (owing stg (ending s))"
    and none: "beating s = Done" "stopping s = Done"
    using inv by (auto simp: clients_inv_def)
  show ?thesis
    using step
  proof cases
    case (race_accept sock addr prt r w)
    show ?thesis
    proof (cases "currentConnections (server (shared s)) < maxConnections (server (shared s))")
      case True
      then have w: "r = Submit sock" "w = admitted sock addr prt (shared s)" using race_accept by (simp_all add: run_accept_new)
      have new: "sock \<notin> set (looping s) \<union> fst ` set (ending s)" using uniq' race_accept(1) w by auto
      then have none': "umap_find (cliSessionMap (smgr (shared s))) sock = None" using keys by (auto simp: umap_none_keys)
      have "staged stg (ending s) (smgr w) = staged stg (ending s) (smgr (shared s))"
        by (rule staged_cong) (use new in \<open>auto simp: w um_simps\<close>)
      with race_accept(1) ok st keys cnt none admitted_ok[OF ok, of sock addr prt] show ?thesis
        by (auto simp: clients_inv_def w umap_set_fresh[OF none'] intro!: exI[of _ stg])
    next
      case False
      then have "smgr w = smgr (shared s)" "server w = server (shared s)" "r = Again"
        using race_accept by (auto simp: accept_round_def raw_send_def close_socket_def)
      with race_accept(1) inv show ?thesis by (simp add: clients_inv_def)
    qed
  next
    case (race_serve sock junk w)
    note fr = round_frame[OF ok race_serve(3)]
    have "staged stg (ending s) (smgr w) = staged stg (ending s) (smgr (shared s))"
      by (rule staged_cong) (use fr in simp)
    with race_serve(1) fr st keys cnt none show ?thesis
      by (auto simp: clients_inv_def intro!: exI[of _ stg])
  next
    case (race_end sock junk w)
    note fr = round_frame[OF ok race_end(3)]
    have "sock \<notin> fst ` set (ending s)" using uniq race_end(2) by auto
    moreover have "staged stg (ending s) (smgr w) = staged stg (ending s) (smgr (shared s))"
      by (rule staged_cong) (use fr in simp)
    ultimately show ?thesis
      using race_end(1,2) fr st keys cnt none uniq
      by (auto simp: clients_inv_def tame_client holds_def set_remove1_eq intro!: exI[of _ "stg(sock := Fresh)"])
  next
    case (race_throw sock junk w)
    note fr = round_frame[OF ok race_throw(3)]
    have "sock \<notin> fst ` set (ending s)" using uniq race_throw(2) by auto
    moreover have "staged stg (ending s) (smgr w) = staged stg (ending s) (smgr (shared s))"
      by (rule staged_cong) (use fr in simp)
    ultimately show ?thesis
      using race_throw(1,2) fr st keys cnt none uniq
      by (auto simp: clients_inv_def tame_client holds_def set_remove1_eq intro!: exI[of _ "stg(sock := Fresh)"])
  next
    case (race_ending xs sock f k ys)
    have "sock \<notin> fst ` set (xs @ ys)" using uniq race_ending(2) by auto
    from ending_step[OF ok st[unfolded race_ending(2)] cnt[unfolded race_ending(2)] this] obtain stg'
      where "staged stg' (xs @ (sock, k (shared s)) # ys) (smgr (f (shared s)))" "sessions_ok (smgr (f (shared s)))"
        "fst ` set (cliSessionMap (smgr (f (shared s)))) \<subseteq> fst ` set (cliSessionMap (smgr (shared s)))"
        "currentConnections (server (f (shared s))) = int (length (cliSessionMap (smgr (f (shared s)))))
           + int (owing stg' (xs @ (sock, k (shared s)) # ys))" by blast
    moreover have "fst ` set (ending s) = fst ` set (ending s')" by (simp add: race_ending)
    ultimately show ?thesis
      using keys none unfolding clients_inv_def race_ending(1)
      by (intro conjI exI[of _ stg']) (auto simp: race_ending(2))
  next
    case (race_ended xs sock ys)
    then have "stg sock = Clear" "umap_find (cliSessionMap (smgr (shared s))) sock = None"
      using st by (auto simp: holds_def)
    with race_ended st keys cnt none ok show ?thesis
      by (auto simp: clients_inv_def umap_none_keys intro!: exI[of _ stg])
  next
    case (race_monitor usage report w)
    with monitor_frame[OF race_monitor(2)] inv show ?thesis by (simp add: clients_inv_def)
  qed (use alone none inv in \<open>auto simp: clients_inv_def heartbeat_thread_def stop_thread_def atom_def Let_def\<close>)
qed

lemma owing_le: "owing stg es \<le> length es"
  by (simp add: owing_def)

section \<open>Schedules\<close>

abbreviation race_steps :: "libs \<Rightarrow> races \<Rightarrow> races \<Rightarrow> bool" where
  "race_steps L \<equiv> (race_step L)\<^sup>*\<^sup>*"

lemma beating_leads:
  assumes "leads t w t' w'" and "beating s = t" and "shared s = w"
  shows "\<exists>fds. race_steps L s (s\<lparr>shared := w', beating := t', open_fds := fds\<rparr>)"
  using assms
proof (induction arbitrary: s rule: leads.induct)
  case (leads_refl t w)
  then have "s = s\<lparr>shared := w, beating := t, open_fds := open_fds s\<rparr>" by (cases s) simp
  then show ?case by (metis rtranclp.rtrancl_refl)
next
  case (leads_step k w f t w')
  from race_beating[OF leads_step.prems(1), of L]
  have "race_step L s (moved (f w) (s\<lparr>beating := k w\<rparr>))" by (simp add: leads_step.prems(2))
  moreover from leads_step.IH[of "moved (f w) (s\<lparr>beating := k w\<rparr>)"]
  obtain fds where "race_steps L (moved (f w) (s\<lparr>beating := k w\<rparr>)) (s\<lparr>shared := w', beating := t, open_fds := fds\<rparr>)"
    by (auto simp: moved_def)
  ultimately show ?case by (meson converse_rtranclp_into_rtranclp)
qed

lemma ending_leads:
  assumes "leads t w t' w'" and "ending s = (sock, t) # es" and "shared s = w"
  shows "\<exists>fds. race_steps L s (s\<lparr>shared := w', ending := (sock, t') # es, open_fds := fds\<rparr>)"
  using assms
proof (induction arbitrary: s rule: leads.induct)
  case (leads_refl t w)
  then have "s = s\<lparr>shared := w, ending := (sock, t) # es, open_fds := open_fds s\<rparr>" by (cases s) simp
  then show ?case by (metis rtranclp.rtrancl_refl)
next
  case (leads_step k w f t w')
  from race_ending[of s "[]" sock f k es L] leads_step.prems
  have "race_step L s (moved (f w) (s\<lparr>ending := (sock, k w) # es\<rparr>))" by simp
  moreover from leads_step.IH[of "moved (f w) (s\<lparr>ending := (sock, k w) # es\<rparr>)"]
  obtain fds where "race_steps L (moved (f w) (s\<lparr>ending := (sock, k w) # es\<rparr>))
      (s\<lparr>shared := w', ending := (sock, t) # es, open_fds := fds\<rparr>)"
    by (auto simp: moved_def)
  ultimately show ?case by (meson converse_rtranclp_into_rtranclp)
qed

lemma stopping_leads:
  assumes "leads t w t' w'" and "stopping s = t" and "shared s = w"
  shows "\<exists>fds. race_steps L s (s\<lparr>shared := w', stopping := t', open_fds := fds\<rparr>)"
  using assms
proof (induction arbitrary: s rule: leads.induct)
  case (leads_refl t w)
  then have "s = s\<lparr>shared := w, stopping := t, open_fds := open_fds s\<rparr>" by (cases s) simp
  then show ?case by (metis rtranclp.rtrancl_refl)
next
  case (leads_step k w f t w')
  from race_stopping[OF leads_step.prems(1), of L]
  have "race_step L s (moved (f w) (s\<lparr>stopping := k w\<rparr>))" by (simp add: leads_step.prems(2))
  moreover from leads_step.IH[of "moved (f w) (s\<lparr>stopping := k w\<rparr>)"]
  obtain fds where "race_steps L (moved (f w) (s\<lparr>stopping := k w\<rparr>)) (s\<lparr>shared := w', stopping := t, open_fds := fds\<rparr>)"
    by (auto simp: moved_def)
  ultimately show ?case by (meson converse_rtranclp_into_rtranclp)
qed

lemma race_steps_reachable: "race_steps L s s' \<Longrightarrow> race_reachable L w0 s \<Longrightarrow> race_reachable L w0 s'"
  by (induction rule: rtranclp_induct) (auto intro: race_next)

lemma silent_round:
  assumes "running (server w)" and "inbox w sock = []"
  shows "run_state (client_round L junk sock) w = (Ended, w)"
proof -
  have "(inbox w)(sock := []) = inbox w" using assms(2) by auto
  then have "w\<lparr>inbox := (inbox w)(sock := [])\<rparr> = w" by (cases w) simp
  with assms show ?thesis by (simp add: client_round_def receive_data_def ReceiveData_def)
qed

text \<open>A client without a user that ends: nothing but its session, the counter and the socket.\<close>

lemma run_end_unnamed:
  assumes "sessions_ok (smgr w)" and "umap_find (cliSessionMap (smgr w)) sock = Some p" and "username (deref (smgr w) p) = []"
  shows "smgr (run_thread (end_thread L sock) w) = RemoveSession sock (smgr w)"
    "server (run_thread (end_thread L sock) w) = (server w)\<lparr>currentConnections := currentConnections (server w) - 1\<rparr>"
  using assms
  by (simp_all add: get_live[OF assms(1,2) refl] run_end finish_client_def get_session_def GetSession_def case_prod_beta forget_world close_socket_def
      del: run_session_get)

lemma RemoveSession_freed:
  "umap_find (cliSessionMap st) sock = Some p \<Longrightarrow> heap (RemoveSession sock st) p = None"
  by (simp add: RemoveSession_def Let_def delete_at_def)

lemma announce_frame:
  assumes "sessions_ok (smgr w)"
  shows "smgr (snd (run_state (announce_offline L n) w)) = smgr w" "server (snd (run_state (announce_offline L n) w)) = server w"
    "inbox (snd (run_state (announce_offline L n) w)) = inbox w"
  using wp_departed[OF assms, of L n] keepsD[OF steady.keeps_announce[OF refl, of "server w" "inbox w" "now w" L n], of w]
  by (simp_all add: wp_def departed_def)

text \<open>The heartbeat thread up to the removal of an idle session that is alone, and the end of a client up to
  the removal.\<close>

lemma heartbeat_to_removal:
  assumes ok: "sessions_ok (smgr w)" and only: "cliSessionMap (smgr w) = [(sock, p)]" and "idle (now w) (deref (smgr w) p)"
  shows "\<exists>w'. leads (heartbeat_thread L) w (forget_thread sock Done) w' \<and> smgr w' = smgr w \<and> server w' = server w \<and> inbox w' = inbox w"
proof -
  have live: "umap_find (cliSessionMap (smgr w)) sock = Some p" by (simp add: only umap_find_def)
  let ?w1 = "snd (run_state (announce_offline L (username (deref (smgr w) p))) w)"
  have "leads (heartbeat_thread L) w (heartbeat_entries L (now w) [(sock, p)]) w"
    unfolding heartbeat_thread_def by (intro leads_atom) (simp add: GetAllSessions_def only leads_refl)
  moreover have "leads (heartbeat_entries L (now w) [(sock, p)]) w
      (depart_thread L p (atom (shutdown_socket sock) (\<lambda>_. forget_thread sock Done))) w"
    using assms(3) unfolding heartbeat_entries.simps heartbeat_entry_def prod.case idle_def
    by (auto intro!: leads_run_atom[OF get_live[OF ok live refl]] leads_refl)
  moreover have "leads (atom (shutdown_socket sock) (\<lambda>_. forget_thread sock Done)) ?w1 (forget_thread sock Done)
      (?w1\<lparr>network := sys_shutdown sock (network ?w1)\<rparr>)"
    by (intro leads_atom) (simp add: shutdown_socket_def leads_refl)
  ultimately have "leads (heartbeat_thread L) w (forget_thread sock Done) (?w1\<lparr>network := sys_shutdown sock (network ?w1)\<rparr>)"
    by (meson leads_depart[OF ok live] leads_trans)
  then show ?thesis
    by (intro exI[of _ "?w1\<lparr>network := sys_shutdown sock (network ?w1)\<rparr>"]) (simp add: announce_frame[OF ok])
qed

lemma end_to_removal:
  assumes ok: "sessions_ok (smgr w)" and live: "umap_find (cliSessionMap (smgr w)) sock = Some p"
  shows "\<exists>w'. leads (end_thread L sock) w (forget_thread sock (atom (close_socket sock) (\<lambda>_. Done))) w'
    \<and> smgr w' = smgr w \<and> server w' = server w"
proof -
  let ?n = "username (deref (smgr w) p)" and ?rest = "forget_thread sock (atom (close_socket sock) (\<lambda>_. Done))"
  have get: "run_state (session_get p GetUsername) w = (?n, w)"
    using get_live[OF ok live refl, of GetUsername] by (simp del: run_session_get)
  have "run_state (get_session sock) w = (Some p, w)" by (simp add: get_session_def GetSession_def live)
  then have "leads (end_thread L sock) w (if ?n \<noteq> [] then depart_thread L p ?rest else ?rest) w"
    unfolding end_thread_def Let_def
    by (rule leads_run_atom) (use get in \<open>auto intro!: leads_run_atom leads_refl simp del: run_session_get\<close>)
  then show ?thesis
    using leads_depart[OF ok live, of L ?rest] announce_frame[OF ok]
    by (cases "?n = []") (auto intro: leads_trans)
qed

text \<open>\<open>Stop\<close> races with the clients in the same way: its loop works on a snapshot of the sessions, and a client that ends because
  the server is stopping deletes its session before the loop reaches it.\<close>

lemma stop_use_after_free:
  assumes "run_state (Start env) w0 = (True, w)" and "currentConnections (server w) < maxConnections (server w)"
  shows "\<exists>s. race_reachable L w0 s \<and> ub (smgr (shared s))"
proof -
  note start = Start_world[OF assms(1)]
  define sock :: int where "sock = (if serverSocket (server w) = 7 then 8 else 7)"
  define w1 where "w1 = (admitted sock [] 0 w)\<lparr>server := (server (admitted sock [] 0 w))\<lparr>running := False\<rparr>\<rparr>"
  define w2 where "w2 = run_thread (end_thread L sock) w1"
  let ?s = "\<lambda>w l e st fds. \<lparr>shared = w, looping = l, ending = e, beating = Done, stopping = st, open_fds = fds\<rparr>"
  let ?close = "atom (gets (\<lambda>w. serverSocket (server w))) (\<lambda>s. if s = -1 then Done
      else atom (shutdown_socket s) (\<lambda>_. atom (close_socket s) (\<lambda>_. atom (set_server (\<lambda>sv. sv\<lparr>serverSocket := -1\<rparr>)) (\<lambda>_. Done))))"
  let ?loop = "stop_entries L [(sock, 0)] ?close"
  have sock: "0 \<le> sock" "sock \<notin> {serverSocket (server w)}" by (auto simp: sock_def)
  have ok: "sessions_ok (smgr w)" using start(1) sessions_ok_new by simp
  then have w1: "sessions_ok (smgr w1)" "\<not> running (server w1)" "cliSessionMap (smgr w1) = [(sock, 0)]"
    "heap (smgr w1) 0 = Some (ClientSession_new (now w) sock [] 0)"
    using start admitted_simps(6)[of sock "[]" 0 w] admitted_ok[OF ok] by (simp_all add: w1_def SessionManager_new_def umap_set_def)
  have "has_sessionManager (server w)"
    using assms(1) by (auto simp: Start_def create_managers_def set_server_def close_socket_def split: if_splits)
  then have mgr: "has_sessionManager (server w1)" by (simp add: w1_def admitted_def)
  have live: "umap_find (cliSessionMap (smgr w1)) sock = Some 0" using w1(3) by (simp add: umap_find_def)
  have unnamed: "username (deref (smgr w1) 0) = []" using w1(4) by (simp add: deref_def ClientSession_new_def)
  note w2 = run_end_unnamed[OF w1(1) live unnamed, of L, folded w2_def]
  have "race_reachable L w0 (?s w [] [] Done {serverSocket (server w)})"
    using race_start[OF assms(1), of L] by (simp add: race_init_def)
  moreover have "\<exists>fds. race_step L (?s w [] [] Done {serverSocket (server w)}) (?s (admitted sock [] 0 w) [sock] [] Done fds)"
    using race_accept[OF _ sock(1) _ run_accept_new, of "?s w [] [] Done {serverSocket (server w)}"] start sock assms(2)
    by (auto simp: moved_def)
  moreover have "race_step L (?s (admitted sock [] 0 w) [sock] [] Done fds) (?s w1 [sock] [] Done fds)" for fds
    using race_signal[of L "?s (admitted sock [] 0 w) [sock] [] Done fds"] by (simp add: w1_def)
  moreover have "race_step L (?s w1 [sock] [] Done fds) (?s w1 [sock] [] (stop_thread L) fds)" for fds
    using race_stop[of "?s w1 [sock] [] Done fds" L] w1(2) by simp
  moreover have "\<exists>fds'. race_steps L (?s w1 [sock] [] (stop_thread L) fds) (?s w1 [sock] [] ?loop fds')" for fds
  proof -
    have "leads (stop_thread L) w1 ?loop w1"
      unfolding stop_thread_def Let_def
      by (rule leads_atom) (use w1 mgr in \<open>auto intro!: leads_atom simp: GetAllSessions_def leads_refl\<close>)
    from stopping_leads[OF this, of "?s w1 [sock] [] (stop_thread L) fds" L] show ?thesis by auto
  qed
  moreover have "\<exists>fds'. race_step L (?s w1 [sock] [] b fds) (?s w1 [] [(sock, end_thread L sock)] b fds')" for b fds
    using race_end[of sock "?s w1 [sock] [] b fds" L _ w1] w1(2) by (auto simp: moved_def client_round_def)
  moreover have "\<exists>fds'. race_steps L (?s w1 [] [(sock, end_thread L sock)] b fds) (?s w2 [] [(sock, Done)] b fds')" for b fds
    using ending_leads[OF leads_run, of "?s w1 [] [(sock, end_thread L sock)] b fds" sock "end_thread L sock" "[]" w1 L]
    by (auto simp: w2_def)
  moreover have "\<exists>s'. race_step L (?s w2 [] [(sock, Done)] ?loop fds) s' \<and> ub (smgr (shared s'))" for fds
    using race_stopping[of "?s w2 [] [(sock, Done)] ?loop fds"] w2 live
    by (fastforce simp: stop_entry_def Let_def atom_def touch_def RemoveSession_freed)
  ultimately show ?thesis
    by (meson race_next race_steps_reachable)
qed
section \<open>Properties\<close>

text \<open>One connection, logged in, and nothing heard from it for 1000 seconds.\<close>

definition idle_world :: world where
  "idle_world = demo_world\<lparr>now := 1000, smgr := demo_sessions\<lparr>cliSessionMap := [(4, 0)]\<rparr>,
     server := demo_server\<lparr>currentConnections := 1\<rparr>\<rparr>"

definition number_libs :: libs where
  "number_libs = demo_libs\<lparr>json_of := demo_jsoncpp\<lparr>json_parse := (\<lambda>s. if s = ''1'' then Some (JInt 1) else None)\<rparr>\<rparr>"

text \<open>C6: The ends of the client tasks do not race with each other: as long as the heartbeat thread and \<open>Stop\<close> do not run and
  every descriptor belongs to at most one task, then however the statements of the tasks that end --- one of which notifies all friends --- interleave with each other, with
  whole requests and with new connections, no deleted session is used, every session has its task, and the connection counter is
  at least the number of sessions and exceeds it by at most the number of tasks that are ending.\<close>

theorem client_ends_do_not_race:
  assumes "run_state (Start env) w0 = (True, w)" and "currentConnections (server w0) = 0"
    and "(client_step L)\<^sup>*\<^sup>* (race_init w) s"
  shows "sessions_ok (smgr (shared s))
    \<and> int (length (cliSessionMap (smgr (shared s)))) \<le> currentConnections (server (shared s))
    \<and> currentConnections (server (shared s)) \<le> int (length (cliSessionMap (smgr (shared s)))) + int (length (ending s))
    \<and> fst ` set (cliSessionMap (smgr (shared s))) \<subseteq> set (looping s) \<union> fst ` set (ending s)"
proof -
  have "clients_inv s \<and> distinct (looping s @ map fst (ending s))"
    using assms(3)
  proof induction
    case base
    have "currentConnections (server w) = 0"
      using assms(1,2) by (auto simp: Start_def create_managers_def set_server_def close_socket_def split: if_splits)
    then show ?case
      using Start_world[OF assms(1)] sessions_ok_new
      by (auto simp: clients_inv_def race_init_def SessionManager_new_def)
  next
    case (step s s')
    then show ?case using clients_inv_step by (auto simp: client_step_def)
  qed
  then show ?thesis using owing_le by (auto simp: clients_inv_def)
qed

theorem client_ends_do_not_race_witness:
  "\<exists>w s. (client_step demo_libs)\<^sup>*\<^sup>* (race_init w) s \<and> looping s = [7] \<and> sessions_ok (smgr (shared s))
     \<and> 1 \<le> currentConnections (server (shared s))"
proof -
  obtain env w where start: "run_state (Start env) fresh_world = (True, w)"
    and room: "currentConnections (server w) < maxConnections (server w)" and fd: "serverSocket (server w) = 3"
    using fresh_start by blast
  let ?s = "moved (admitted 7 [] 0 w) ((race_init w)\<lparr>looping := [7], open_fds := insert 7 (open_fds (race_init w))\<rparr>)"
  have "race_step demo_libs (race_init w) ?s"
    using race_accept[of "race_init w" 7 "[]" 0 "Submit 7" "admitted 7 [] 0 w" demo_libs] run_accept_new[OF room] Start_world[OF start] fd
    by (simp add: race_init_def)
  then have run: "(client_step demo_libs)\<^sup>*\<^sup>* (race_init w) ?s"
    by (intro r_into_rtranclp) (simp add: client_step_def)
  have "cliSessionMap (smgr (shared ?s)) \<noteq> []" by (simp add: umap_set_def neq_Nil_conv split: list.splits)
  moreover have "sessions_ok (smgr (shared ?s))"
    "int (length (cliSessionMap (smgr (shared ?s)))) \<le> currentConnections (server (shared ?s))"
    using client_ends_do_not_race[OF start _ run] by (simp_all add: Server_new_def)
  ultimately have "1 \<le> currentConnections (server (shared ?s))"
    by (cases "cliSessionMap (smgr (shared ?s))") simp_all
  with run \<open>sessions_ok (smgr (shared ?s))\<close> show ?thesis
    by (intro exI[of _ w] exI[of _ ?s]) simp
qed

text \<open>C7: The heartbeat thread races with the clients: for every started server that can still admit a client there is a schedule
  --- one client connects, the heartbeat thread takes its snapshot, the client disconnects --- after which the heartbeat
  thread calls a method on the deleted session.  No fault and no login is needed.\<close>

theorem heartbeat_use_after_free:
  assumes "run_state (Start env) w0 = (True, w)" and "currentConnections (server w) < maxConnections (server w)"
  shows "\<exists>s. race_reachable L w0 s \<and> running (server (shared s)) \<and> ub (smgr (shared s))"
proof -
  note start = Start_world[OF assms(1)]
  define sock :: int where "sock = (if serverSocket (server w) = 7 then 8 else 7)"
  define w1 where "w1 = (admitted sock [] 0 w)\<lparr>now := now w, inbox := \<lambda>_. []\<rparr>"
  define w2 where "w2 = run_thread (end_thread L sock) w1"
  let ?s = "\<lambda>w l e b fds. \<lparr>shared = w, looping = l, ending = e, beating = b, stopping = Done, open_fds = fds\<rparr>"
  have sock: "0 \<le> sock" "sock \<notin> {serverSocket (server w)}" by (auto simp: sock_def)
  have ok: "sessions_ok (smgr w)" using start(1) sessions_ok_new by simp
  then have w1: "sessions_ok (smgr w1)" "running (server w1)" "inbox w1 sock = []" "cliSessionMap (smgr w1) = [(sock, 0)]"
    "heap (smgr w1) 0 = Some (ClientSession_new (now w) sock [] 0)"
    using start admitted_simps(6)[of sock "[]" 0 w] admitted_ok[OF ok] by (simp_all add: w1_def SessionManager_new_def umap_set_def)
  then have live: "umap_find (cliSessionMap (smgr w1)) sock = Some 0" by (simp add: umap_find_def)
  have unnamed: "username (deref (smgr w1) 0) = []" using w1(5) by (simp add: deref_def ClientSession_new_def)
  note w2 = run_end_unnamed[OF w1(1) live unnamed, of L, folded w2_def]
  have "race_reachable L w0 (?s w [] [] Done {serverSocket (server w)})"
    using race_start[OF assms(1), of L] by (simp add: race_init_def)
  moreover have "\<exists>fds. race_step L (?s w [] [] Done {serverSocket (server w)}) (?s (admitted sock [] 0 w) [sock] [] Done fds)"
    using race_accept[OF _ sock(1) _ run_accept_new, of "?s w [] [] Done {serverSocket (server w)}"] start sock assms(2)
    by (auto simp: moved_def)
  moreover have "race_step L (?s (admitted sock [] 0 w) [sock] [] Done fds) (?s w1 [sock] [] Done fds)" for fds
    using race_environment[of "?s (admitted sock [] 0 w) [sock] [] Done fds" "now w" L "\<lambda>_. []"]
    by (simp add: w1_def admitted_def)
  moreover have "race_step L (?s w1 [sock] [] Done fds) (?s w1 [sock] [] (heartbeat_thread L) fds)" for fds
    using race_heartbeat[of "?s w1 [sock] [] Done fds" L] w1(2) by simp
  moreover have "\<exists>fds'. race_steps L (?s w1 [sock] [] (heartbeat_thread L) fds)
      (?s w1 [sock] [] (heartbeat_entries L (now w1) [(sock, 0)]) fds')" for fds
  proof -
    have "leads (heartbeat_thread L) w1 (heartbeat_entries L (now w1) [(sock, 0)]) w1"
      unfolding heartbeat_thread_def by (intro leads_atom) (simp add: GetAllSessions_def w1(4) leads_refl)
    from beating_leads[OF this, of "?s w1 [sock] [] (heartbeat_thread L) fds" L] show ?thesis by auto
  qed
  moreover have "\<exists>fds'. race_step L (?s w1 [sock] [] b fds) (?s w1 [] [(sock, end_thread L sock)] b fds')" for b fds
    using race_end[of sock "?s w1 [sock] [] b fds" L _ w1] silent_round[OF w1(2,3)] by (auto simp: moved_def)
  moreover have "\<exists>fds'. race_steps L (?s w1 [] [(sock, end_thread L sock)] b fds) (?s w2 [] [(sock, Done)] b fds')" for b fds
    using ending_leads[OF leads_run, of "?s w1 [] [(sock, end_thread L sock)] b fds" sock "end_thread L sock" "[]" w1 L]
    by (auto simp: w2_def)
  moreover have "\<exists>s'. race_step L (?s w2 [] [(sock, Done)] (heartbeat_entries L (now w1) [(sock, 0)]) fds) s'
      \<and> running (server (shared s')) \<and> ub (smgr (shared s'))" for fds
    using race_beating[of "?s w2 [] [(sock, Done)] (heartbeat_entries L (now w1) [(sock, 0)]) fds"] w1(2) w2 live
    by (fastforce simp: heartbeat_entry_def atom_def touch_def RemoveSession_freed)
  ultimately show ?thesis
    by (meson race_next race_steps_reachable)
qed

theorem heartbeat_use_after_free_witness:
  "\<exists>s. race_reachable demo_libs fresh_world s \<and> ub (smgr (shared s))"
  using fresh_start heartbeat_use_after_free[of _ fresh_world _ demo_libs] by blast

text \<open>A connection can be counted out twice: when the only client is silent for too long and the heartbeat thread disconnects it,
  the client's task, woken by the shutdown of its socket, can find the session before it is removed; then both decrement the
  counter, which ends at one below the number of sessions, for good, and no deleted session has been used.\<close>

lemma double_disconnect:
  assumes ok: "sessions_ok (smgr (shared s))" and only: "cliSessionMap (smgr (shared s)) = [(sock, p)]"
    and idle: "idle (now (shared s)) (deref (smgr (shared s)) p)"
    and task: "looping s = [sock]" "ending s = []" "beating s = Done"
    and up: "running (server (shared s))" and silent: "inbox (shared s) sock = []"
  shows "\<exists>s'. race_steps L s s' \<and> looping s' = [] \<and> ending s' = [] \<and> beating s' = Done
     \<and> sessions_ok (smgr (shared s')) \<and> cliSessionMap (smgr (shared s')) = []
     \<and> server (shared s') = (server (shared s))\<lparr>currentConnections := currentConnections (server (shared s)) - 2\<rparr>"
proof -
  let ?w = "shared s" and ?close = "atom (close_socket sock) (\<lambda>_. Done)"
  obtain w1 where beat: "leads (heartbeat_thread L) ?w (forget_thread sock Done) w1"
    and w1: "smgr w1 = smgr ?w" "server w1 = server ?w" "inbox w1 = inbox ?w"
    using heartbeat_to_removal[OF ok only idle] by blast
  have live: "umap_find (cliSessionMap (smgr w1)) sock = Some p" by (simp add: w1 only umap_find_def)
  obtain w2 where ended: "leads (end_thread L sock) w1 (forget_thread sock ?close) w2"
    and w2: "smgr w2 = smgr ?w" "server w2 = server ?w"
    using end_to_removal[of w1 sock p L] ok live w1 by auto
  define w3 where "w3 = snd (run_state (forget_session sock) w2)"
  define w4 where "w4 = run_thread (forget_thread sock ?close) w3"
  have gone: "cliSessionMap (RemoveSession sock (smgr ?w)) = []"
    by (simp add: RemoveSession_maps only umap_find_def umap_erase_def)
  then have "RemoveSession sock (RemoveSession sock (smgr ?w)) = RemoveSession sock (smgr ?w)"
    by (simp add: RemoveSession_def[of sock "RemoveSession sock (smgr ?w)"] umap_find_def)
  then have w4: "smgr w4 = RemoveSession sock (smgr ?w)" "server w4 = (server ?w)\<lparr>currentConnections := currentConnections (server ?w) - 2\<rparr>"
    by (simp_all add: w4_def w3_def run_forget run_atom forget_world close_socket_def w2)
  let ?s = "\<lambda>w l e b fds. \<lparr>shared = w, looping = l, ending = e, beating = b, stopping = stopping s, open_fds = fds\<rparr>"
  have s: "s = ?s ?w [sock] [] Done (open_fds s)" using task by (cases s) simp
  have "race_step L (?s ?w [sock] [] Done fds) (?s ?w [sock] [] (heartbeat_thread L) fds)" for fds
    using race_heartbeat[of "?s ?w [sock] [] Done fds" L] up by simp
  moreover have "\<exists>fds'. race_steps L (?s ?w [sock] [] (heartbeat_thread L) fds) (?s w1 [sock] [] (forget_thread sock Done) fds')" for fds
    using beating_leads[OF beat, of "?s ?w [sock] [] (heartbeat_thread L) fds" L] by auto
  moreover have "\<exists>fds'. race_step L (?s w1 [sock] [] b fds) (?s w1 [] [(sock, end_thread L sock)] b fds')" for b fds
    using race_end[of sock "?s w1 [sock] [] b fds" L _ w1] silent_round[of w1 sock L] by (auto simp: moved_def w1 up silent)
  moreover have "\<exists>fds'. race_steps L (?s w1 [] [(sock, end_thread L sock)] b fds) (?s w2 [] [(sock, forget_thread sock ?close)] b fds')" for b fds
    using ending_leads[OF ended, of "?s w1 [] [(sock, end_thread L sock)] b fds" sock "[]" L] by auto
  moreover have "\<exists>fds'. race_steps L (?s w2 [] e (forget_thread sock Done) fds) (?s w3 [] e Done fds')" for e fds
    using beating_leads[OF leads_forget, of "?s w2 [] e (forget_thread sock Done) fds" sock Done w2 L] by (auto simp: w3_def)
  moreover have "\<exists>fds'. race_steps L (?s w3 [] [(sock, forget_thread sock ?close)] b fds) (?s w4 [] [(sock, Done)] b fds')" for b fds
    using ending_leads[OF leads_run, of "?s w3 [] [(sock, forget_thread sock ?close)] b fds" sock "forget_thread sock ?close" "[]" w3 L]
    by (auto simp: w4_def)
  moreover have "race_step L (?s w4 [] [(sock, Done)] b fds) (?s w4 [] [] b fds)" for b fds
    using race_ended[of "?s w4 [] [(sock, Done)] b fds" "[]" sock "[]" L] by simp
  ultimately have "\<exists>fds. race_steps L (?s ?w [sock] [] Done (open_fds s)) (?s w4 [] [] Done fds)"
    by (meson rtranclp_trans r_into_rtranclp)
  then obtain fds where "race_steps L s (?s w4 [] [] Done fds)" using s by metis
  then show ?thesis
    by (intro exI[of _ "?s w4 [] [] Done fds"]) (simp add: w4 gone sessions_ok_RemoveSession[OF ok])
qed

text \<open>Clients that are admitted one after the other.\<close>

lemma finite_fds: "race_step L s s' \<Longrightarrow> finite (open_fds s) \<Longrightarrow> finite (open_fds s')"
  by (cases rule: race_step.cases) (auto simp: moved_def)

lemma finite_fds_steps: "race_steps L s s' \<Longrightarrow> finite (open_fds s) \<Longrightarrow> finite (open_fds s')"
  by (induction rule: rtranclp_induct) (auto intro: finite_fds)

lemma admit_many:
  assumes "running (server (shared s))" and "finite (open_fds s)" and "sessions_ok (smgr (shared s))"
    and "fst ` set (cliSessionMap (smgr (shared s))) \<subseteq> open_fds s"
    and "currentConnections (server (shared s)) + int n \<le> maxConnections (server (shared s))"
  shows "\<exists>s'. race_steps L s s' \<and> sessions_ok (smgr (shared s'))
    \<and> length (cliSessionMap (smgr (shared s'))) = length (cliSessionMap (smgr (shared s))) + n
    \<and> maxConnections (server (shared s')) = maxConnections (server (shared s))"
  using assms
proof (induction n arbitrary: s)
  case 0
  then show ?case by auto
next
  case (Suc n)
  obtain sock where sock: "0 \<le> sock" "sock \<notin> open_fds s"
  proof -
    have "infinite {0 :: int..}" by (rule infinite_Ici)
    then obtain x where "x \<in> {0 :: int..} - open_fds s" using Suc.prems(2) by (metis Diff_infinite_finite finite.emptyI subsetI subset_empty ex_in_conv)
    with that[of x] show thesis by simp
  qed
  let ?w = "admitted sock [] 0 (shared s)"
  let ?s1 = "moved ?w (s\<lparr>looping := sock # looping s, open_fds := insert sock (open_fds s)\<rparr>)"
  have step: "race_step L s ?s1"
    using race_accept[OF Suc.prems(1) sock run_accept_new, of L "[]" 0] Suc.prems(5) by simp
  have fds: "open_fds ?s1 = insert sock (open_fds s)" by (simp add: moved_def closed_since_def admitted_def)
  have none: "umap_find (cliSessionMap (smgr (shared s))) sock = None" using sock Suc.prems(4) by (auto simp: umap_none_keys)
  have "\<exists>s'. race_steps L ?s1 s' \<and> sessions_ok (smgr (shared s'))
    \<and> length (cliSessionMap (smgr (shared s'))) = length (cliSessionMap (smgr (shared ?s1))) + n
    \<and> maxConnections (server (shared s')) = maxConnections (server (shared ?s1))"
    by (rule Suc.IH) (use Suc.prems fds admitted_ok in \<open>auto simp: umap_set_fresh[OF none]\<close>)
  then show ?case
    using step by (auto simp: umap_set_fresh[OF none] intro: converse_rtranclp_into_rtranclp)
qed

text \<open>C23: The connection limit can be broken: a connection can be counted out twice, by the heartbeat thread and by its own task, which
  leaves the counter one below the number of sessions for good; then the server admits one client more than \<open>maxConnections\<close>.\<close>

theorem limit_exceeded:
  assumes ok: "sessions_ok (smgr (shared s))" and only: "cliSessionMap (smgr (shared s)) = [(sock, p)]"
    and idle: "idle (now (shared s)) (deref (smgr (shared s)) p)"
    and task: "looping s = [sock]" "ending s = []" "beating s = Done"
    and up: "running (server (shared s))" and silent: "inbox (shared s) sock = []" and fds: "finite (open_fds s)"
    and one: "currentConnections (server (shared s)) = 1" "1 \<le> maxConnections (server (shared s))"
  shows "\<exists>s'. race_steps L s s' \<and> sessions_ok (smgr (shared s'))
    \<and> maxConnections (server (shared s')) = maxConnections (server (shared s))
    \<and> int (length (cliSessionMap (smgr (shared s')))) = maxConnections (server (shared s)) + 1"
proof -
  obtain s1 where s1: "race_steps L s s1" "sessions_ok (smgr (shared s1))" "cliSessionMap (smgr (shared s1)) = []"
    "server (shared s1) = (server (shared s))\<lparr>currentConnections := currentConnections (server (shared s)) - 2\<rparr>"
    using double_disconnect[OF assms(1-8), of L] by blast
  let ?n = "nat (maxConnections (server (shared s)) + 1)"
  obtain s2 where "race_steps L s1 s2" "sessions_ok (smgr (shared s2))" "length (cliSessionMap (smgr (shared s2))) = ?n"
    "maxConnections (server (shared s2)) = maxConnections (server (shared s))"
    using admit_many[of s1 ?n L] s1 up one finite_fds_steps[OF s1(1) fds] by auto
  with s1(1) one show ?thesis by (intro exI[of _ s2]) auto
qed

theorem limit_exceeded_witness:
  "\<exists>s'. length (cliSessionMap (smgr (shared s'))) = 129 \<and> maxConnections (server (shared s')) = 128
     \<and> race_steps demo_libs \<lparr>shared = idle_world, looping = [4], ending = [], beating = Done, stopping = Done,
         open_fds = {3, 4}\<rparr> s'"
proof -
  let ?s = "\<lparr>shared = idle_world, looping = [4], ending = [], beating = Done, stopping = Done, open_fds = {3, 4}\<rparr>"
  have "sessions_ok (smgr idle_world)"
    using demo_sessions_ok
    by (auto simp: sessions_ok_def idle_world_def demo_sessions_def umap_wf_def umap_find_def demo_session_def
        SetUsername_def ClientSession_new_def)
  moreover have "idle (now idle_world) (deref (smgr idle_world) 0)"
    by (simp add: idle_def idle_world_def deref_def demo_sessions_def demo_session_def SetUsername_def ClientSession_new_def)
  moreover have "running (server idle_world)" "inbox idle_world 4 = []" "cliSessionMap (smgr idle_world) = [(4, 0)]"
    "currentConnections (server idle_world) = 1" "maxConnections (server idle_world) = 128"
    by (simp_all add: idle_world_def demo_server_def) (simp add: demo_world_def)
  ultimately show ?thesis
    using limit_exceeded[of ?s 4 0 demo_libs] by auto
qed

text \<open>C26: A client can lose its session to the task of another one: the exception handler closes the socket before it removes
  the session, so a new client can get the same descriptor; then the handler removes the session of the new client, whose task
  runs on without one, and the counter stays one too high for good.\<close>

theorem reused_descriptor:
  assumes task: "sock \<in> set (looping s)" and threw: "run_state (client_round L junk sock) (shared s) = (Threw, w)"
    and ok: "sessions_ok (smgr w)" and live: "umap_find (cliSessionMap (smgr w)) sock = Some p"
    and room: "currentConnections (server w) < maxConnections (server w)" and sock: "0 \<le> sock"
  shows "\<exists>s'. race_steps L s s' \<and> sock \<in> set (looping s') \<and> ending s' = ending s \<and> beating s' = beating s
     \<and> sessions_ok (smgr (shared s')) \<and> GetSession sock (smgr (shared s')) = None
     \<and> length (cliSessionMap (smgr (shared s'))) = length (cliSessionMap (smgr w)) - 1
     \<and> currentConnections (server (shared s')) = currentConnections (server w)"
proof -
  let ?S = "\<lambda>w l e fds. \<lparr>shared = w, looping = l, ending = e, beating = beating s, stopping = stopping s, open_fds = fds\<rparr>"
  let ?ls = "remove1 sock (looping s)" and ?es = "ending s"
  define w1 where "w1 = w\<lparr>network := sys_close sock (network w)\<rparr>"
  define w2 where "w2 = admitted sock [] 0 w1"
  define w3 where "w3 = run_thread (throw_forget L sock) w2"
  have up: "running (server w1)"
    using threw DispatchRequest_frame(1) by (auto simp: client_round_def receive_data_def case_prod_beta w1_def split: if_splits)
  have ok2: "sessions_ok (smgr w2)" using ok by (simp add: w2_def w1_def admitted_ok)
  have live2: "umap_find (cliSessionMap (smgr w2)) sock = Some (next_ptr (smgr w1))" by (simp add: w2_def um_simps)
  have "heap (smgr w2) (next_ptr (smgr w1)) = Some (ClientSession_new (now w1) sock [] 0)"
    unfolding w2_def by (rule admitted_simps)
  then have unnamed: "username (deref (smgr w2) (next_ptr (smgr w1))) = []" by (simp add: deref_def ClientSession_new_def)
  have "w3 = snd (run_state (forget_session sock) w2)"
    using unnamed get_live[OF ok2 live2 refl, of GetUsername]
    by (simp add: w3_def throw_forget_def run_atom run_forget get_session_def GetSession_def live2 del: run_session_get)
  then have w3: "smgr w3 = RemoveSession sock (smgr w2)" "currentConnections (server w3) = currentConnections (server w)"
    by (simp_all add: forget_world) (simp add: w2_def w1_def)
  have wf: "umap_wf (cliSessionMap (smgr w))" using ok by (simp add: sessions_ok_def)
  have maps: "cliSessionMap (smgr w3) = umap_erase sock (cliSessionMap (smgr w2))"
    "cliSessionMap (smgr w2) = umap_set sock (next_ptr (smgr w1)) (cliSessionMap (smgr w))"
    by (simp_all add: w3 RemoveSession_maps live2) (simp add: w2_def w1_def)
  have size: "length (cliSessionMap (smgr w3)) = length (cliSessionMap (smgr w)) - 1"
    using wf live by (simp add: maps um.count_erase um.count_put um.wf_put um_simps)
  have "\<exists>fds. race_step L s (?S w ?ls ((sock, throw_thread L sock) # ?es) fds)"
    using race_throw[OF task threw] by (cases s) (auto simp: moved_def)
  moreover have "race_step L (?S w ?ls ((sock, throw_thread L sock) # ?es) fds)
      (?S w ?ls ((sock, atom (close_socket sock) (\<lambda>_. throw_forget L sock)) # ?es) fds)" for fds
    using race_ending[of "?S w ?ls ((sock, throw_thread L sock) # ?es) fds" "[]" sock _ _ ?es L]
    by (auto simp: throw_thread_def atom_def moved_def closed_since_def handled)
  moreover have "race_step L (?S w ?ls ((sock, atom (close_socket sock) (\<lambda>_. throw_forget L sock)) # ?es) fds) (?S w1 ?ls ((sock, throw_forget L sock) # ?es) (fds - {sock}))" for fds
    using race_ending[of "?S w ?ls ((sock, atom (close_socket sock) (\<lambda>_. throw_forget L sock)) # ?es) fds" "[]" sock _ _ ?es L]
    by (auto simp: atom_def moved_def closed_since_def close_socket_def w1_def sys_close_def)
  moreover have "\<exists>fds'. race_step L (?S w1 ?ls e (fds - {sock})) (?S w2 (sock # ?ls) e fds')" for e fds
    using race_accept[OF _ sock _ run_accept_new, of "?S w1 ?ls e (fds - {sock})"] up room
    by (auto simp: moved_def w2_def w1_def)
  moreover have "\<exists>fds'. race_steps L (?S w2 l ((sock, throw_forget L sock) # ?es) fds) (?S w3 l ((sock, Done) # ?es) fds')" for l fds
    using ending_leads[OF leads_run, of "?S w2 l ((sock, throw_forget L sock) # ?es) fds" sock "throw_forget L sock" ?es w2 L]
    by (auto simp: w3_def)
  moreover have "race_step L (?S w3 l ((sock, Done) # ?es) fds) (?S w3 l ?es fds)" for l fds
    using race_ended[of "?S w3 l ((sock, Done) # ?es) fds" "[]" sock ?es L] by simp
  ultimately have "\<exists>fds. race_steps L s (?S w3 (sock # ?ls) ?es fds)"
    by (meson rtranclp_trans r_into_rtranclp)
  then obtain fds where "race_steps L s (?S w3 (sock # ?ls) ?es fds)" ..
  then show ?thesis
    by (intro exI[of _ "?S w3 (sock # ?ls) ?es fds"])
      (simp add: w3 size[unfolded maps(1)] maps(1)[unfolded w3] sessions_ok_RemoveSession[OF ok2] GetSession_def RemoveSession_maps live2 um_simps)
qed

theorem reused_descriptor_witness:
  "\<exists>s'. race_steps number_libs \<lparr>shared = demo_world\<lparr>inbox := (\<lambda>_. [PackageMessage ''1''])\<rparr>, looping = [4, 5, 6], ending = [],
       beating = Done, stopping = Done, open_fds = {3, 4, 5, 6}\<rparr> s'
     \<and> 6 \<in> set (looping s') \<and> GetSession 6 (smgr (shared s')) = None
     \<and> length (cliSessionMap (smgr (shared s'))) = 2 \<and> currentConnections (server (shared s')) = 3"
proof -
  let ?w = "demo_world\<lparr>inbox := (\<lambda>_. [PackageMessage ''1''])\<rparr>"
  let ?s = "\<lparr>shared = ?w, looping = [4, 5, 6], ending = [], beating = Done, stopping = Done, open_fds = {3, 4, 5, 6}\<rparr>"
  have recv: "ReceiveData [] [PackageMessage ''1''] = (''1'', [])"
    using receive_frame[of "[PackageMessage ''1'']" "''1''" "[]" "[]"] by (simp add: PackageMessage_def valid_body_def max_body_def)
  have "run_state (DispatchRequest number_libs 0 6 ''1'') w = (False, w)" for w
    by (simp add: DispatchRequest_def number_libs_def) (simp add: demo_jsoncpp_def)
  with recv have threw: "run_state (client_round number_libs ([], 0) 6) ?w = (Threw, ?w\<lparr>inbox := (inbox ?w)(6 := [])\<rparr>)"
    by (simp add: client_round_def receive_data_def demo_server_def)
  have "umap_find (cliSessionMap demo_sessions) 6 = Some 2" by (simp add: demo_sessions_def umap_find_def)
  moreover have "length (cliSessionMap demo_sessions) = 3" by (simp add: demo_sessions_def)
  ultimately show ?thesis
    using threw demo_sessions_ok
      reused_descriptor[of 6 ?s number_libs "([], 0)" "?w\<lparr>inbox := (inbox ?w)(6 := [])\<rparr>" 2]
    by (auto simp: demo_server_def)
qed

end
