(* ===== verification/Session_Races.thy ===== *)
theory Session_Races
  imports Login_Race Server_Races
begin

text \<open>
  Requests that use the session of another connection.  \<open>SessionManager\<close> hands out raw pointers and locks its maps only for
  the lookup, so a handler that looks up another user's session --- a login that ends an earlier session
  (\<^verbatim>\<open>src/src/system/user_manager.cpp\<close>), the delivery of a message (\<^verbatim>\<open>src/src/system/message_manager.cpp\<close>) --- holds
  the pointer while the task of that connection may delete the session.  Sending a message is split into its statements
  here, as the login is in \<open>Login_Race\<close>.
\<close>

section \<open>Sending a message, statement by statement\<close>

definition forward_thread :: "libs \<Rightarrow> int \<Rightarrow> string \<Rightarrow> int \<Rightarrow> string \<Rightarrow> string \<Rightarrow> string \<Rightarrow> thread \<Rightarrow> thread" where
  "forward_thread L fromId senderName toId receiverName content timeText rest =
     atom (get_session_by_username receiverName) (\<lambda>receiverSession. case receiverSession of
         None \<Rightarrow> rest
       | Some p \<Rightarrow> atom (gets (\<lambda>w. mm_sendCallback (server w))) (\<lambda>callback.
           if callback
           then atom (session_get p GetSocket) (\<lambda>sock.
                atom (send_data sock (forward_json L senderName content timeText)) (\<lambda>result.
                  if result then atom (MarkMessagesAsRead fromId toId) (\<lambda>_. rest) else rest))
           else rest))"

definition deliver_thread :: "libs \<Rightarrow> int \<Rightarrow> int \<Rightarrow> Request \<Rightarrow> thread \<Rightarrow> thread" where
  "deliver_thread L fromId toId request rest =
     atom (get_session_by_username (targetUsername request)) (\<lambda>receiverSession.
     atom (gets (\<lambda>w. mm_sendCallback (server w))) (\<lambda>callback. case receiverSession of
         None \<Rightarrow> rest
       | Some p \<Rightarrow>
           if callback
           then forward_thread L fromId (rusername request) toId (targetUsername request) (rcontent request) []
                (atom (session_get p GetSocket) (\<lambda>sock.
                 atom (SendNotification L sock (rusername request) (rcontent request)) (\<lambda>_. rest)))
           else rest))"

definition send_thread :: "libs \<Rightarrow> Request \<Rightarrow> thread" where
  "send_thread L request =
     (if \<not> ValidateMessageContent (rcontent request) \<or> length (rcontent request) > maxMessageSize then Done
      else atom (GetUserIdByUsername L (rusername request)) (\<lambda>sid. case sid of
          None \<Rightarrow> Done
        | Some fromId \<Rightarrow> atom (GetUserIdByUsername L (targetUsername request)) (\<lambda>rid. case rid of
              None \<Rightarrow> Done
            | Some toId \<Rightarrow> atom (StoreMessage fromId toId (rcontent request)) (\<lambda>stored.
                if \<not> stored then Done
                else atom (GetUserOnlineStatus toId) (\<lambda>isOnline.
                  if isOnline = Some True then deliver_thread L fromId toId request Done else Done)))))"

lemma run_forward: "run_thread (forward_thread L a n b m c t rest) w = run_thread rest (snd (run_state (ForwardMessage L a n b m c t) w))"
  by (simp add: forward_thread_def ForwardMessage_def run_atom case_prod_beta del: run_session_get split: option.split)

lemma run_deliver: "run_thread (deliver_thread L a b rq rest) w = run_thread rest (snd (run_state (deliver_online L a b rq) w))"
  by (simp add: deliver_thread_def deliver_online_def run_atom run_forward case_prod_beta del: run_session_get split: option.split)

lemma run_send: "run_thread (send_thread L rq) w = snd (run_state (HandleSendMessage L rq) w)"
  by (simp add: send_thread_def HandleSendMessage_def run_atom run_deliver case_prod_beta split: option.split)

section \<open>A pointer that is overtaken\<close>

text \<open>If a thread comes to use the session of a connection, the task of that connection can end in between.\<close>

lemma overtaken:
  assumes "leads t w (atom (session_get p f) k) w1" and "smgr w1 = smgr w"
    and "sessions_ok (smgr w)" and "umap_find (cliSessionMap (smgr w)) sock = Some p"
  shows "\<exists>t' e' w'. threads_steps ([t, end_thread L sock], w) ([t', e'], w') \<and> ub (smgr w')"
proof -
  let ?use = "atom (session_get p f) k" and ?close = "atom (close_socket sock) (\<lambda>_. Done)"
  obtain w2 where ended: "leads (end_thread L sock) w1 (forget_thread sock ?close) w2" and w2: "smgr w2 = smgr w"
    using end_to_removal[of w1 sock p L] assms(2-4) by auto
  define w3 where "w3 = snd (run_state (forget_session sock) w2)"
  have "leads (end_thread L sock) w1 ?close w3"
    unfolding w3_def by (rule leads_trans[OF ended leads_forget])
  then have "threads_steps ([?use, end_thread L sock], w1) ([?use, ?close], w3)"
    using leads_threads[of "end_thread L sock" w1 ?close w3 "[?use]" "[]"] by simp
  moreover have "threads_steps ([t, end_thread L sock], w) ([?use, end_thread L sock], w1)"
    using leads_threads[OF assms(1), of "[]" "[end_thread L sock]"] by simp
  moreover have "heap (smgr w3) p = None"
    using RemoveSession_freed[OF assms(4)] by (simp add: w3_def forget_world w2)
  then have "\<exists>t' w'. threads_steps ([?use, ?close], w3) ([t', ?close], w') \<and> ub (smgr w')"
    using threads_atom[of "[]" "\<lambda>w. snd (run_state (session_get p f) w)" "\<lambda>w. k (fst (run_state (session_get p f) w))" "[?close]" w3]
    by (intro exI[of _ "k (fst (run_state (session_get p f) w3))"] exI[of _ "snd (run_state (session_get p f) w3)"])
      (auto simp: atom_def touch_def)
  ultimately show ?thesis by (meson rtranclp_trans)
qed

text \<open>Threads that are not overtaken.\<close>

lemma end_thread_ok: "sessions_ok (smgr w) \<Longrightarrow> sessions_ok (smgr (run_thread (end_thread L sock) w))"
proof (cases "umap_find (cliSessionMap (smgr w)) sock")
  case None
  then show "sessions_ok (smgr w) \<Longrightarrow> ?thesis"
    by (simp add: end_thread_def run_atom get_session_def GetSession_def close_socket_def Let_def)
next
  case (Some p)
  assume ok: "sessions_ok (smgr w)"
  from end_to_removal[OF ok Some, of L] obtain w1
    where "leads (end_thread L sock) w (forget_thread sock (atom (close_socket sock) (\<lambda>_. Done))) w1" and "smgr w1 = smgr w" by blast
  with sessions_ok_RemoveSession[OF ok, of sock] show ?thesis
    by (simp add: leads_same_run run_forget run_atom forget_world close_socket_def)
qed

lemma handlers_ok:
  assumes "sessions_ok (smgr w)"
  shows "sessions_ok (smgr (run_thread (login_thread L rq) w))" "sessions_ok (smgr (run_thread (send_thread L rq) w))"
proof -
  have "safe_sessions (cliSessionMap (smgr w)) w" using assms by (simp add: safe_sessions_def)
  then show "sessions_ok (smgr (run_thread (login_thread L rq) w))" "sessions_ok (smgr (run_thread (send_thread L rq) w))"
    using keepsD[OF memory.keeps_HandleLogin[OF refl, of "cliSessionMap (smgr w)" L rq], of w]
      keepsD[OF memory.keeps_message_manager(1)[OF refl, of "cliSessionMap (smgr w)" L rq], of w]
    by (simp_all add: run_login run_send safe_sessions_def)
qed

text \<open>A login that ends an earlier session comes to use that session.\<close>

lemma login_to_use:
  assumes w: "serving_world L w" and u: "u \<in> set (users (dbase w))" "u_online u"
    and rq: "same_name (mysql_of L) (u_name u) (rusername rq)" "u_hash u = MD5Encrypt L (rpassword rq)" "ValidateUsername (rusername rq)"
    and p: "GetSessionByUsername (rusername rq) (smgr w) = Some p"
  shows "\<exists>k w1. leads (login_thread L rq) w (atom (session_get p GetSocket) k) w1 \<and> smgr w1 = smgr w"
proof -
  note ok = serving_worldD[OF w]
  have look: "sql_user_by_name (mysql_of L) (rusername rq) (dbase w) = Some u" "sql_user_by_id (u_id u) (dbase w) = Some u"
    using u rq by (simp_all add: user_by_name_iff[OF ok(4)] user_by_id_iff[OF ok(4)])
  let ?w2 = "rotate_pool (rotate_pool w)"
  define w3 where "w3 = snd (run_state (UpdateOnlineStatus (u_id u) False) ?w2)"
  have w3: "smgr w3 = smgr w" by (simp add: w3_def UpdateOnlineStatus_def run_dao_update_world)
  have found: "run_state (GetUserByUsername L (rusername rq)) w = (Some (u_id u, u_hash u), rotate_pool w)"
    "run_state (GetUserOnlineStatus (u_id u)) (rotate_pool w) = (Some True, ?w2)"
    using ok(2) look u(2) by (simp_all add: GetUserByUsername_def GetUserOnlineStatus_def run_dao_query_calm)
  let ?enter = "enter_thread L rq (u_id u)"
  have "leads (login_thread L rq) w (kick_thread L (rusername rq) ?enter) w3"
    unfolding w3_def using rq found by (auto simp: login_thread_def intro!: leads_run_atom leads_atom leads_refl)
  moreover have "run_state (get_session_by_username (rusername rq)) w3 = (Some p, w3)"
    by (simp add: get_session_by_username_def w3 p)
  then have "\<exists>k. leads (kick_thread L (rusername rq) ?enter) w3 (atom (session_get p GetSocket) k) w3"
    unfolding kick_thread_def by (intro exI, elim leads_run_atom) (simp only: option.case, rule leads_refl)
  ultimately show ?thesis using w3 by (meson leads_trans)
qed

text \<open>A message to a receiver who is online comes to use the receiver's session.\<close>

lemma send_to_use:
  assumes w: "serving_world L w" and u: "u \<in> set (users (dbase w))" "same_name (mysql_of L) (u_name u) (rusername rq)"
    and v: "v \<in> set (users (dbase w))" "same_name (mysql_of L) (u_name v) (targetUsername rq)" "u_online v"
    and rq: "ValidateMessageContent (rcontent rq)" "length (rcontent rq) \<le> 65535"
    and p: "GetSessionByUsername (targetUsername rq) (smgr w) = Some p"
  shows "\<exists>k w1. leads (send_thread L rq) w (atom (session_get p GetSocket) k) w1 \<and> smgr w1 = smgr w"
proof -
  note ok = serving_worldD[OF w]
  let ?Q = "mysql_of L" and ?d = "dbase w" and ?w2 = "rotate_pool (rotate_pool w)"
  have ids: "sql_user_by_name ?Q (rusername rq) ?d = Some u" "sql_user_by_name ?Q (targetUsername rq) ?d = Some v"
    using u v by (simp_all add: user_by_name_iff[OF ok(4)])
  obtain d1 where ins: "sql_insert_message (now w) (u_id u) (u_id v) (rcontent rq) ?d = Some d1"
    using u(1) v(1) rq(2) by (cases "sql_insert_message (now w) (u_id u) (u_id v) (rcontent rq) ?d")
      (auto simp: sql_insert_message_def user_exists_def text_fits_def split: if_splits)
  then have online: "sql_user_by_id (u_id v) d1 = Some v"
    using v(1) user_by_id_iff[OF ok(4), of "u_id v" v] by (auto simp: sql_user_by_id_def dest: insert_message_Some)
  let ?w3 = "(rotate_pool ?w2)\<lparr>dbase := d1\<rparr>"
  let ?w4 = "rotate_pool ?w3"
  have found: "run_state (GetUserIdByUsername L (rusername rq)) w = (Some (u_id u), rotate_pool w)"
    "run_state (GetUserIdByUsername L (targetUsername rq)) (rotate_pool w) = (Some (u_id v), ?w2)"
    "run_state (StoreMessage (u_id u) (u_id v) (rcontent rq)) ?w2 = (True, ?w3)"
    "run_state (GetUserOnlineStatus (u_id v)) ?w3 = (Some True, ?w4)"
    using ok(2) ids ins online v(3)
    by (simp_all add: GetUserIdByUsername_def StoreMessage_def InsertMessage_def GetUserOnlineStatus_def run_dao_query_calm run_dao_update_calm)
  have "leads (send_thread L rq) w (deliver_thread L (u_id u) (u_id v) rq Done) ?w4"
    using rq unfolding send_thread_def
    by (simp add: maxMessageSize_def)
      (rule leads_run_atom[OF found(1)], simp, rule leads_run_atom[OF found(2)], simp, rule leads_run_atom[OF found(3)], simp,
        rule leads_run_atom[OF found(4)], simp add: leads_refl)
  moreover have at: "run_state (get_session_by_username (targetUsername rq)) ?w4 = (Some p, ?w4)"
    "run_state (gets (\<lambda>w. mm_sendCallback (server w))) ?w4 = (True, ?w4)"
    by (simp_all add: get_session_by_username_def p ok(11))
  moreover have "\<exists>k. leads (deliver_thread L (u_id u) (u_id v) rq Done) ?w4 (atom (session_get p GetSocket) k) ?w4"
    unfolding deliver_thread_def forward_thread_def
    by (intro exI, rule leads_run_atom[OF at(1)], rule leads_run_atom[OF at(2)], simp only: option.case if_True,
        rule leads_run_atom[OF at(1)], simp only: option.case, rule leads_run_atom[OF at(2)], simp only: if_True, rule leads_refl)
  moreover have "smgr ?w4 = smgr w" by simp
  ultimately show ?thesis by (meson leads_trans)
qed

text \<open>The notification of the friends is overtaken in the same way; the end of another task notifies friends too, so even two tasks
  that end can meet.\<close>

lemma notify_use_after_free:
  assumes w: "serving_world L w" and u: "u \<in> set (users (dbase w))" "same_name (mysql_of L) (u_name u) name"
    and friend: "sql_friend_list (mysql_of L) (u_id u) (dbase w) = (friend, True) # fs"
    and sock: "umap_find (usernameToSocket (smgr w)) friend = Some sock" "GetSession sock (smgr w) \<noteq> None"
  shows "\<exists>t e w'. threads_steps ([notify_thread L name status rest, end_thread L sock], w) ([t, e], w') \<and> ub (smgr w')"
proof -
  note ok = serving_worldD[OF w]
  obtain p where p: "umap_find (cliSessionMap (smgr w)) sock = Some p" using sock(2) by (auto simp: GetSession_def)
  let ?w2 = "rotate_pool (rotate_pool w)"
  have look: "sql_user_by_name (mysql_of L) name (dbase w) = Some u" using u by (simp add: user_by_name_iff[OF ok(4)])
  have found: "run_state (GetUserIdByUsername L name) w = (Some (u_id u), rotate_pool w)"
    "run_state (GetFriendsOfUser L (u_id u)) (rotate_pool w) = (Some ((friend, True) # fs), ?w2)"
    "run_state (get_session_by_username friend) ?w2 = (Some p, ?w2)"
    "run_state (gets (\<lambda>w. um_sendCallback (server w))) ?w2 = (True, ?w2)"
    using ok(2,10) look friend sock(1) p
    by (simp_all add: GetUserIdByUsername_def GetFriendsOfUser_def run_dao_query_calm
        get_session_by_username_def GetSessionByUsername_def)
  have "\<exists>k. leads (notify_thread L name status rest) w (atom (session_get p GetSocket) k) ?w2"
    unfolding notify_thread_def
    by (intro exI, rule leads_run_atom[OF found(1)], simp only: option.case, rule leads_run_atom[OF found(2)],
        simp only: option.case notify_loop.simps prod.case if_True Let_def, rule leads_run_atom[OF found(3)],
        rule leads_run_atom[OF found(4)], simp only: option.case if_True, rule leads_refl)
  then show ?thesis using overtaken[OF _ _ ok(3) p] by fastforce
qed

section \<open>Properties\<close>





end
