(* ===== verification/Request_Races.thy ===== *)
theory Request_Races
  imports Session_Races
begin

text \<open>
  Requests that interleave safely.  The schema protects the tables from handlers that read and write without a lock:
  whatever the statements of logins, registrations, messages, ending tasks, the heartbeat thread and \<open>Stop\<close> interleave, the
  constraints hold; and of any number of registrations of one name at the same time exactly one makes an account, although every one of
  them (\<open>HandleRegister\<close>, \<^verbatim>\<open>src/src/system/user_manager.cpp\<close>) may have found the name free.
\<close>

section \<open>Registration, statement by statement\<close>

definition insert_thread :: "libs \<Rightarrow> Request \<Rightarrow> thread" where
  "insert_thread L request = atom (InsertUser L (rusername request) (MD5Encrypt L (rpassword request))) (\<lambda>_. Done)"

definition check_thread :: "libs \<Rightarrow> Request \<Rightarrow> thread" where
  "check_thread L request =
     atom (CheckUsernameExists L (rusername request)) (\<lambda>exists. if exists then Done else insert_thread L request)"

definition register_thread :: "libs \<Rightarrow> Request \<Rightarrow> thread" where
  "register_thread L request =
     atom (gets (\<lambda>w. um_userDAO (server w))) (\<lambda>has_dao.
       if \<not> has_dao \<or> \<not> ValidateUsername (rusername request) \<or> \<not> ValidatePassword (rpassword request) then Done
       else check_thread L request)"

lemma run_register: "run_thread (register_thread L rq) w = snd (run_state (HandleRegister L rq) w)"
  by (simp add: register_thread_def check_thread_def insert_thread_def HandleRegister_def run_atom case_prod_beta)

section \<open>What every interleaving keeps\<close>

text \<open>The programs of the server.\<close>

inductive server_program :: "libs \<Rightarrow> thread \<Rightarrow> bool" for L where
  "server_program L (login_thread L rq)"
| "server_program L (send_thread L rq)"
| "server_program L (register_thread L rq)"
| "server_program L (notify_thread L name status Done)"
| "server_program L (end_thread L sock)"
| "server_program L (throw_thread L sock)"
| "server_program L (heartbeat_thread L)"
| "server_program L (stop_thread L)"

lemma thread_keeps_prod: "(\<And>a b. x = (a, b) \<Longrightarrow> thread_keeps I (t a b)) \<Longrightarrow> thread_keeps I (case x of (a, b) \<Rightarrow> t a b)"
  by (cases x) simp

lemma race_ok_lookup: "keeps (race_ok Q M K) (get_session_by_username name)"
  by (rule keepsI) (simp add: get_session_by_username_def)

lemmas request_keeps = race_keeps thread_keeps_prod race_ok_lookup racing.keeps_user_dao[OF refl] racing.keeps_user_dao_by_id
  racing.keeps_message_dao racing.keeps_deliver racing.keeps_set_username[OF UNIV_I] racing.keeps_heartbeat[OF UNIV_I]
  racing.keeps_bind_username racing.keeps_send

lemma race_keeps_notify:
  assumes "thread_keeps (race_ok (mysql_of L) M K) rest"
  shows "thread_keeps (race_ok (mysql_of L) M K) (notify_thread L name status rest)"
proof -
  have "thread_keeps (race_ok (mysql_of L) M K) (notify_loop L name status fs rest)" for fs
    using assms by (induction fs) (auto simp: Let_def intro!: request_keeps split: prod.split)
  then show ?thesis using assms unfolding notify_thread_def by (intro request_keeps)
qed

lemma race_keeps_enter: "thread_keeps (race_ok (mysql_of L) M K) (enter_thread L rq uid)"
  unfolding enter_thread_def bind_thread_def by (intro request_keeps race_keeps_notify)

lemma race_keeps_login: "thread_keeps (race_ok (mysql_of L) M K) (login_thread L rq)"
  unfolding login_thread_def kick_thread_def Let_def by (intro request_keeps race_keeps_enter)

lemma race_keeps_send: "thread_keeps (race_ok (mysql_of L) M K) (send_thread L rq)"
  unfolding send_thread_def deliver_thread_def forward_thread_def by (intro request_keeps)

lemma race_keeps_register: "thread_keeps (race_ok (mysql_of L) M K) (register_thread L rq)"
  unfolding register_thread_def check_thread_def insert_thread_def by (intro request_keeps)

lemma race_keeps_program: "server_program L t \<Longrightarrow> thread_keeps (race_ok (mysql_of L) M K) t"
  by (induction rule: server_program.induct)
    (intro race_keeps_login race_keeps_send race_keeps_register race_keeps_notify thread_keeps_Done race_keeps_client race_keeps_heartbeat race_keeps_stop)+

lemma threads_keep:
  assumes "threads_steps (ts, w) (ts', w')" and "\<forall>t\<in>set ts. thread_keeps I t" and "I w"
  shows "I w' \<and> (\<forall>t\<in>set ts'. thread_keeps I t)"
  using assms
proof (induction "(ts', w')" arbitrary: ts' w' rule: rtranclp_induct)
  case (step y)
  obtain ts1 w1 where y: "y = (ts1, w1)" by fastforce
  with step have "I w1 \<and> (\<forall>t\<in>set ts1. thread_keeps I t)" by blast
  with step.hyps(2) show ?case by (auto simp: y elim!: threads_step.cases)
qed simp

section \<open>Registrations of one name\<close>

text \<open>The rest of a registration at each of its statements, and the account that it makes.\<close>

definition registering :: "libs \<Rightarrow> Request \<Rightarrow> thread set" where
  "registering L rq = {register_thread L rq, check_thread L rq, insert_thread L rq, Done}"

definition account_of :: "libs \<Rightarrow> Request \<Rightarrow> database \<Rightarrow> user_row" where
  "account_of L rq d = \<lparr>u_id = next_user_id d, u_name = rusername rq, u_hash = MD5Encrypt L (rpassword rq),
     u_online = False, u_last_login = None\<rparr>"

definition registered :: "libs \<Rightarrow> Request list \<Rightarrow> database \<Rightarrow> database \<Rightarrow> bool" where
  "registered L rqs d d' \<longleftrightarrow> (\<exists>rq\<in>set rqs. users d' = users d @ [account_of L rq d])"

definition registrations :: "libs \<Rightarrow> Request list \<Rightarrow> world \<Rightarrow> thread list \<Rightarrow> world \<Rightarrow> bool" where
  "registrations L rqs w ts w' \<longleftrightarrow> calm w' \<and> um_userDAO (server w') \<and> list_all2 (\<lambda>rq t. t \<in> registering L rq) rqs ts
     \<and> (Done \<notin> set ts \<and> dbase w' = dbase w \<or> registered L rqs (dbase w) (dbase w'))"

text \<open>Requests that can make an account of the name.\<close>

definition registers_name :: "libs \<Rightarrow> string \<Rightarrow> database \<Rightarrow> Request list \<Rightarrow> bool" where
  "registers_name L name d rqs \<longleftrightarrow> libs_ok L
     \<and> (\<forall>rq\<in>set rqs. ValidateUsername (rusername rq) \<and> ValidatePassword (rpassword rq) \<and> same_name (mysql_of L) (rusername rq) name)
     \<and> (\<forall>u\<in>set (users d). \<not> same_name (mysql_of L) (u_name u) name)"

lemma threads_distinct [simp]: "check_thread L rq \<noteq> Done" "insert_thread L rq \<noteq> Done" "register_thread L rq \<noteq> Done" "Done \<noteq> register_thread L rq"
  by (simp_all add: check_thread_def insert_thread_def register_thread_def atom_def)

lemma insert_first:
  assumes "registers_name L name d rqs" and "rq \<in> set rqs"
  shows "\<exists>d'. sql_insert_user (mysql_of L) (rusername rq) (MD5Encrypt L (rpassword rq)) d = Some d' \<and> registered L rqs d d'"
proof -
  obtain digest where "evp_md5 L (rpassword rq) = Some digest" "length digest = 16"
    using assms(1) unfolding registers_name_def libs_ok_def by blast
  then have "varchar_fits 32 (MD5Encrypt L (rpassword rq))" by (rule hash_fits)
  moreover have "varchar_fits 20 (rusername rq)" using assms by (auto simp: registers_name_def intro: valid_name_fits)
  moreover have "\<not> same_name (mysql_of L) (u_name u) (rusername rq)" if "u \<in> set (users d)" for u
    using assms that by (auto simp: registers_name_def same_name_def)
  ultimately show ?thesis
    using assms(2) by (auto simp: sql_insert_user_def registered_def account_of_def)
qed

lemma name_taken:
  assumes "registers_name L name d rqs" and "rq \<in> set rqs" and "dbase w = d \<or> registered L rqs d (dbase w)"
  shows "(\<exists>u\<in>set (users (dbase w)). same_name (mysql_of L) (u_name u) (rusername rq)) \<longleftrightarrow> registered L rqs d (dbase w)"
proof
  assume "\<exists>u\<in>set (users (dbase w)). same_name (mysql_of L) (u_name u) (rusername rq)"
  with assms show "registered L rqs d (dbase w)" by (auto simp: registers_name_def same_name_def)
next
  assume "registered L rqs d (dbase w)"
  then obtain r where "r \<in> set rqs" "account_of L r d \<in> set (users (dbase w))" by (auto simp: registered_def)
  moreover have "same_name (mysql_of L) (u_name (account_of L r d)) (rusername rq)" if "r \<in> set rqs"
    using assms(1,2) that by (auto simp: registers_name_def same_name_def account_of_def)
  ultimately show "\<exists>u\<in>set (users (dbase w)). same_name (mysql_of L) (u_name u) (rusername rq)" by blast
qed

lemma registering_step:
  assumes names: "registers_name L name d rqs" and rq: "rq \<in> set rqs" and t: "Atom f k \<in> registering L rq"
    and w: "calm w" "um_userDAO (server w)" and db: "dbase w = d \<or> registered L rqs d (dbase w)"
  shows "k w \<in> registering L rq \<and> calm (f w) \<and> um_userDAO (server (f w))
    \<and> (dbase (f w) = dbase w \<and> (k w = Done \<longrightarrow> registered L rqs d (dbase w)) \<or> registered L rqs d (dbase (f w)))"
proof -
  note taken = name_taken[OF names rq db]
  have valid: "ValidateUsername (rusername rq)" "ValidatePassword (rpassword rq)"
    using names rq by (auto simp: registers_name_def)
  consider "Atom f k = register_thread L rq" | "Atom f k = check_thread L rq" | "Atom f k = insert_thread L rq"
    using t by (auto simp: registering_def)
  then show ?thesis
  proof cases
    case 1
    with w valid show ?thesis by (auto simp: register_thread_def atom_def registering_def)
  next
    case 2
    then have k: "k w = (if 0 < sql_count_username (mysql_of L) (rusername rq) (dbase w) then Done else insert_thread L rq)"
      and f: "f w = rotate_pool w"
      using w(1) by (simp_all add: check_thread_def atom_def CheckUsernameExists_def run_dao_query_calm)
    from w taken show ?thesis by (auto simp: k f registering_def count_username_pos)
  next
    case 3
    then have k: "k w = Done" and f: "f w = (case sql_insert_user (mysql_of L) (rusername rq) (MD5Encrypt L (rpassword rq)) (dbase w) of
        None \<Rightarrow> rotate_pool w | Some d' \<Rightarrow> (rotate_pool w)\<lparr>dbase := d'\<rparr>)"
      using w(1) by (simp_all add: insert_thread_def atom_def InsertUser_def run_dao_update_calm split: option.split)
    show ?thesis
    proof (cases "registered L rqs d (dbase w)")
      case True
      with taken have "sql_insert_user (mysql_of L) (rusername rq) (MD5Encrypt L (rpassword rq)) (dbase w) = None"
        by (simp add: sql_insert_user_def)
      with w True show ?thesis by (simp add: k f registering_def)
    next
      case False
      with db insert_first[OF names rq] w show ?thesis by (auto simp: k f registering_def)
    qed
  qed
qed

lemma registrations_kept:
  assumes names: "registers_name L name (dbase w) rqs" and "calm w" and "um_userDAO (server w)"
    and "threads_steps (map (register_thread L) rqs, w) (ts, w')"
  shows "registrations L rqs w ts w'"
  using assms(4)
proof (induction "(ts, w')" arbitrary: ts w' rule: rtranclp_induct)
  case base
  then show ?case using assms(2,3) by (auto simp: registrations_def list_all2_map2 registering_def intro: list_all2_refl)
next
  case (step y)
  obtain ts1 w1 where y: "y = (ts1, w1)" by fastforce
  have inv: "registrations L rqs w ts1 w1" by (rule step.hyps(3)) (rule y)
  obtain xs f k ys where s: "ts1 = xs @ Atom f k # ys" "ts = xs @ k w1 # ys" "w' = f w1"
    using step.hyps(2) by (auto simp: y elim: threads_step.cases)
  obtain as rq bs where rqs: "rqs = as @ rq # bs" "list_all2 (\<lambda>rq t. t \<in> registering L rq) as xs"
    "Atom f k \<in> registering L rq" "list_all2 (\<lambda>rq t. t \<in> registering L rq) bs ys"
    using inv by (auto simp: registrations_def s(1) list_all2_append2 list_all2_Cons2)
  have db: "dbase w1 = dbase w \<or> registered L rqs (dbase w) (dbase w1)" using inv by (auto simp: registrations_def)
  have st: "k w1 \<in> registering L rq \<and> calm (f w1) \<and> um_userDAO (server (f w1))
      \<and> (dbase (f w1) = dbase w1 \<and> (k w1 = Done \<longrightarrow> registered L rqs (dbase w) (dbase w1)) \<or> registered L rqs (dbase w) (dbase (f w1)))"
    by (rule registering_step[OF names _ rqs(3)]) (use inv db rqs(1) in \<open>auto simp: registrations_def\<close>)
  moreover have "list_all2 (\<lambda>rq t. t \<in> registering L rq) rqs ts"
    using rqs st by (simp add: s(2) list_all2_appendI)
  ultimately show ?case using inv by (auto simp: registrations_def s)
qed

section \<open>Properties\<close>





end
