(* ===== verification/Shutdown.thy ===== *)
theory Shutdown
  imports Server_System
begin

text \<open>
  The end of the program: the destructor of the server (\<^verbatim>\<open>src/src/connection/server.cpp\<close>), which stops the server,
  waits for the tasks of the clients and deletes the managers, and the destructor of the connection pool, in
  the order in which \<open>main\<close> (\<^verbatim>\<open>src/src/main.cpp\<close>) leaves the scope of the two objects.
\<close>

text \<open>
  Deleting the thread pool waits for the tasks that it still has, queued or running, here in the order in which they come to their end;
  \<open>tasks\<close> lists their sockets, each with its uninitialised memory.
\<close>

definition Server_destroy :: "libs \<Rightarrow> (int \<times> string \<times> int) list \<Rightarrow> unit act" where
  "Server_destroy L tasks = do {
     Stop L;
     threadPool \<leftarrow> gets (\<lambda>w. has_threadPool (server w));
     guarded threadPool (foreach tasks (\<lambda>(sock, junk). HandleClient L junk sock));
     sessionMgr \<leftarrow> gets (\<lambda>w. has_sessionManager (server w));
     guarded sessionMgr (modify (\<lambda>w. w\<lparr>smgr := SessionManager_destroy (smgr w)\<rparr>))
   }"

text \<open>What \<open>main\<close> does after the accept thread has ended; the result is the number of database connections closed.\<close>

definition leave_main :: "libs \<Rightarrow> (int \<times> string \<times> int) list \<Rightarrow> nat act" where
  "leave_main L tasks = do {
     Server_destroy L tasks;
     State (\<lambda>w. case DBManager_destroy (dbm w) of (n, m) \<Rightarrow> (n, w\<lparr>dbm := m\<rparr>))
   }"

section \<open>Lemmas\<close>

lemma finish_frame:
  assumes ok: "sessions_ok (smgr w)" and run: "run_state (finish_client L sock) w = ((), w')"
  shows "running (server w') = running (server w) \<and> has_sessionManager (server w') = has_sessionManager (server w)"
    and "\<exists>evs. events (network w') = events (network w) @ evs @ [Closed sock]"
    and "dbase w' = dbase w \<or> (\<exists>n. dbase w' = offline L n (dbase w))"
proof -
  have "(running (server w') = running (server w) \<and> has_sessionManager (server w') = has_sessionManager (server w))
    \<and> (\<exists>evs. events (network w') = events (network w) @ evs @ [Closed sock])
    \<and> (dbase w' = dbase w \<or> (\<exists>n. dbase w' = offline L n (dbase w)))"
  proof (cases "umap_find (cliSessionMap (smgr w)) sock")
    case None
    with run show ?thesis by (auto simp: finish_client_def GetSession_def close_socket_def sys_close_def)
  next
    case (Some p)
    let ?n = "username (deref (smgr w) p)"
    define w1 where "w1 = (if ?n = [] then w else snd (run_state (announce_offline L ?n) w))"
    have "w' = (snd (run_state (forget_session sock) w1))\<lparr>network := sys_close sock (network (snd (run_state (forget_session sock) w1)))\<rparr>"
      using run Some run_session_get_live[OF ok Some, of GetUsername]
      by (auto simp: finish_client_def GetSession_def close_socket_def w1_def case_prod_beta simp del: run_session_get)
    moreover have "w1 = w \<or> departed L ?n w w1" using wp_departed[OF ok, of L ?n] by (simp add: w1_def wp_def)
    ultimately show ?thesis by (auto simp: forget_world sys_close_def departed_def)
  qed
  then show "running (server w') = running (server w) \<and> has_sessionManager (server w') = has_sessionManager (server w)"
    and "\<exists>evs. events (network w') = events (network w) @ evs @ [Closed sock]"
    and "dbase w' = dbase w \<or> (\<exists>n. dbase w' = offline L n (dbase w))" by blast+
qed

text \<open>A task that is still there when the server has stopped goes straight to its end.\<close>

lemma HandleClient_stopped:
  "\<not> running (server w) \<Longrightarrow> run_state (HandleClient L junk sock) w = run_state (finish_client L sock) w"
  by (simp add: HandleClient_def client_loop.simps[of L junk sock w] client_round_def)

definition away :: "libs \<Rightarrow> string list \<Rightarrow> database \<Rightarrow> bool" where
  "away L ns d \<longleftrightarrow> (\<forall>u\<in>set (users d). (\<exists>n\<in>set ns. same_name (mysql_of L) (u_name u) n) \<longrightarrow> \<not> u_online u)"

lemma away_offline: "away L ns d \<Longrightarrow> away L ns (offline L n d)" "away L [n] (offline L n d)"
  by (auto simp: away_def offline_def map_users_def)

lemma away_Cons: "away L (n # ns) d \<longleftrightarrow> away L [n] d \<and> away L ns d"
  by (auto simp: away_def)

lemma away_fold: "away L ns d \<Longrightarrow> away L (ns @ ms) (fold (offline L) ms d)"
proof (induction ms arbitrary: ns d)
  case (Cons m ms)
  have "away L (ns @ [m]) (offline L m d)"
    using away_offline(1)[OF Cons.prems, of m] away_offline(2)[of L m d] by (auto simp: away_def)
  from Cons.IH[OF this] show ?case by simp
qed simp

text \<open>The tasks that remain, one after the other.\<close>

lemma tasks_end:
  assumes "winv (mysql_of L) M K S w" and "\<not> running (server w)"
    and "run_state (foreach tasks (\<lambda>(sock, junk). HandleClient L junk sock)) w = ((), w')"
  shows "winv (mysql_of L) M K (S - fst ` set tasks) w' \<and> has_sessionManager (server w') = has_sessionManager (server w)
    \<and> (\<exists>evs. events (network w') = events (network w) @ evs \<and> (\<forall>sock\<in>fst ` set tasks. Closed sock \<in> set evs))
    \<and> (away L ns (dbase w) \<longrightarrow> away L ns (dbase w'))"
  using assms
proof (induction tasks arbitrary: w S)
  case (Cons t ts)
  obtain sock junk where t: "t = (sock, junk)" by (rule prod.exhaust)
  obtain w1 where one: "run_state (finish_client L sock) w = ((), w1)" by (metis old.unit.exhaust surj_pair)
  note ok = winv_sessions[OF Cons.prems(1)]
  note fr = finish_frame[OF ok one]
  have inv: "winv (mysql_of L) M K (S - {sock}) w1" by (rule winv_finish[OF Cons.prems(1) one])
  have rest: "run_state (foreach ts (\<lambda>(sock, junk). HandleClient L junk sock)) w1 = ((), w')"
    using Cons.prems(2,3) one by (simp add: t HandleClient_stopped)
  have "S - {sock} - fst ` set ts = S - fst ` set (t # ts)" by (auto simp: t)
  with Cons.IH[OF inv _ rest] fr Cons.prems(2) away_offline(1) show ?case by (fastforce simp: t)
qed simp

section \<open>Property\<close>



end
