(* ===== verification/Server_Logger.thy ===== *)
theory Server_Logger
  imports Prelude
begin

text \<open>
  The logger, \<^verbatim>\<open>src/src/system/server_logger.cpp\<close>: the filter for passwords, the log entries, the
  rotation and the removal of old files.  The lock \<open>logMutex\<close> makes each \<open>WriteLog\<close> one step, so an
  operation is a function of the logger, the directory it writes to and the time.

  The file system is the part of it that the logger touches: files by path with their content and
  modification time, the directories that exist, and what \<open>fopen\<close>, \<open>mkdir\<close> and \<open>fwrite\<close> answer.
  \<open>tz t\<close> is the offset of the local time zone at the time \<open>t\<close>, in seconds.
\<close>

section \<open>Local time\<close>

text \<open>\<open>localtime\<close> and the two formats that \<open>strftime\<close> is called with: the civil date of a day number
  counted from 1970-01-01 (proleptic Gregorian calendar, years that start in March).\<close>

definition civil :: "int \<Rightarrow> int \<times> int \<times> int" where
  "civil days =
     (let z = days + 719468; era = z div 146097; doe = z mod 146097;
          yoe = (doe - doe div 1460 + doe div 36524 - doe div 146096) div 365;
          doy = doe - (365 * yoe + yoe div 4 - yoe div 100);
          mp = (5 * doy + 2) div 153;
          d = doy - (153 * mp + 2) div 5 + 1;
          m = (if mp < 10 then mp + 3 else mp - 9)
      in (yoe + era * 400 + (if m \<le> 2 then 1 else 0), m, d))"

function digits :: "nat \<Rightarrow> string" where
  "digits n = (if n < 10 then [char_of (48 + n)] else digits (n div 10) @ [char_of (48 + n mod 10)])"
  by pat_completeness auto
termination by (relation "measure id") auto

declare digits.simps [simp del]

definition pad2 :: "int \<Rightarrow> string" where
  "pad2 n = (if n < 10 then ''0'' @ digits (nat n) else digits (nat n))"

definition date_text :: "(int \<Rightarrow> int) \<Rightarrow> int \<Rightarrow> string" where
  "date_text tz t = (case civil ((t + tz t) div 86400) of (y, m, d) \<Rightarrow>
     digits (nat y) @ ''-'' @ pad2 m @ ''-'' @ pad2 d)"

definition GetTimestamp :: "(int \<Rightarrow> int) \<Rightarrow> int \<Rightarrow> string" where
  "GetTimestamp tz t = (let s = (t + tz t) mod 86400 in
     date_text tz t @ '' '' @ pad2 (s div 3600) @ '':'' @ pad2 (s div 60 mod 60) @ '':'' @ pad2 (s mod 60))"

lemma civil_samples:
  "civil 0 = (1970, 1, 1)" "civil 11015 = (2000, 2, 28)" "civil 11016 = (2000, 2, 29)" "civil 11017 = (2000, 3, 1)"
  by code_simp+

section \<open>Searching and replacing\<close>

text \<open>\<open>std::string::find\<close> from a position (\<open>None\<close> is \<open>npos\<close>) and \<open>std::string::replace\<close>.\<close>

fun find_sub :: "string \<Rightarrow> string \<Rightarrow> nat option" where
  "find_sub pat [] = (if pat = [] then Some 0 else None)"
| "find_sub pat (c # cs) = (if prefix pat (c # cs) then Some 0 else map_option Suc (find_sub pat cs))"

definition str_find :: "string \<Rightarrow> string \<Rightarrow> nat \<Rightarrow> nat option" where
  "str_find pat s pos = (if pos \<le> length s then map_option (\<lambda>i. i + pos) (find_sub pat (drop pos s)) else None)"

definition str_replace :: "string \<Rightarrow> nat \<Rightarrow> nat \<Rightarrow> string \<Rightarrow> string" where
  "str_replace s pos len new = take pos s @ new @ drop (pos + len) s"

lemma find_sub_Some:
  "find_sub pat s = Some i \<Longrightarrow> i \<le> length s \<and> prefix pat (drop i s) \<and> (\<forall>j<i. \<not> prefix pat (drop j s))"
proof (induction s arbitrary: i)
  case Nil
  then show ?case by (simp split: if_splits)
next
  case (Cons c cs)
  show ?case
  proof (cases "prefix pat (c # cs)")
    case True
    with Cons.prems show ?thesis by simp
  next
    case False
    then obtain k where k: "find_sub pat cs = Some k" "i = Suc k" using Cons.prems by auto
    from Cons.IH[OF k(1)] have "\<not> prefix pat (drop j (c # cs))" if "j < i" for j
      using that False k(2) by (cases j) auto
    with Cons.IH[OF k(1)] k(2) show ?thesis by simp
  qed
qed

lemma find_sub_None: "find_sub pat s = None \<longleftrightarrow> \<not> sublist pat s"
  by (induction s) (auto simp: sublist_Cons_right)

lemma str_find_Some:
  assumes "str_find pat s pos = Some i"
  shows "pos \<le> i \<and> i \<le> length s \<and> prefix pat (drop i s)"
  using assms find_sub_Some[of pat "drop pos s"] by (auto simp: str_find_def add.commute split: if_splits)

section \<open>Filtering passwords\<close>

text \<open>The value of the field whose name starts at \<open>p\<close>: where it begins and where its closing quote is.\<close>

definition value_span :: "string \<Rightarrow> nat \<Rightarrow> (nat \<times> nat) option" where
  "value_span result p = (case str_find '':'' result p of
     None \<Rightarrow> None
   | Some colonPos \<Rightarrow>
       if colonPos + 1 < length result then
         if result ! (colonPos + 1) = CHR 0x22 then
           (case str_find [CHR 0x22] result (colonPos + 2) of
              None \<Rightarrow> None | Some valueEnd \<Rightarrow> Some (colonPos + 2, valueEnd))
         else None
       else None)"

text \<open>Every replacement passes a colon; the replacement text has none.\<close>

lemma colons_after_replace:
  assumes "str_find ''password'' s pos = Some p" and "value_span s p = Some (vs, ve)"
  shows "count_list (drop (ve + 1) (str_replace s vs (ve - vs) ''***'')) (CHR '':'') < count_list (drop pos s) (CHR '':'')"
proof -
  obtain c where c: "str_find '':'' s p = Some c" "vs = c + 2" "str_find [CHR 0x22] s (c + 2) = Some ve"
    using assms(2) by (auto simp: value_span_def split: option.splits if_splits)
  have le: "pos \<le> p" "p \<le> c" "c + 2 \<le> ve" "prefix '':'' (drop c s)" "ve \<le> length s"
    using str_find_Some[OF assms(1)] str_find_Some[OF c(1)] str_find_Some[OF c(3)] by auto
  have more: "count_list (drop (m + n) xs) x \<le> count_list (drop n xs) x" for m n :: nat and xs :: string and x
  proof -
    have "drop n xs = take m (drop n xs) @ drop (m + n) xs" by (simp flip: drop_drop)
    then show ?thesis by (metis count_list_append le_add2)
  qed
  obtain rest where rest: "drop c s = CHR '':'' # rest" using le(4) by (auto simp: prefix_def)
  then have "drop (Suc c) s = rest" by (metis drop_Suc drop_drop list.sel(3) plus_1_eq_Suc tl_drop drop_Suc_Cons drop0)
  then have "count_list (drop ve s) (CHR '':'') \<le> count_list rest (CHR '':'')"
    using more[of "ve - Suc c" "Suc c" s "CHR '':''"] le by simp
  moreover have "count_list (drop c s) (CHR '':'') \<le> count_list (drop pos s) (CHR '':'')"
    using more[of "c - pos" pos s "CHR '':''"] le by simp
  moreover have "count_list (drop (ve + 1) (str_replace s vs (ve - vs) ''***'')) (CHR '':'') \<le> count_list (drop ve s) (CHR '':'')"
  proof -
    have "vs + (ve - vs) = ve" and len: "length (take vs s) = vs" using le c by simp_all
    then have "str_replace s vs (ve - vs) ''***'' = take vs s @ ''***'' @ drop ve s"
      by (simp only: str_replace_def)
    then have "drop (ve + 1) (str_replace s vs (ve - vs) ''***'') = drop (ve + 1 - vs) (''***'' @ drop ve s)"
      using le c len by (simp only: drop_append) simp
    then show ?thesis using more[of "ve + 1 - vs" 0 "''***'' @ drop ve s" "CHR '':''"] by simp
  qed
  ultimately show ?thesis by (simp add: rest)
qed

function filter_loop :: "string \<Rightarrow> nat \<Rightarrow> string" where
  "filter_loop result pos = (case str_find ''password'' result pos of
     None \<Rightarrow> result
   | Some p \<Rightarrow> (case value_span result p of
       Some (valueStart, valueEnd) \<Rightarrow>
         filter_loop (str_replace result valueStart (valueEnd - valueStart) ''***'') (valueEnd + 1)
     | None \<Rightarrow> filter_loop result (p + 1)))"
  by pat_completeness auto

termination
proof (relation "measures [\<lambda>(s, pos). count_list (drop pos s) (CHR '':''), \<lambda>(s, pos). length s - pos]", goal_cases)
  case (2 s pos p)
  then have "pos \<le> p" "prefix ''password'' (drop p s)" using str_find_Some by blast+
  then have "p < length s" by (cases "p < length s") auto
  moreover have "count_list (drop (p + 1) s) (CHR '':'') \<le> count_list (drop pos s) (CHR '':'')"
  proof -
    have "drop pos s = take (p + 1 - pos) (drop pos s) @ drop (p + 1) s"
      using \<open>pos \<le> p\<close> by (metis append_take_drop_id drop_drop le_SucI le_add_diff_inverse2 Suc_eq_plus1)
    then show ?thesis by (metis count_list_append le_add2)
  qed
  ultimately show ?case using \<open>pos \<le> p\<close> by auto
qed (auto dest: colons_after_replace)

declare filter_loop.simps [simp del]

definition FilterSensitiveInfo :: "string \<Rightarrow> string" where
  "FilterSensitiveInfo message = filter_loop message 0"


lemma find_char: "c \<notin> set xs \<Longrightarrow> find_sub [c] (xs @ c # ys) = Some (length xs)"
  by (induction xs) auto

lemma find_first:
  assumes "pat \<noteq> []" and "\<not> sublist pat (pre @ butlast pat)"
  shows "find_sub pat (pre @ pat @ rest) = Some (length pre)"
  using assms(2)
proof (induction pre)
  case Nil
  then show ?case using assms(1) by (cases pat) auto
next
  case (Cons c pre)
  have "\<not> prefix pat (c # pre @ pat @ rest)"
  proof
    assume "prefix pat (c # pre @ pat @ rest)"
    then have "take (length pat) (c # pre @ pat @ rest) = pat" by (auto simp: prefix_def)
    moreover have "take (length pat) (c # pre @ pat @ rest) = take (length pat) (c # pre @ butlast pat)"
    proof -
      have "pat @ rest = butlast pat @ last pat # rest"
        using assms(1) by (metis append_butlast_last_id append.assoc append_Cons append_Nil)
      then have "c # pre @ pat @ rest = (c # pre @ butlast pat) @ last pat # rest" by simp
      moreover have "length pat \<le> length (c # pre @ butlast pat)" by simp
      ultimately show ?thesis by (simp only: take_append) simp
    qed
    ultimately have "prefix pat (c # pre @ butlast pat)" by (metis take_is_prefix)
    with Cons.prems show False by (simp add: prefix_imp_sublist)
  qed
  moreover have "\<not> sublist pat (pre @ butlast pat)" using Cons.prems by (simp add: sublist_Cons_right)
  ultimately show ?case using Cons.IH by simp
qed

lemma str_find_append: "length xs = n \<Longrightarrow> str_find pat (xs @ ys) n = map_option (\<lambda>i. i + n) (find_sub pat ys)"
  by (auto simp: str_find_def)

lemma str_replace_mid:
  "length xs = n \<Longrightarrow> length ys = k \<Longrightarrow> str_replace (xs @ ys @ zs) n k new = xs @ new @ zs"
  by (auto simp: str_replace_def)

lemma masked_rest_clean:
  assumes "\<not> sublist ''password'' post"
  shows "find_sub ''password'' (drop k (''***\"'' @ post)) = None"
proof -
  have "\<not> sublist ''password'' (''***\"'' @ post)" using assms by (simp add: sublist_Cons_right)
  then show ?thesis unfolding find_sub_None by (meson sublist_drop sublist_order.order_trans)
qed

section \<open>The logger and its files\<close>

datatype LogLevel = DEBUG | INFO | WARNING | ERROR

text \<open>The enumerators in the order of their values.\<close>

definition level_value :: "LogLevel \<Rightarrow> nat" where
  "level_value l = (case l of DEBUG \<Rightarrow> 0 | INFO \<Rightarrow> 1 | WARNING \<Rightarrow> 2 | ERROR \<Rightarrow> 3)"

instantiation LogLevel :: linorder
begin

definition less_eq_LogLevel :: "LogLevel \<Rightarrow> LogLevel \<Rightarrow> bool" where
  "less_eq_LogLevel a b \<longleftrightarrow> level_value a \<le> level_value b"

definition less_LogLevel :: "LogLevel \<Rightarrow> LogLevel \<Rightarrow> bool" where
  "less_LogLevel a b \<longleftrightarrow> level_value a < level_value b"

instance
  by intro_classes (auto simp: less_eq_LogLevel_def less_LogLevel_def level_value_def split: LogLevel.splits)

end

definition level_text :: "LogLevel \<Rightarrow> string" where
  "level_text level = (case level of DEBUG \<Rightarrow> ''DEBUG'' | INFO \<Rightarrow> ''INFO'' | WARNING \<Rightarrow> ''WARNING'' | ERROR \<Rightarrow> ''ERROR'')"

record log_file =
  fcontent :: string
  fmtime :: int

text \<open>\<open>open_ok\<close>, \<open>mkdir_ok\<close>: whether the calls succeed; \<open>room\<close>: how many bytes \<open>fwrite\<close> can still write, if
  the disk is limited.\<close>

record logger =
  logFilePath :: string
  logFile :: "string option"
  maxLogSize :: nat
  currentLogSize :: nat
  logRetentionDays :: int
  logDir :: string
  log_files :: "(string, log_file) umap"
  log_dirs :: "string list"
  open_ok :: bool
  mkdir_ok :: bool
  room :: "nat option"

definition logger_new :: "(string, log_file) umap \<Rightarrow> string list \<Rightarrow> logger" where
  "logger_new fs ds = \<lparr>logFilePath = [], logFile = None, maxLogSize = 10 * 1024 * 1024, currentLogSize = 0,
     logRetentionDays = 90, logDir = [], log_files = fs, log_dirs = ds, open_ok = True, mkdir_ok = True, room = None\<rparr>"

definition logger_destroy :: "logger \<Rightarrow> logger" where
  "logger_destroy g = (case logFile g of None \<Rightarrow> g | Some _ \<Rightarrow> g\<lparr>logFile := None\<rparr>)"

definition log_path :: "(int \<Rightarrow> int) \<Rightarrow> int \<Rightarrow> string \<Rightarrow> string" where
  "log_path tz t dir = dir @ ''/server_log_'' @ date_text tz t @ ''.txt''"

text \<open>\<open>fopen\<close> in the mode \<open>"a"\<close> creates a missing file in an existing directory.\<close>

definition open_append :: "int \<Rightarrow> string \<Rightarrow> logger \<Rightarrow> logger" where
  "open_append t path g =
     (if open_ok g \<and> logDir g \<in> set (log_dirs g)
      then g\<lparr>logFile := Some path,
             log_files := (if umap_find (log_files g) path = None
                           then umap_set path \<lparr>fcontent = [], fmtime = t\<rparr> (log_files g) else log_files g)\<rparr>
      else g\<lparr>logFile := None\<rparr>)"

definition content_of_file :: "string \<Rightarrow> logger \<Rightarrow> string" where
  "content_of_file path g = (case umap_find (log_files g) path of None \<Rightarrow> [] | Some f \<Rightarrow> fcontent f)"

definition RotateLogFile :: "(int \<Rightarrow> int) \<Rightarrow> int \<Rightarrow> logger \<Rightarrow> logger" where
  "RotateLogFile tz t g =
     (let path = log_path tz t (logDir g);
          g1 = open_append t path (g\<lparr>logFile := None, logFilePath := path\<rparr>)
      in g1\<lparr>currentLogSize := (if logFile g1 \<noteq> None then length (content_of_file path g1) else 0)\<rparr>)"

definition log_entry :: "string \<Rightarrow> LogLevel \<Rightarrow> string \<Rightarrow> string \<Rightarrow> string \<Rightarrow> string" where
  "log_entry stamp level module message clientIP =
     ''['' @ stamp @ ''] ['' @ level_text level @ ''] ['' @ module @ '']''
     @ (if clientIP \<noteq> [] then '' ['' @ clientIP @ '']'' else []) @ '' '' @ FilterSensitiveInfo message @ [CHR 0x0A]"

text \<open>\<open>fwrite\<close> and \<open>fflush\<close>: appends what the disk has room for; the count of written bytes is that length.\<close>

definition append_file :: "int \<Rightarrow> string \<Rightarrow> string \<Rightarrow> logger \<Rightarrow> nat \<times> logger" where
  "append_file t path entry g =
     (let n = (case room g of None \<Rightarrow> length entry | Some k \<Rightarrow> min k (length entry))
      in (n, g\<lparr>log_files := umap_set path \<lparr>fcontent = content_of_file path g @ take n entry, fmtime = t\<rparr> (log_files g),
               room := map_option (\<lambda>k. k - n) (room g)\<rparr>))"

definition WriteLog :: "(int \<Rightarrow> int) \<Rightarrow> int \<Rightarrow> LogLevel \<Rightarrow> string \<Rightarrow> string \<Rightarrow> string \<Rightarrow> logger \<Rightarrow> logger" where
  "WriteLog tz t level module message clientIP g = (case logFile g of
     None \<Rightarrow> g
   | Some path \<Rightarrow>
       (case append_file t path (log_entry (GetTimestamp tz t) level module message clientIP) g of
          (written, g1) \<Rightarrow>
            let g2 = g1\<lparr>currentLogSize := currentLogSize g1 + written\<rparr>
            in if maxLogSize g2 \<le> currentLogSize g2 then RotateLogFile tz t g2 else g2))"

text \<open>The names that \<open>readdir\<close> lists, and whether a file is an expired log.\<close>

definition dir_entry :: "string \<Rightarrow> string \<Rightarrow> string option" where
  "dir_entry dir path = (if prefix (dir @ ''/'') path \<and> CHR ''/'' \<notin> set (drop (length dir + 1) path)
     then Some (drop (length dir + 1) path) else None)"

definition is_log_name :: "string \<Rightarrow> bool" where
  "is_log_name filename \<longleftrightarrow> \<not> (find_sub ''server_log_'' filename \<noteq> Some 0 \<or> find_sub ''.txt'' filename = None)"

definition clean_one :: "int \<Rightarrow> string \<Rightarrow> logger \<Rightarrow> logger" where
  "clean_one cutoff filename g =
     (if \<not> is_log_name filename then g
      else (case umap_find (log_files g) (logDir g @ ''/'' @ filename) of
              None \<Rightarrow> g
            | Some f \<Rightarrow> if fmtime f < cutoff
                        then g\<lparr>log_files := umap_erase (logDir g @ ''/'' @ filename) (log_files g)\<rparr> else g))"

definition CleanExpiredLogs :: "int \<Rightarrow> int \<Rightarrow> logger \<Rightarrow> logger" where
  "CleanExpiredLogs t retentionDays g =
     (let g1 = g\<lparr>logRetentionDays := retentionDays\<rparr>
      in if logDir g1 \<notin> set (log_dirs g1) then g1
         else fold (clean_one (t - retentionDays * 86400))
                (List.map_filter (dir_entry (logDir g1)) (map fst (log_files g1))) g1)"

definition InitLogger :: "(int \<Rightarrow> int) \<Rightarrow> int \<Rightarrow> string \<Rightarrow> logger \<Rightarrow> logger" where
  "InitLogger tz t dir g =
     (let g1 = g\<lparr>logDir := dir\<rparr>;
          g2 = (if dir \<notin> set (log_dirs g1) \<and> mkdir_ok g1 then g1\<lparr>log_dirs := dir # log_dirs g1\<rparr> else g1)
      in (let g3 = RotateLogFile tz t g2 in CleanExpiredLogs t (logRetentionDays g3) g3))"

section \<open>Removing old files\<close>

definition expired :: "int \<Rightarrow> string \<Rightarrow> string \<times> log_file \<Rightarrow> bool" where
  "expired cutoff dir entry = (case entry of (path, f) \<Rightarrow>
     (\<exists>name. path = dir @ ''/'' @ name \<and> CHR ''/'' \<notin> set name \<and> prefix ''server_log_'' name \<and> sublist ''.txt'' name)
     \<and> fmtime f < cutoff)"

lemma is_log_name_iff: "is_log_name name \<longleftrightarrow> prefix ''server_log_'' name \<and> sublist ''.txt'' name"
proof -
  have "find_sub pat name = Some 0 \<longleftrightarrow> prefix pat name" if "pat \<noteq> []" for pat
    using that by (cases name) (auto split: option.splits)
  then show ?thesis by (simp add: is_log_name_def find_sub_None)
qed

lemma dir_entry_iff: "dir_entry dir path = Some name \<longleftrightarrow> path = dir @ ''/'' @ name \<and> CHR ''/'' \<notin> set name"
  by (auto simp: dir_entry_def prefix_def)

lemma dir_entries: "name \<in> set (List.map_filter (dir_entry dir) paths)
    \<longleftrightarrow> dir @ ''/'' @ name \<in> set paths \<and> CHR ''/'' \<notin> set name"
proof -
  have "name \<in> set (List.map_filter (dir_entry dir) paths) \<longleftrightarrow> (\<exists>path\<in>set paths. dir_entry dir path = Some name)"
    by (force simp: List.map_filter_def)
  then show ?thesis by (auto simp: dir_entry_iff)
qed

lemma clean_one_filter:
  assumes "umap_wf (log_files g)"
  shows "clean_one cutoff name g = g\<lparr>log_files := filter
    (\<lambda>(path, f). \<not> (path = logDir g @ ''/'' @ name \<and> is_log_name name \<and> fmtime f < cutoff)) (log_files g)\<rparr>"
proof -
  let ?path = "logDir g @ ''/'' @ name"
  have none: "filter (\<lambda>(path, f). \<not> (path = ?path \<and> b \<and> fmtime f < cutoff)) (log_files g) = log_files g"
    if "\<And>f. umap_find (log_files g) ?path = Some f \<Longrightarrow> b \<Longrightarrow> \<not> fmtime f < cutoff" for b
    using that umap_find_iff[OF assms, of ?path] by (intro filter_True) auto
  have some: "umap_erase ?path (log_files g)
      = filter (\<lambda>(path, f). \<not> (path = ?path \<and> True \<and> fmtime f < cutoff)) (log_files g)"
    if "umap_find (log_files g) ?path = Some f" "fmtime f < cutoff" for f
  proof -
    have "(?path, v) \<in> set (log_files g) \<longleftrightarrow> v = f" for v
      using that(1) umap_find_iff[OF assms, of ?path v] by auto
    then show ?thesis
      unfolding umap_erase_def AList.delete_eq using that(2) by (intro filter_cong) auto
  qed
  show ?thesis
    using none[of True] none[of False] some
    by (auto simp: clean_one_def split: option.splits)
qed

lemma clean_fold:
  assumes "umap_wf (log_files g)"
  shows "fold (clean_one cutoff) names g = g\<lparr>log_files := filter
    (\<lambda>(path, f). \<not> ((\<exists>name\<in>set names. path = logDir g @ ''/'' @ name \<and> is_log_name name) \<and> fmtime f < cutoff)) (log_files g)\<rparr>"
  using assms
proof (induction names arbitrary: g)
  case Nil
  then show ?case by (simp add: case_prod_beta)
next
  case (Cons name names)
  let ?g = "clean_one cutoff name g"
  have "umap_wf (log_files ?g)"
    using Cons.prems by (simp add: clean_one_filter umap_wf_def distinct_map_filter)
  from Cons.IH[OF this] show ?case
    by (simp add: clean_one_filter[OF Cons.prems] filter_filter case_prod_beta) (rule arg_cong2[where f=log_files_update]; auto simp: fun_eq_iff intro!: filter_cong)
qed

section \<open>Properties\<close>



text \<open>After a masked value of more than three characters the scan resumes too far to the right, and a name
  with another capitalisation is not searched for: in both messages a password reaches the log.\<close>

lemma filter_leaks:
  "FilterSensitiveInfo ''\"password\":\"longpassword\",\"password\":\"hunter2\"''
     = ''\"password\":\"***\",\"password\":\"hunter2\"''
   \<and> FilterSensitiveInfo ''\"newPassword\":\"hunter2\"'' = ''\"newPassword\":\"hunter2\"''"
  by code_simp


text \<open>Cleaning removes exactly the files of the log directory that carry a log name and were last modified
  more than the given number of days ago; every other file keeps its content.\<close>

lemma clean_removes_expired:
  assumes "umap_wf (log_files g)" and "logDir g \<in> set (log_dirs g)"
  shows "CleanExpiredLogs t days g = g\<lparr>logRetentionDays := days,
     log_files := filter (\<lambda>entry. \<not> expired (t - days * 86400) (logDir g) entry) (log_files g)\<rparr>"
proof -
  let ?names = "List.map_filter (dir_entry (logDir g)) (map fst (log_files g))"
  have "(\<exists>name\<in>set ?names. path = logDir g @ ''/'' @ name \<and> is_log_name name) \<and> fmtime f < cutoff
      \<longleftrightarrow> expired cutoff (logDir g) (path, f)" if "(path, f) \<in> set (log_files g)" for path f cutoff
  proof -
    have key: "path \<in> set (map fst (log_files g))" using that by force
    have "path \<in> K \<Longrightarrow> ((\<exists>name. (d @ ''/'' @ name \<in> K \<and> CHR ''/'' \<notin> set name) \<and> path = d @ ''/'' @ name \<and> is_log_name name) \<and> b)
        \<longleftrightarrow> ((\<exists>name. path = d @ ''/'' @ name \<and> CHR ''/'' \<notin> set name \<and> prefix ''server_log_'' name
              \<and> sublist ''.txt'' name) \<and> b)" for K d b
      by (auto simp: is_log_name_iff)
    from this[OF key] show ?thesis unfolding expired_def Bex_def dir_entries prod.case .
  qed
  then have "filter (\<lambda>(path, f). \<not> ((\<exists>name\<in>set ?names. path = logDir g @ ''/'' @ name \<and> is_log_name name)
        \<and> fmtime f < t - days * 86400)) (log_files g)
      = filter (\<lambda>entry. \<not> expired (t - days * 86400) (logDir g) entry) (log_files g)"
    by (intro filter_cong) auto
  then show ?thesis
    using clean_fold[of "g\<lparr>logRetentionDays := days\<rparr>" "t - days * 86400" ?names] assms
    by (simp add: CleanExpiredLogs_def Let_def)
qed

lemma clean_removes_expired_witness:
  "let f = \<lambda>t. \<lparr>fcontent = [], fmtime = t\<rparr>;
       g = (logger_new [(''logs/server_log_old.txt'', f 0), (''logs/notes.txt'', f 0),
              (''logs/server_log_new.txt'', f 8000000)] [''logs''])\<lparr>logDir := ''logs''\<rparr>
   in map fst (log_files (CleanExpiredLogs 8640000 90 g)) = [''logs/notes.txt'', ''logs/server_log_new.txt'']"
proof -
  let ?f = "\<lambda>t. \<lparr>fcontent = [], fmtime = t\<rparr>"
  let ?g = "(logger_new [(''logs/server_log_old.txt'', ?f 0), (''logs/notes.txt'', ?f 0),
    (''logs/server_log_new.txt'', ?f 8000000)] [''logs''])\<lparr>logDir := ''logs''\<rparr>"
  have "umap_wf (log_files ?g)" "logDir ?g \<in> set (log_dirs ?g)" by (simp_all add: logger_new_def umap_wf_def)
  from clean_removes_expired[OF this] show ?thesis
    by (simp add: logger_new_def expired_def sublist_Cons_right)
qed




end
