(* ===== verification/Spec2Isabelle.thy ===== *)
theory Spec2Isabelle
  imports Request_Races Shutdown Server_Logger
begin

text \<open>
  A model of the LiteChat server (C++11, MySQL Connector/C++, JsonCpp, OpenSSL) and proofs about it.

  \<^bold>\<open>The program.\<close>  Clients hold one TCP connection each and exchange JSON texts, framed by a length header of
  four bytes.  The accept thread (\<open>Server::AcceptConnections\<close>) admits connections and hands each of
  them, as a task \<open>HandleClient\<close>, to a pool of ten workers (\<open>ThreadPool\<close>).  A task receives one request
  after the other (\<open>ReceiveData\<close>) and dispatches it (\<open>DispatchRequest\<close>) to \<open>UserManager\<close>, \<open>FriendManager\<close> or
  \<open>MessageManager\<close>, which work on the session table (\<open>SessionManager\<close>) and, through the data access objects
  (\<open>UserDAO\<close>, \<open>FriendDAO\<close>, \<open>MessageDAO\<close>) and the connection pool (\<open>DBManager\<close>), on three tables.  A heartbeat
  thread removes silent users, a monitor thread reports the load, \<open>ServerLogger\<close> writes the log, and
  \<open>ExceptionHandler\<close> decides what follows an exception.

  \<^bold>\<open>The theories\<close>, in the order of their imports; the files are those under \<^verbatim>\<open>src/src\<close>.

  \<^item> \<open>Prelude\<close>: building blocks of actions in the state monad, hash maps (locale \<open>assoc_store\<close>, interpreted as \<open>um\<close>
    on association lists) and queues (locale \<open>fifo\<close>, interpreted as \<open>qu\<close>).
  \<^item> \<open>Texts\<close>: the UTF-8 literals of the answers.  \<open>Database\<close>: \<^verbatim>\<open>sql/init.sql\<close> and the meaning of every SQL
    statement the server sends; \<open>db_ok\<close> is the schema, and every update keeps it.
  \<^item> \<open>Libraries\<close>: what is not under \<^verbatim>\<open>src\<close> --- JsonCpp, MD5, the collation and row order of MySQL --- as records
    of functions, arguments of the model, with one concrete instance for the witnesses.
  \<^item> \<open>Framing\<close>: \<open>ParseMessageHeader\<close>, \<open>PackageMessage\<close>, \<open>ReceiveData\<close>, \<open>SendData\<close> over arbitrary results of \<open>recv\<close>
    and \<open>send\<close> (locale \<open>length_prefixed\<close>, interpreted on the message header).
  \<^item> \<open>Client_Session\<close>, \<open>Session_Manager\<close>: sessions on an explicit heap; \<open>ub\<close> records a use of a deleted one.
  \<^item> \<open>Db_Manager\<close>: the connection pool, also with several threads.  \<open>Thread_Pool\<close>: workers, queue and destructor
    as a transition system of critical sections.
  \<^item> \<open>World\<close>: the state of the whole server, database statements that may fail before or after they took effect,
    and a weakest precondition calculus (\<open>wp\<close>) whose rules leave every fault open.
  \<^item> \<open>User_Dao\<close>, \<open>Friend_Dao\<close>, \<open>Message_Dao\<close>: one action per data access function.
  \<^item> \<open>Handler_Logic\<close>: the locale \<open>handler_inv\<close>, the interface between the managers and what they call; a lemma
    proved in it holds for all five interpretations: the schema, the session heap, the connection pool,
    the trace of network events and the absence of faults (and a sixth one in \<open>Server\<close>, the frame).
  \<^item> \<open>Demo_World\<close>: the world of the witnesses.
  \<^item> \<open>User_Manager\<close>, \<open>Friend_Manager\<close>, \<open>Message_Manager\<close>, \<open>Exception_Handler\<close>, \<open>Dispatch\<close>: the handlers, branch by
    branch, errors included, with their effects on tables, sessions and sockets.
  \<^item> \<open>Server_Monitor\<close>, \<open>Server\<close>, \<open>Server_System\<close>: starting, accepting, serving, heartbeat, stopping; the steps of the
    running server and the invariant of its reachable states.
  \<^item> \<open>Server_Threads\<close>, \<open>Server_Races\<close>: the heartbeat thread, the end of a client's task, its exception handler and \<open>Stop\<close>
    as programs of single statements that interleave; what every interleaving keeps (a seventh interpretation of
    \<open>handler_inv\<close>), that such a program run alone is the round of \<open>Server\<close>, that the ends of the tasks do not disturb each
    other, and schedules in which the heartbeat thread, \<open>Stop\<close> or an exception handler disturbs one.
  \<^item> \<open>Chat_Service\<close>, \<open>Chat_Abstraction\<close>, \<open>Chat_Refinement\<close>: the service the server promises, as pure functions on
    accounts, friendships, letters and connections; the abstract state of the server; and the proof that every
    handler, the dispatcher and (locale \<open>simulation\<close>) every sequence of requests implements it while no
    database or socket call fails.  \<open>Chat_Security\<close>: who can be responsible for a login and for a lost message, read
    backwards from the state after a sequence of requests.
  \<^item> \<open>Login_Race\<close>, \<open>Session_Races\<close>, \<open>Request_Races\<close>: \<open>HandleLogin\<close>, \<open>HandleSendMessage\<close>, \<open>HandleRegister\<close> and
    \<open>NotifyFriendsStatusChange\<close> as programs of single statements; two logins of one user at the same time, a request that uses the session of a connection that ends, registrations of
    one name at the same time, and what every interleaving of these programs keeps.
  \<^item> \<open>Shutdown\<close>: the destructors of the server and of the connection pool, with the tasks that are still there.
  \<^item> \<open>Server_Logger\<close>: log entries, the password filter, rotation and cleaning.
  \<^item> this theory: \<open>main\<close> and the signal handler.

  \<^bold>\<open>Conventions.\<close>  A \<open>std::string\<close> is a list of bytes.  A C++ pointer member is a flag that says whether it is set,
  except for the sessions, which are reached through addresses.  An output parameter is the payload of
  an \<open>option\<close>.  Integers that are compared or counted are \<open>int\<close>; the message header and its
  narrowing to \<open>int\<close> are words of 32 bits.  Uninitialised memory (the header buffer, \<open>request.count\<close>) is an
  argument called \<open>junk\<close>.  Answers of the operating system, of the driver and of the database are scripts
  of arbitrary length in the state; an exhausted script means success.

  \<^bold>\<open>What is shown.\<close>  C1, C21, C22, C6: the invariants of the server by rounds, of its threads and of its requests by statements, and
  of the ends of the client tasks alone; C7 to C9, C23, C24, C26: races; C25: a race that the schema decides; C27: statements run
  alone are rounds.  C33, C37: invariants of the thread pool and of the connection pool; C34: no task is forgotten; C35, C36: the
  destructor of the thread pool.
  C2: the dispatcher implements the chat service; C3 to C5: what follows for logins, accounts and messages over sequences of
  requests.  C10: no request can break the data, the session heap or the pool.  C11: every well-formed request is answered
  once.  C12, C13, C28, C29: effects under arbitrary faults.  C14, C30 to C32: exact effects without
  faults.  C15, C16: the wire protocol.  C17 to C20, C40: the life of the server and of its connections.
  C38, C39: the logger.
  C7 to C9, C23, C24, C26, C31, C32, C36 and C39 state behaviour that the documentation does not lead one to expect, and so do
  the lemmas \<open>login_ends_earlier_session\<close>, \<open>unauthenticated_delete\<close>, \<open>update_user_partial\<close>, \<open>delete_friend_effect\<close>,
  \<open>short_header_read\<close>, \<open>filter_leaks\<close>, \<open>reconnect_grows_pool\<close>, \<open>db_exception_nine_attempts\<close>, \<open>failed_start_closes_twice\<close>,
  \<open>stop_use_after_free\<close>, \<open>notify_use_after_free\<close> and \<open>all_busy_starve\<close>.

  \<^bold>\<open>Termination.\<close>  \<open>receive_body\<close>, \<open>send_loop\<close>, \<open>client_loop\<close> and \<open>filter_loop\<close> are total functions with termination
  proofs: bytes left to receive or to send, bytes of input, colons left in the text.  \<open>receive_all\<close> has fuel, one
  unit per message, and C15 shows that more fuel than messages is enough.  A thread of \<open>Server_Threads\<close> is a finite
  program, so it ends when it is scheduled often enough (\<open>leads_run\<close>).

  \<^bold>\<open>Granularity.\<close>  The steps of \<open>Server_System\<close> are whole rounds of the threads: one request, one heartbeat round, one
  accepted connection.  In \<open>Server_Threads\<close> the heartbeat round, the end of a task and \<open>Stop\<close> are split into their statements
  --- one call of a getter, of a manager or of the kernel each --- while one request and one accepted connection stay single
  steps.  \<open>Login_Race\<close>, \<open>Session_Races\<close> and \<open>Request_Races\<close> split logins, messages, registrations and the notification of friends
  as well; in the end of a task that notification is one statement.  The connection pool and the thread pool are modelled by their critical sections.

  \<^bold>\<open>Not modelled.\<close>  Log and console output inside the handlers (the logger itself is modelled; no handler reads its
  state); exceptions inside a manager other than database errors (\<open>std::bad_alloc\<close>, \<open>std::regex_error\<close>), so the
  handler in \<open>DispatchRequest\<close> is present but never entered; the signal \<open>SIGPIPE\<close>; TCP beyond the bytes in order;
  constructors and destructors that only set or delete pointers; creation and update times of rows, which no statement reads; \<^verbatim>\<open>SQLCommand1.sql\<close>, \<^verbatim>\<open>SQLCommand2.sql\<close> and the
  build files.
\<close>

section \<open>The program\<close>

text \<open>
  \<open>main\<close> and the signal handler, \<^verbatim>\<open>src/src/main.cpp\<close>.  The result of \<open>main\<close> is its exit code together with
  the sockets whose tasks were handed to the thread pool; \<open>answers\<close> are the results of \<open>accept\<close>.  A wait
  for a connection that never comes counts as a failure.
\<close>

definition init_connection_pool :: "int \<Rightarrow> bool option act" where
  "init_connection_pool n = State (\<lambda>w. case InitConnectionPool n (dbm w) of
     None \<Rightarrow> (None, w) | Some (ok, m) \<Rightarrow> (Some ok, w\<lparr>dbm := m\<rparr>))"

definition main_program :: "start_env \<Rightarrow> accepted list \<Rightarrow> (int \<times> int list) act" where
  "main_program env answers = do {
     modify (\<lambda>w. w\<lparr>dbm := (dbm w)\<lparr>connectionPool := [], poolSize := 0\<rparr>\<rparr>);
     ready \<leftarrow> init_connection_pool 10;
     if ready \<noteq> Some True then State_Monad.return (1, [])
     else do {
       modify (\<lambda>w. w\<lparr>server := Server_new\<rparr>);
       SetDBManager;
       started \<leftarrow> Start env;
       if \<not> started then State_Monad.return (1, [])
       else do {
         socks \<leftarrow> AcceptConnections answers;
         State_Monad.return (0, socks)
       }
     }
   }"

definition SignalHandler :: "libs \<Rightarrow> bool \<Rightarrow> unit act" where
  "SignalHandler L g_server = guarded g_server (Stop L)"

text \<open>The monitor's report becomes a log entry.\<close>

definition RecordMonitorData :: "(int \<Rightarrow> int) \<Rightarrow> int \<Rightarrow> string \<Rightarrow> logger \<Rightarrow> logger" where
  "RecordMonitorData tz t data g = WriteLog tz t INFO ''Monitor'' data [] g"

lemma accept_round_count:
  assumes "run_state (accept_round a) w = (r, w')" and "currentConnections (server w) \<le> maxConnections (server w)"
  shows "currentConnections (server w') = currentConnections (server w) + (case r of Submit _ \<Rightarrow> 1 | _ \<Rightarrow> 0)
    \<and> maxConnections (server w') = maxConnections (server w) \<and> dbm w' = dbm w
    \<and> currentConnections (server w') \<le> maxConnections (server w')"
  using assms
  by (auto simp: accept_round_def raw_send_def close_socket_def new_session_def count_connections_def set_server_def
      case_prod_beta split: accepted.splits if_splits)

lemma AcceptConnections_count:
  assumes "run_state (AcceptConnections answers) w = (socks, w')"
    and "currentConnections (server w) \<le> maxConnections (server w)"
  shows "currentConnections (server w') = currentConnections (server w) + int (length socks)
    \<and> maxConnections (server w') = maxConnections (server w) \<and> dbm w' = dbm w
    \<and> currentConnections (server w') \<le> maxConnections (server w')"
  using assms
proof (induction answers arbitrary: w socks w')
  case Nil
  then show ?case by simp
next
  case (Cons a answers)
  obtain r w1 where step: "run_state (accept_round a) w = (r, w1)" by fastforce
  note c = accept_round_count[OF step Cons.prems(2)]
  show ?case
  proof (cases "running (server w)")
    case False
    with Cons.prems show ?thesis by auto
  next
    case True
    obtain socks1 w2 where rest: "run_state (AcceptConnections answers) w1 = (socks1, w2)" by fastforce
    have "currentConnections (server w1) \<le> maxConnections (server w1)" using c by simp
    note IH = Cons.IH[OF rest this]
    have "(socks, w') = (case r of Leave \<Rightarrow> ([], w1) | Again \<Rightarrow> (socks1, w2) | Submit sock \<Rightarrow> (sock # socks1, w2))"
      using Cons.prems(1) True step rest by (simp split: accept_result.splits)
    with c IH show ?thesis by (cases r) simp_all
  qed
qed

text \<open>C40: The program ends with 0 only if the driver was found, the pool holds ten connections and the listening
  socket was set up; while no client leaves, it admits at most 128 of them, whatever \<open>accept\<close> answers.  Every other end is 1,
  with no client admitted.\<close>

theorem main_exit_code:
  assumes "run_state (main_program env answers) w = ((exit, socks), w')"
  shows "if exit = 0 then driver_ok (dbm w) \<and> length (connectionPool (dbm w')) = 10
       \<and> socket_result env \<noteq> -1 \<and> setsockopt_ok env \<and> bind_ok env \<and> listen_ok env
       \<and> currentConnections (server w') = int (length socks) \<and> length socks \<le> 128
     else exit = 1 \<and> socks = []"
proof -
  let ?m = "(dbm w)\<lparr>connectionPool := [], poolSize := 0\<rparr>"
  show ?thesis
  proof (cases "\<exists>m. InitConnectionPool 10 ?m = Some (True, m) \<and> fst (run_state (Start env) (w\<lparr>dbm := m, server := Server_new\<lparr>has_dbManager := True\<rparr>\<rparr>))")
    case False
    with assms have "exit = 1 \<and> socks = []"
      by (auto simp: main_program_def init_connection_pool_def SetDBManager_def case_prod_beta
          split: option.splits if_splits)
    then show ?thesis by simp
  next
    case True
    then obtain m where init: "InitConnectionPool 10 ?m = Some (True, m)"
      and start: "fst (run_state (Start env) (w\<lparr>dbm := m, server := Server_new\<lparr>has_dbManager := True\<rparr>\<rparr>))" by blast
    obtain w1 where w1: "run_state (Start env) (w\<lparr>dbm := m, server := Server_new\<lparr>has_dbManager := True\<rparr>\<rparr>) = (True, w1)"
      using start by (metis prod.collapse)
    have up: "currentConnections (server w1) = 0" "maxConnections (server w1) = 128" "dbm w1 = m"
      "socket_result env \<noteq> -1" "setsockopt_ok env" "bind_ok env" "listen_ok env"
      using w1 by (auto simp: Start_def create_managers_def set_server_def Server_new_def close_socket_def split: if_splits)
    have run: "run_state (AcceptConnections answers) w1 = (socks, w') \<and> exit = 0"
      using assms init w1
      by (auto simp: main_program_def init_connection_pool_def SetDBManager_def case_prod_beta)
    have "length (connectionPool m) = 10 \<and> driver_ok (dbm w)"
      using init by (auto simp: InitConnectionPool_def Let_def split: if_splits prod.splits bool.splits
          dest!: create_loop_pool ValidateConnection_pool)
    with AcceptConnections_count[of answers w1 socks w'] run up show ?thesis by simp
  qed
qed

theorem main_exit_code_witness:
  "let env = \<lparr>socket_result = 3, setsockopt_ok = True, bind_ok = True, listen_ok = True\<rparr>;
       run = run_state (main_program env [Accepted 4 ''10.0.0.1'' 5000, AcceptFailed, Accepted 5 ''10.0.0.2'' 5001]) demo_world
   in fst run = (0, [4, 5]) \<and> length (connectionPool (dbm (snd run))) = 10"
proof -
  let ?env = "\<lparr>socket_result = 3, setsockopt_ok = True, bind_ok = True, listen_ok = True\<rparr>"
  let ?run = "run_state (main_program ?env [Accepted 4 ''10.0.0.1'' 5000, AcceptFailed, Accepted 5 ''10.0.0.2'' 5001]) demo_world"
  obtain m where init: "InitConnectionPool 10 ((dbm demo_world)\<lparr>connectionPool := [], poolSize := 0\<rparr>) = Some (True, m)"
    by (simp add: demo_world_def DBManager_new_def InitConnectionPool_def CreateConnection_def ValidateConnection_def
        GetConnection_def select_one_def queue_push_def queue_pop_def eval_nat_numeral)
  have "fst ?run = (0, [4, 5])"
    by (simp add: main_program_def init_connection_pool_def init SetDBManager_def Start_def create_managers_def
        set_server_def Server_new_def accept_round_def new_session_def count_connections_def case_prod_beta)
  moreover from this have "?run = ((0, [4, 5]), snd ?run)" by (metis prod.collapse)
  from main_exit_code[OF this] have "length (connectionPool (dbm (snd ?run))) = 10" by simp
  ultimately show ?thesis by (simp add: Let_def)
qed

end
